(* ===== verification/Prelude.thy ===== *)
theory Prelude
  imports Main "HOL-Library.Word" "HOL-Library.Signed_Division" "HOL-Library.While_Combinator"
begin

text \<open>
  Shared vocabulary of the development: the machine types of the firmware
  (bytes, half-words and words of the picorv32), the range of the C type
  \<open>int\<close> with signed overflow as undefined behaviour, C's truncating remainder
  on non-negative operands, and list lemmas used by several components.
  Facts about the C-level semantics are collected in \<open>c_sem\<close>, list facts
  used by the byte-lane proofs in \<open>lane_simps\<close>, and the effect of the
  primitive I/O operations on a modelled state in \<open>world_simps\<close>, and the
  behaviour of the firmware's bus at each device address in \<open>soc_simps\<close>.
\<close>

unbundle bit_operations_syntax

named_theorems c_sem "facts about the C-level semantics shared by the components"
named_theorems lane_simps "list facts shared by the byte-lane proofs"
named_theorems world_simps "effect of the primitive I/O operations on the modelled state"
named_theorems soc_simps "behaviour of the firmware's bus at each device address"

type_synonym byte = "8 word"
type_synonym u16 = "16 word"
type_synonym u32 = "32 word"

subsection \<open>The C type int\<close>

text \<open>
  Both the host tool and the firmware use 32-bit \<open>int\<close>. A signed result
  outside its range is undefined behaviour in C; \<open>c_int\<close> returns \<open>None\<close>
  for it, so every arithmetic step of the source that may overflow is a branch
  of the model.
\<close>

definition INT_MAX :: int where
  "INT_MAX = 2 ^ 31 - 1"

definition INT_MIN :: int where
  "INT_MIN = - (2 ^ 31)"

definition c_int :: "int \<Rightarrow> int option" where
  "c_int x = (if INT_MIN \<le> x \<and> x \<le> INT_MAX then Some x else None)"

text \<open>\<open>a << n\<close> on \<open>int\<close>: undefined for a negative operand, a negative or too
  wide shift count, and a result that is not an \<open>int\<close> (ISO C 6.5.7).\<close>

definition c_shl :: "int \<Rightarrow> int \<Rightarrow> int option" where
  "c_shl a n = (if 0 \<le> a \<and> 0 \<le> n \<and> n < 32 then c_int (a * 2 ^ nat n) else None)"

text \<open>The line terminator written by a newline in a format string.\<close>

abbreviation NL :: char where
  "NL \<equiv> CHR 0x0A"

text \<open>The elements of a list at the positions whose index satisfies a predicate,
  in order: the byte lanes of the image splitter are of this form.\<close>

definition nths_by :: "(nat \<Rightarrow> bool) \<Rightarrow> 'a list \<Rightarrow> 'a list" where
  "nths_by P xs = map (nth xs) (filter P [0..<length xs])"

subsection \<open>Facts on C integers\<close>

lemma c_int_Some [c_sem]: "INT_MIN \<le> x \<Longrightarrow> x \<le> INT_MAX \<Longrightarrow> c_int x = Some x"
  by (simp add: c_int_def)

lemma c_int_eq_Some_iff [c_sem]: "c_int x = Some y \<longleftrightarrow> y = x \<and> INT_MIN \<le> x \<and> x \<le> INT_MAX"
  by (auto simp: c_int_def)

lemma c_int_eq_None_iff [c_sem]: "c_int x = None \<longleftrightarrow> x < INT_MIN \<or> INT_MAX < x"
  by (auto simp: c_int_def)

lemma INT_MAX_val [c_sem]: "INT_MAX = 2147483647" and INT_MIN_val [c_sem]: "INT_MIN = -2147483648"
  by (simp_all add: INT_MAX_def INT_MIN_def)

text \<open>C's \<open>%\<close> truncates towards zero (\<open>smod\<close>); on a non-negative left
  operand and a positive divisor it is HOL's \<open>mod\<close>.\<close>

lemma smod_nonneg [c_sem]: "0 \<le> (a::int) \<Longrightarrow> 0 < b \<Longrightarrow> a smod b = a mod b"
  by (cases "a = 0") (simp_all add: smod_int_alt_def sgn_if)

lemma smod_of_nat [c_sem]: "0 < b \<Longrightarrow> int a smod b = int a mod b"
  by (simp add: smod_nonneg)

lemma smod_eq_0_iff: "(a::int) smod b = 0 \<longleftrightarrow> a mod b = 0"
  by (auto simp: smod_int_alt_def sgn_if zmod_zminus1_eq_if abs_if mod_eq_0_iff_dvd)

text \<open>A loop \<open>while (x % m != 0) x++\<close> ends: the distance from \<open>x\<close> up to the
  next multiple of \<open>m\<close> shrinks in every round.\<close>

lemma smod_ne_0_distance_decreases:
  assumes "(a::int) smod m \<noteq> 0" "0 < m"
  shows "0 < (- a) mod m \<and> (- a - 1) mod m < (- a) mod m"
proof -
  have nz: "a mod m \<noteq> 0"
    using assms(1) by (simp add: smod_eq_0_iff)
  have "a mod m < m"
    using assms(2) by simp
  with nz have ne: "(- a) mod m \<noteq> 0"
    by (simp add: zmod_zminus1_eq_if)
  have lt: "(- a) mod m < m"
    using assms(2) by simp
  have "0 \<le> (- a) mod m"
    using assms(2) by simp
  with ne have pos: "0 < (- a) mod m" by simp
  have "(- a - 1) mod m = ((- a) mod m - 1) mod m"
    by (simp add: mod_diff_left_eq)
  also have "\<dots> = (- a) mod m - 1"
    using pos lt by simp
  finally show ?thesis using pos by simp
qed

subsection \<open>Lists\<close>

lemma nths_by_Nil [simp, lane_simps]: "nths_by P [] = []"
  by (simp add: nths_by_def)

lemma nths_by_snoc [lane_simps]:
  "nths_by P (xs @ [x]) = nths_by P xs @ (if P (length xs) then [x] else [])"
  by (simp add: nths_by_def nth_append)

lemma length_nths_by [lane_simps]:
  "length (nths_by P xs) = length (filter P [0..<length xs])"
  by (simp add: nths_by_def)

lemma nths_by_append [lane_simps]:
  "nths_by P (xs @ ys) = nths_by P xs @ nths_by (\<lambda>j. P (length xs + j)) ys"
proof (induction ys rule: rev_induct)
  case Nil
  then show ?case by simp
next
  case (snoc y ys)
  then show ?case by (simp add: nths_by_snoc flip: append_assoc)
qed

lemma nths_by_Cons [lane_simps]:
  "nths_by P (x # xs) = (if P 0 then [x] else []) @ nths_by (\<lambda>j. P (Suc j)) xs"
  using nths_by_append [of P "[x]" xs] by (simp add: nths_by_def)

end
