(* ===== verification/C_Lib.thy ===== *)
theory C_Lib
  imports Prelude
begin

text \<open>
  The C library functions the sources call, with their ISO C meaning:
  \<open>atoi\<close> (\<open>stdlib.h\<close>) and the conversions \<open>%d\<close> and \<open>%02X\<close> of
  \<open>printf\<close>. They are not code of the repository; they are modelled so that
  the tool's argument parsing and output text can be stated exactly, with the
  digit facts the tool's properties use.
\<close>

subsection \<open>Digits\<close>

definition dec_digit :: "nat \<Rightarrow> char" where
  "dec_digit d = char_of (48 + d)"

definition hex_upper :: "nat \<Rightarrow> char" where
  "hex_upper d = ''0123456789ABCDEF'' ! d"

definition is_digit :: "char \<Rightarrow> bool" where
  "is_digit c \<longleftrightarrow> 48 \<le> (of_char c :: nat) \<and> (of_char c :: nat) \<le> 57"

definition digit_val :: "char \<Rightarrow> nat" where
  "digit_val c = of_char c - 48"

subsection \<open>printf conversions\<close>

text \<open>Decimal digits of a natural number, most significant first, as \<open>%d\<close>
  and \<open>%u\<close> print them.\<close>

fun dec_nat :: "nat \<Rightarrow> string" where
  "dec_nat n = (if n < 10 then [dec_digit n] else dec_nat (n div 10) @ [dec_digit (n mod 10)])"

declare dec_nat.simps [simp del]

definition fmt_d :: "int \<Rightarrow> string" where
  "fmt_d i = (if i < 0 then CHR ''-'' # dec_nat (nat (- i)) else dec_nat (nat i))"

text \<open>Upper-case hexadecimal digits of a natural number (\<open>%X\<close>), and \<open>%02X\<close>:
  at least two digits, padded on the left with \<open>0\<close>.\<close>

fun hex_nat :: "nat \<Rightarrow> string" where
  "hex_nat n = (if n < 16 then [hex_upper n] else hex_nat (n div 16) @ [hex_upper (n mod 16)])"

declare hex_nat.simps [simp del]

definition fmt_02X :: "nat \<Rightarrow> string" where
  "fmt_02X n = (let s = hex_nat n in replicate (2 - length s) CHR ''0'' @ s)"

subsection \<open>atoi\<close>

text \<open>
  \<open>atoi\<close> skips leading white space (\<open>isspace\<close>: blank, \<open>\t \n \v \f \r\<close>),
  reads an optional sign and the longest run of decimal digits, and ignores
  the rest. ISO C leaves the result undefined when the value is not an
  \<open>int\<close>; that is \<open>None\<close> here.
\<close>

definition c_isspace :: "char \<Rightarrow> bool" where
  "c_isspace c \<longleftrightarrow> (of_char c :: nat) = 32 \<or> (9 \<le> (of_char c :: nat) \<and> (of_char c :: nat) \<le> 13)"

fun digits_val :: "int \<Rightarrow> string \<Rightarrow> int" where
  "digits_val acc [] = acc"
| "digits_val acc (c # cs) = (if is_digit c then digits_val (10 * acc + int (digit_val c)) cs else acc)"

definition atoi :: "string \<Rightarrow> int option" where
  "atoi s =
     (let s1 = dropWhile c_isspace s;
          (neg, s2) = (case s1 of
                         [] \<Rightarrow> (False, [])
                       | c # r \<Rightarrow> if c = CHR ''-'' then (True, r)
                                  else if c = CHR ''+'' then (False, r) else (False, s1))
      in c_int (if neg then - digits_val 0 s2 else digits_val 0 s2))"

subsection \<open>Digit facts\<close>

lemma is_digit_dec_digit [simp]: "d < 10 \<Longrightarrow> is_digit (dec_digit d)"
  by (simp add: is_digit_def dec_digit_def)

lemma digit_val_dec_digit [simp]: "d < 10 \<Longrightarrow> digit_val (dec_digit d) = d"
  by (simp add: digit_val_def dec_digit_def)

subsection \<open>printf facts\<close>

lemma fmt_02X_byte [c_sem]:
  assumes "n < 256"
  shows "fmt_02X n = [hex_upper (n div 16), hex_upper (n mod 16)]"
proof (cases "n < 16")
  case True
  then show ?thesis by (simp add: fmt_02X_def hex_nat.simps hex_upper_def)
next
  case False
  with assms have "n div 16 < 16" by simp
  with False show ?thesis by (simp add: fmt_02X_def hex_nat.simps [of n] hex_nat.simps [of "n div 16"])
qed

lemma length_fmt_02X [c_sem]: "n < 256 \<Longrightarrow> length (fmt_02X n) = 2"
  by (simp add: fmt_02X_byte)

lemma fmt_02X_0 [c_sem]: "fmt_02X 0 = ''00''"
  by (simp add: fmt_02X_byte hex_upper_def)

lemma fmt_d_digit [c_sem]: "d < 10 \<Longrightarrow> fmt_d (int d) = [dec_digit d]"
  by (simp add: fmt_d_def dec_nat.simps)

subsection \<open>Decimal digits\<close>

lemma dec_nat_ne [simp]: "dec_nat n \<noteq> []"
  by (simp add: dec_nat.simps [of n])

lemma not_space_dec_digit [simp]: "d < 10 \<Longrightarrow> \<not> c_isspace (dec_digit d)"
  by (simp add: c_isspace_def dec_digit_def)

lemma of_char_dec_digit: "d < 10 \<Longrightarrow> (of_char (dec_digit d) :: nat) = 48 + d"
  by (simp add: dec_digit_def)

lemma dec_digit_not_sign [simp]:
  "d < 10 \<Longrightarrow> dec_digit d \<noteq> CHR ''-''" "d < 10 \<Longrightarrow> dec_digit d \<noteq> CHR ''+''"
  using of_char_dec_digit [of d] by auto

lemma length_dec_nat_le: "n < 10 ^ k \<Longrightarrow> 0 < k \<Longrightarrow> length (dec_nat n) \<le> k"
proof (induction n arbitrary: k rule: dec_nat.induct)
  case (1 n)
  show ?case
  proof (cases "n < 10")
    case True
    with "1.prems" show ?thesis by (simp add: dec_nat.simps [of n])
  next
    case False
    have k: "Suc 0 < k"
    proof (rule ccontr)
      assume "\<not> Suc 0 < k"
      with "1.prems"(2) have "k = 1" by simp
      with "1.prems"(1) False show False by simp
    qed
    then obtain k' where k': "k = Suc k'" "0 < k'"
      by (cases k) auto
    have "n < 10 ^ k' * 10"
      using "1.prems"(1) k' by (simp add: mult.commute)
    then have "n div 10 < 10 ^ k'"
      by (rule less_mult_imp_div_less)
    then have "length (dec_nat (n div 10)) \<le> k'"
      using "1.IH" False k' by simp
    with False k' show ?thesis by (simp add: dec_nat.simps [of n])
  qed
qed

lemma length_fmt_d_int: "0 \<le> i \<Longrightarrow> i \<le> INT_MAX \<Longrightarrow> length (fmt_d i) \<le> 10"
proof -
  assume "0 \<le> i" "i \<le> INT_MAX"
  then have "nat i < 10 ^ 10" by (simp add: INT_MAX_def)
  then have "length (dec_nat (nat i)) \<le> 10" by (rule length_dec_nat_le) simp
  with \<open>0 \<le> i\<close> show ?thesis by (simp add: fmt_d_def)
qed

lemma atoi_le_INT_MAX: "atoi s = Some i \<Longrightarrow> i \<le> INT_MAX"
  by (auto simp: atoi_def c_int_eq_Some_iff Let_def split: list.splits prod.splits if_splits)

end
