(* ===== verification/Conv_To_Init.thy ===== *)
theory Conv_To_Init
  imports C_Lib
begin

text \<open>
  The host tool \<open>src/c_code/conv_to_init.c\<close> (its \<open>main\<close>, lines 31--107):
  it checks its three arguments, opens the input image, creates the four lane
  files \<open>../src/mem_init0.ini\<close> .. \<open>mem_init3.ini\<close> and the parameter file
  \<open>../src/sys_parameters.v\<close>, deals the bytes of the image round-robin over the
  four lanes as \<open>%02X\<close> lines, pads with \<open>00\<close> lines to a multiple of 16
  bytes and compares the count with the SRAM capacity.

  The process acts on a \<open>world\<close>: one store of files (path to contents;
  the input is read from the same store the outputs are written to, so an
  input path that names an output file is modelled as the program really
  behaves), and the two text streams \<open>stdout\<close> and \<open>stderr\<close>. Which paths
  may be opened for writing is a parameter \<open>wr\<close> of the run. Undefined
  behaviour of the C code (signed overflow, a too-wide shift, an out-of-range
  \<open>atoi\<close>, an out-of-range array index) makes the run \<open>None\<close>.
\<close>

subsection \<open>The world of the process\<close>

datatype exit_status = EXIT_SUCCESS | EXIT_FAILURE

record world =
  fs :: "string \<Rightarrow> string option"
  stdout :: string
  stderr :: string

text \<open>\<open>fopen(p, "w")\<close> and \<open>fopen(p, "wb")\<close>: creates or truncates \<open>p\<close>, or fails
  (\<open>NULL\<close>) when \<open>p\<close> may not be written.\<close>

definition fopen_w :: "(string \<Rightarrow> bool) \<Rightarrow> string \<Rightarrow> world \<Rightarrow> world option" where
  "fopen_w wr p w = (if wr p then Some (w\<lparr>fs := (fs w)(p \<mapsto> [])\<rparr>) else None)"

text \<open>\<open>fprintf\<close> on a stream open on \<open>p\<close>: appends the formatted text.\<close>

definition fput :: "string \<Rightarrow> string \<Rightarrow> world \<Rightarrow> world" where
  "fput p s w = w\<lparr>fs := (fs w)(p := map_option (\<lambda>c. c @ s) (fs w p))\<rparr>"

definition eprint :: "string \<Rightarrow> world \<Rightarrow> world" where
  "eprint s w = w\<lparr>stderr := stderr w @ s\<rparr>"

definition oprint :: "string \<Rightarrow> world \<Rightarrow> world" where
  "oprint s w = w\<lparr>stdout := stdout w @ s\<rparr>"

text \<open>What \<open>fgetc\<close> delivers from the input stream once reading starts: the
  file's contents at that moment (nothing has been buffered before the first
  read).\<close>

definition input_bytes :: "world \<Rightarrow> string \<Rightarrow> string" where
  "input_bytes w p = (case fs w p of None \<Rightarrow> [] | Some s \<Rightarrow> s)"

subsection \<open>File names and the lane array\<close>

text \<open>\<open>sprintf(fname, "../src/mem_init%d.ini", i)\<close>\<close>

definition mem_init_fname :: "int \<Rightarrow> string" where
  "mem_init_fname i = ''../src/mem_init'' @ fmt_d i @ ''.ini''"

definition param_fname :: string where
  "param_fname = ''../src/sys_parameters.v''"

text \<open>\<open>fp_out[i]\<close>: the stream of lane \<open>i\<close>; an index outside \<open>0..3\<close> is
  undefined behaviour.\<close>

definition fp_out :: "int \<Rightarrow> string option" where
  "fp_out i = (if 0 \<le> i \<and> i < 4 then Some (mem_init_fname i) else None)"

text \<open>\<open>mem_bytes = 4*(1 << sram_addr_width);\<close>\<close>

definition mem_bytes_of :: "int \<Rightarrow> int option" where
  "mem_bytes_of aw = (case c_shl 1 aw of None \<Rightarrow> None | Some s \<Rightarrow> c_int (4 * s))"

subsection \<open>The steps of main\<close>

text \<open>Lines 63--72: open the four lane files in order; the first failure
  reports the name and ends the process, leaving the lanes opened before it
  truncated.\<close>

fun open_lanes :: "(string \<Rightarrow> bool) \<Rightarrow> int list \<Rightarrow> world \<Rightarrow> world + world" where
  "open_lanes wr [] w = Inr w"
| "open_lanes wr (i # is) w =
     (case fopen_w wr (mem_init_fname i) w of
        None \<Rightarrow> Inl (eprint (''could not open file '' @ mem_init_fname i @ [NL]) w)
      | Some w' \<Rightarrow> open_lanes wr is w')"

text \<open>Lines 79--80: the two parameter lines.\<close>

definition write_params :: "int \<Rightarrow> int \<Rightarrow> world \<Rightarrow> world" where
  "write_params aw clk w =
     fput param_fname (''localparam CLK_FREQ = '' @ fmt_d clk @ '';'' @ [NL])
       (fput param_fname (''localparam SRAM_ADDR_WIDTH = '' @ fmt_d aw @ '';'' @ [NL]) w)"

text \<open>Lines 83--86: every input byte goes, as \<open>%02X\<close> and a newline, to lane
  \<open>byte_count % 4\<close>; then \<open>byte_count += 1\<close>.\<close>

fun read_loop :: "int \<Rightarrow> string \<Rightarrow> world \<Rightarrow> (int \<times> world) option" where
  "read_loop bc [] w = Some (bc, w)"
| "read_loop bc (c # cs) w =
     (case fp_out (bc smod 4) of
        None \<Rightarrow> None
      | Some p \<Rightarrow>
          (case c_int (bc + 1) of
             None \<Rightarrow> None
           | Some bc' \<Rightarrow> read_loop bc' cs (fput p (fmt_02X (of_char c) @ [NL]) w)))"

text \<open>Lines 89--92: \<open>00\<close> lines until \<open>byte_count % 16 == 0\<close>. The distance
  to the next multiple of 16 above \<open>byte_count\<close> shrinks in every round.\<close>

function pad_loop :: "int \<Rightarrow> world \<Rightarrow> (int \<times> world) option" where
  "pad_loop bc w =
     (if bc smod 16 \<noteq> 0 then
        (case fp_out (bc smod 4) of
           None \<Rightarrow> None
         | Some p \<Rightarrow>
             (case c_int (bc + 1) of
                None \<Rightarrow> None
              | Some bc' \<Rightarrow> pad_loop bc' (fput p (fmt_02X 0 @ [NL]) w)))
      else Some (bc, w))"
  by pat_completeness auto

termination pad_loop
  by (relation "measure (\<lambda>(bc, w). nat ((- bc) mod 16))")
     (auto simp: c_int_eq_Some_iff dest: smod_ne_0_distance_decreases)

declare pad_loop.simps [simp del]

text \<open>Lines 97--106: the capacity check on the final (padded) count.\<close>

definition capacity_check :: "int \<Rightarrow> int \<Rightarrow> world \<Rightarrow> (world \<times> exit_status) option" where
  "capacity_check mem_bytes bc w =
     (if bc > mem_bytes
      then Some (eprint (''ERROR: PROGRAM IS TOO LARGE: '' @ fmt_d bc @ '' bytes is'' @ [NL]
                       @ ''       greater than '' @ fmt_d mem_bytes @ '' bytes'' @ [NL]
                       @ ''And don't forget to leave room for the stack'' @ [NL]) w, EXIT_FAILURE)
      else Some (oprint (''NOTE: program occupies '' @ fmt_d bc @ '' bytes'' @ [NL]) w, EXIT_SUCCESS))"

text \<open>The whole of \<open>main\<close>, given the arguments \<open>argv\<close> (\<open>argv ! 0\<close> is the
  program name) and the paths that may be written.\<close>

definition conv_to_init :: "(string \<Rightarrow> bool) \<Rightarrow> string list \<Rightarrow> world \<Rightarrow> (world \<times> exit_status) option" where
  "conv_to_init wr argv w =
    (if length argv \<noteq> 4
     then Some (eprint (''Usage: conv_to_init clk_freq sram_addr_width filename'' @ [NL]) w, EXIT_FAILURE)
     else
     (case atoi (argv ! 1) of None \<Rightarrow> None | Some clk_freq \<Rightarrow>
     if clk_freq \<le> 0 then Some (eprint (''clk_freq must be posiive'' @ [NL]) w, EXIT_FAILURE)
     else
     (case atoi (argv ! 2) of None \<Rightarrow> None | Some aw \<Rightarrow>
     if aw \<le> 0 then Some (eprint (''sram_addr_width must be posiive'' @ [NL]) w, EXIT_FAILURE)
     else
     (case mem_bytes_of aw of None \<Rightarrow> None | Some mem_bytes \<Rightarrow>
     if fs w (argv ! 3) = None
     then Some (eprint (''Could not open '' @ argv ! 3 @ [NL]) w, EXIT_FAILURE)
     else
     (case open_lanes wr (map int [0..<4]) w of
       Inl w1 \<Rightarrow> Some (w1, EXIT_FAILURE)
     | Inr w1 \<Rightarrow>
     (case fopen_w wr param_fname w1 of
       None \<Rightarrow> Some (eprint (''could not open file '' @ param_fname @ [NL]) w1, EXIT_FAILURE)
     | Some w2 \<Rightarrow>
     (let w3 = write_params aw clk_freq w2 in
     (case read_loop 0 (input_bytes w3 (argv ! 3)) w3 of None \<Rightarrow> None | Some (bc1, w4) \<Rightarrow>
     (case pad_loop bc1 w4 of None \<Rightarrow> None | Some (bc, w5) \<Rightarrow>
     capacity_check mem_bytes bc w5)))))))))"

subsection \<open>Reference definitions\<close>

text \<open>
  What the two loops of lines 83--92 amount to when no overflow occurs:
  \<open>emit n vs\<close> writes the values \<open>vs\<close> as \<open>%02X\<close> lines, the value with
  running count \<open>n + j\<close> to lane \<open>(n + j) mod 4\<close>.
\<close>

fun emit :: "nat \<Rightarrow> nat list \<Rightarrow> world \<Rightarrow> world" where
  "emit n [] w = w"
| "emit n (v # vs) w = emit (Suc n) vs (fput (mem_init_fname (int (n mod 4))) (fmt_02X v @ [NL]) w)"

text \<open>The specification of the splitter's output (spec.md, sections 3 and 8):
  the image padded with zero bytes to the least multiple of 16 that is not
  smaller than its length, lane \<open>k\<close> holding the bytes at offsets
  \<open>j\<close> with \<open>j mod 4 = k\<close>, one \<open>%02X\<close> line per byte.\<close>

definition padded_len :: "nat \<Rightarrow> nat" where
  "padded_len n = (n + 15) div 16 * 16"

definition padded_image :: "string \<Rightarrow> nat list" where
  "padded_image img = map of_char img @ replicate (padded_len (length img) - length img) 0"

definition lane :: "nat \<Rightarrow> 'a list \<Rightarrow> 'a list" where
  "lane k xs = nths_by (\<lambda>j. j mod 4 = k) xs"

definition lane_text :: "nat list \<Rightarrow> string" where
  "lane_text vs = concat (map (\<lambda>v. fmt_02X v @ [NL]) vs)"

definition param_text :: "int \<Rightarrow> int \<Rightarrow> string" where
  "param_text aw clk =
     ''localparam SRAM_ADDR_WIDTH = '' @ fmt_d aw @ '';'' @ [NL] @
     ''localparam CLK_FREQ = '' @ fmt_d clk @ '';'' @ [NL]"

definition lane_fnames :: "string list" where
  "lane_fnames = map (\<lambda>k. mem_init_fname (int k)) [0..<4]"

definition out_fnames :: "string list" where
  "out_fnames = lane_fnames @ [param_fname]"

text \<open>The files as they are once the four lanes and the parameter file have
  been opened: the five outputs exist and are empty.\<close>

definition truncate_files :: "string list \<Rightarrow> world \<Rightarrow> world" where
  "truncate_files ps w = w\<lparr>fs := (\<lambda>p. if p \<in> set ps then Some [] else fs w p)\<rparr>"

subsection \<open>The library: primitive operations, names, loops\<close>


lemma fs_fput [world_simps]: "fs (fput p s w) = (fs w)(p := map_option (\<lambda>c. c @ s) (fs w p))"
  and stdout_fput [world_simps]: "stdout (fput p s w) = stdout w"
  and stderr_fput [world_simps]: "stderr (fput p s w) = stderr w"
  by (simp_all add: fput_def)

lemma fs_eprint [world_simps]: "fs (eprint s w) = fs w"
  and fs_oprint [world_simps]: "fs (oprint s w) = fs w"
  and stdout_eprint [world_simps]: "stdout (eprint s w) = stdout w"
  and stderr_oprint [world_simps]: "stderr (oprint s w) = stderr w"
  and stderr_eprint [world_simps]: "stderr (eprint s w) = stderr w @ s"
  and stdout_oprint [world_simps]: "stdout (oprint s w) = stdout w @ s"
  by (simp_all add: eprint_def oprint_def)

lemma fs_truncate_files [world_simps]:
  "fs (truncate_files ps w) = (\<lambda>p. if p \<in> set ps then Some [] else fs w p)"
  and streams_truncate_files [world_simps]:
  "stdout (truncate_files ps w) = stdout w" "stderr (truncate_files ps w) = stderr w"
  by (simp_all add: truncate_files_def)

lemma mem_init_fname_nat:
  "k < 4 \<Longrightarrow> mem_init_fname (int k) = ''../src/mem_init'' @ dec_digit k # ''.ini''"
  by (simp add: mem_init_fname_def fmt_d_digit)

lemma mem_init_fname_inj [simp]:
  assumes "j < 4" "k < 4"
  shows "mem_init_fname (int j) = mem_init_fname (int k) \<longleftrightarrow> j = k"
proof
  assume "mem_init_fname (int j) = mem_init_fname (int k)"
  then have "dec_digit j = dec_digit k"
    using assms by (simp add: mem_init_fname_nat)
  then have "(of_char (dec_digit j) :: nat) = of_char (dec_digit k)" by simp
  with assms show "j = k" by (simp add: of_char_dec_digit)
qed simp

lemma mem_init_fname_ne_param [simp]: "k < 4 \<Longrightarrow> mem_init_fname (int k) \<noteq> param_fname"
proof
  assume "k < 4" "mem_init_fname (int k) = param_fname"
  then have "length (mem_init_fname (int k)) = length param_fname" by simp
  with \<open>k < 4\<close> show False by (simp add: mem_init_fname_nat param_fname_def)
qed

lemma lane_fnames_iff: "p \<in> set lane_fnames \<longleftrightarrow> (\<exists>k<4. p = mem_init_fname (int k))"
  by (auto simp: lane_fnames_def)

lemma param_not_lane [simp]: "param_fname \<notin> set lane_fnames"
  unfolding lane_fnames_iff using mem_init_fname_ne_param by metis

lemma fp_out_nat [c_sem]: "fp_out (int n smod 4) = Some (mem_init_fname (int (n mod 4)))"
  by (simp add: fp_out_def smod_of_nat of_nat_mod)


lemma emit_append: "emit n (xs @ ys) w = emit (n + length xs) ys (emit n xs w)"
  by (induction xs arbitrary: n w) simp_all

lemma emit_streams [world_simps]:
  "stdout (emit n vs w) = stdout w" "stderr (emit n vs w) = stderr w"
  by (induction vs arbitrary: n w) (simp_all add: world_simps)

lemma emit_other [world_simps]:
  "p \<notin> set lane_fnames \<Longrightarrow> fs (emit n vs w) p = fs w p"
proof (induction vs arbitrary: n w)
  case Nil
  then show ?case by simp
next
  case (Cons v vs)
  have "mem_init_fname (int (n mod 4)) \<noteq> p"
    using Cons.prems by (auto simp: lane_fnames_iff) (metis mod_less_divisor zero_less_numeral)
  with Cons show ?case by (simp add: world_simps)
qed

lemma lane_text_append [lane_simps]: "lane_text (xs @ ys) = lane_text xs @ lane_text ys"
  and lane_text_Cons [lane_simps]: "lane_text (x # xs) = fmt_02X x @ NL # lane_text xs"
  and lane_text_Nil [lane_simps]: "lane_text [] = []"
  by (simp_all add: lane_text_def)

text \<open>The round-robin writes equal the de-interleaved lanes: lane \<open>k\<close> receives
  exactly the values whose running count is \<open>k\<close> modulo 4, in order.\<close>

lemma emit_lane:
  assumes "k < 4"
  shows "fs (emit n vs w) (mem_init_fname (int k)) =
         map_option (\<lambda>c. c @ lane_text (nths_by (\<lambda>j. (n + j) mod 4 = k) vs)) (fs w (mem_init_fname (int k)))"
proof (induction vs arbitrary: n w)
  case Nil
  then show ?case by (simp add: lane_text_def option.map_ident)
next
  case (Cons v vs)
  let ?w' = "fput (mem_init_fname (int (n mod 4))) (fmt_02X v @ [NL]) w"
  have "fs (emit n (v # vs) w) (mem_init_fname (int k)) =
        map_option (\<lambda>c. c @ lane_text (nths_by (\<lambda>j. (Suc n + j) mod 4 = k) vs)) (fs ?w' (mem_init_fname (int k)))"
    using Cons.IH by simp
  moreover have "fs ?w' (mem_init_fname (int k)) =
        map_option (\<lambda>c. c @ (if n mod 4 = k then fmt_02X v @ [NL] else [])) (fs w (mem_init_fname (int k)))"
    using assms by (auto simp: world_simps option.map_ident)
  ultimately show ?case
    by (simp add: nths_by_Cons lane_simps option.map_comp o_def)
qed


lemma read_loop_emit:
  "int n + int (length cs) \<le> INT_MAX \<Longrightarrow>
   read_loop (int n) cs w = Some (int (n + length cs), emit n (map of_char cs) w)"
proof (induction cs arbitrary: n w)
  case Nil
  then show ?case by simp
next
  case (Cons c cs)
  have "c_int (int n + 1) = Some (int (Suc n))"
    using Cons.prems by (simp add: c_int_Some INT_MIN_def)
  moreover have "read_loop (int (Suc n)) cs (fput (mem_init_fname (int (n mod 4))) (fmt_02X (of_char c) @ [NL]) w) =
                 Some (int (Suc n + length cs), emit (Suc n) (map of_char cs) (fput (mem_init_fname (int (n mod 4))) (fmt_02X (of_char c) @ [NL]) w))"
    using Cons.prems by (intro Cons.IH) simp
  ultimately show ?case by (simp add: fp_out_nat)
qed

lemma read_loop_overflow:
  "INT_MAX < int n + int (length cs) \<Longrightarrow> cs \<noteq> [] \<Longrightarrow> read_loop (int n) cs w = None"
proof (induction cs arbitrary: n w)
  case Nil
  then show ?case by simp
next
  case (Cons c cs)
  show ?case
  proof (cases "int n + 1 \<le> INT_MAX")
    case True
    then have "c_int (int n + 1) = Some (int (Suc n))"
      by (simp add: c_int_Some INT_MIN_def)
    moreover have "INT_MAX < int (Suc n) + int (length cs)" "cs \<noteq> []"
      using Cons.prems True by auto
    then have "read_loop (int (Suc n)) cs w' = None" for w'
      by (rule Cons.IH)
    ultimately show ?thesis by (simp add: fp_out_nat)
  next
    case False
    then have "c_int (int n + 1) = None"
      by (simp add: c_int_eq_None_iff)
    then show ?thesis by (simp add: fp_out_nat)
  qed
qed

lemma int_mod_16: "int n mod 16 = int (n mod 16)"
  by (simp add: of_nat_mod)

lemma padded_len_bounds: "n \<le> padded_len n \<and> padded_len n < n + 16"
  using div_mult_mod_eq [of "n + 15" 16] mod_less_divisor [of 16 "n + 15"]
  unfolding padded_len_def by linarith
lemma padded_len_mod_16: "padded_len n mod 16 = 0"
  by (simp add: padded_len_def)

lemma padded_len_self: "n mod 16 = 0 \<Longrightarrow> padded_len n = n"
  by (auto simp: padded_len_def elim!: dvdE)
lemma padded_len_Suc:
  assumes "n mod 16 \<noteq> 0"
  shows "padded_len (Suc n) = padded_len n"
proof -
  define q where "q = n div 16"
  define r where "r = n mod 16"
  have n: "n = r + 16 * q" by (simp add: q_def r_def)
  have r: "0 < r" "r < 16" using assms by (simp_all add: r_def)
  have "(Suc n + 15) div 16 = q + 1"
    using r by (simp add: n)
  moreover have "(n + 15) div 16 = q + 1"
  proof -
    have "n + 15 = (r + 15 - 16) + 16 * (q + 1)" using r by (simp add: n)
    then show ?thesis using r by simp
  qed
  ultimately show ?thesis by (simp add: padded_len_def)
qed

lemma pad_loop_emit:
  "int (padded_len n) \<le> INT_MAX \<Longrightarrow>
   pad_loop (int n) w = Some (int (padded_len n), emit n (replicate (padded_len n - n) 0) w)"
proof (induction "padded_len n - n" arbitrary: n w)
  case 0
  then have "padded_len n = n"
    using padded_len_bounds [of n] by linarith
  then have "n mod 16 = 0"
    using padded_len_mod_16 [of n] by simp
  then show ?case
    by (simp add: pad_loop.simps [of "int n"] smod_eq_0_iff padded_len_self int_mod_16)
next
  case (Suc d)
  then have ne: "n mod 16 \<noteq> 0"
    using padded_len_self by fastforce
  then have eq: "padded_len (Suc n) = padded_len n"
    by (rule padded_len_Suc)
  have "int n + 1 \<le> INT_MAX"
    using Suc.hyps(2) Suc.prems by linarith
  then have "c_int (int n + 1) = Some (int (Suc n))"
    by (simp add: c_int_Some INT_MIN_def)
  moreover have "int n smod 16 \<noteq> 0"
    using ne by (simp add: smod_eq_0_iff int_mod_16)
  moreover have d: "d = padded_len (Suc n) - Suc n"
    using Suc.hyps(2) eq by simp
  have "pad_loop (int (Suc n)) w' =
        Some (int (padded_len n), emit (Suc n) (replicate (padded_len n - Suc n) 0) w')" for w'
    using Suc.hyps(1) [OF d] Suc.prems eq by simp
  moreover have "replicate (padded_len n - n) (0::nat) = 0 # replicate (padded_len n - Suc n) 0"
  proof -
    have "padded_len n - Suc n = d"
      using Suc.hyps(2) by linarith
    then show ?thesis by (simp flip: Suc.hyps(2))
  qed
  ultimately show ?case
    by (simp add: pad_loop.simps [of "int n"] fp_out_nat)
qed


lemma pad_loop_overflow:
  "INT_MAX < int (padded_len n) \<Longrightarrow> int n \<le> INT_MAX \<Longrightarrow> pad_loop (int n) w = None"
proof (induction "padded_len n - n" arbitrary: n w)
  case 0
  then show ?case using padded_len_bounds [of n] by linarith
next
  case (Suc d)
  then have ne: "n mod 16 \<noteq> 0"
    using padded_len_self by fastforce
  then have eq: "padded_len (Suc n) = padded_len n"
    by (rule padded_len_Suc)
  have sm: "int n smod 16 \<noteq> 0"
    using ne by (simp add: smod_eq_0_iff int_mod_16)
  show ?case
  proof (cases "int n + 1 \<le> INT_MAX")
    case True
    then have "c_int (int n + 1) = Some (int (Suc n))"
      by (simp add: c_int_Some INT_MIN_def)
    moreover have d: "d = padded_len (Suc n) - Suc n"
      using Suc.hyps(2) eq by simp
    have "pad_loop (int (Suc n)) w' = None" for w'
      using Suc.hyps(1) [OF d] Suc.prems eq True by simp
    ultimately show ?thesis
      using sm by (simp add: pad_loop.simps [of "int n"] fp_out_nat)
  next
    case False
    then have "c_int (int n + 1) = None"
      by (simp add: c_int_eq_None_iff)
    then show ?thesis
      using sm by (simp add: pad_loop.simps [of "int n"] fp_out_nat)
  qed
qed

text \<open>Both loops together: the padded image dealt over the lanes, or
  undefined behaviour when the padded count passes \<open>INT_MAX\<close>.\<close>

lemma loops_emit:
  assumes "int (padded_len (length cs)) \<le> INT_MAX"
  shows "read_loop 0 cs w = Some (int (length cs), emit 0 (map of_char cs) w) \<and>
         pad_loop (int (length cs)) (emit 0 (map of_char cs) w) =
           Some (int (padded_len (length cs)), emit 0 (padded_image cs) w)"
proof
  have "int (length cs) \<le> INT_MAX"
    using assms padded_len_bounds [of "length cs"] by linarith
  then show "read_loop 0 cs w = Some (int (length cs), emit 0 (map of_char cs) w)"
    using read_loop_emit [of 0 cs w] by simp
  show "pad_loop (int (length cs)) (emit 0 (map of_char cs) w) =
           Some (int (padded_len (length cs)), emit 0 (padded_image cs) w)"
    using pad_loop_emit [OF assms] by (simp add: padded_image_def emit_append)
qed

lemma loops_overflow:
  assumes "INT_MAX < int (padded_len (length cs))"
  shows "read_loop 0 cs w = None \<or>
         read_loop 0 cs w = Some (int (length cs), emit 0 (map of_char cs) w) \<and>
         pad_loop (int (length cs)) (emit 0 (map of_char cs) w) = None"
proof (cases "int (length cs) \<le> INT_MAX")
  case True
  then have "read_loop 0 cs w = Some (int (length cs), emit 0 (map of_char cs) w)"
    using read_loop_emit [of 0 cs w] by simp
  moreover have "pad_loop (int (length cs)) (emit 0 (map of_char cs) w) = None"
    using assms True by (rule pad_loop_overflow)
  ultimately show ?thesis by simp
next
  case False
  then have "read_loop (int 0) cs w = None"
    by (intro read_loop_overflow) (auto simp: INT_MAX_def)
  then show ?thesis by simp
qed

lemma fopen_w_Some [world_simps]: "wr p \<Longrightarrow> fopen_w wr p w = Some (truncate_files [p] w)"
  by (simp add: fopen_w_def truncate_files_def fun_eq_iff)

lemma fopen_w_None [world_simps]: "\<not> wr p \<Longrightarrow> fopen_w wr p w = None"
  by (simp add: fopen_w_def)

lemma truncate_files_Cons: "truncate_files ps (truncate_files [p] w) = truncate_files (p # ps) w"
  by (simp add: truncate_files_def fun_eq_iff)

lemma truncate_files_snoc: "truncate_files [p] (truncate_files ps w) = truncate_files (ps @ [p]) w"
  by (simp add: truncate_files_def fun_eq_iff)

lemma truncate_files_Nil [simp]: "truncate_files [] w = w"
  by (simp add: truncate_files_def)

lemma open_lanes_Inr:
  "\<forall>i \<in> set is. wr (mem_init_fname i) \<Longrightarrow>
   open_lanes wr is w = Inr (truncate_files (map mem_init_fname is) w)"
  by (induction "is" arbitrary: w) (simp_all add: world_simps truncate_files_Cons)

lemma open_lanes_Inl:
  "\<forall>i \<in> set is1. wr (mem_init_fname i) \<Longrightarrow> \<not> wr (mem_init_fname i) \<Longrightarrow>
   open_lanes wr (is1 @ i # is2) w =
     Inl (eprint (''could not open file '' @ mem_init_fname i @ [NL]) (truncate_files (map mem_init_fname is1) w))"
  by (induction is1 arbitrary: w) (simp_all add: world_simps truncate_files_Cons)

lemma write_params_fs [world_simps]:
  "fs (write_params aw clk w) = (fs w)(param_fname := map_option (\<lambda>c. c @ param_text aw clk) (fs w param_fname))"
  by (simp add: write_params_def param_text_def world_simps fun_eq_iff option.map_comp o_def)

lemma write_params_streams [world_simps]:
  "stdout (write_params aw clk w) = stdout w" "stderr (write_params aw clk w) = stderr w"
  by (simp_all add: write_params_def world_simps)

lemma mem_bytes_of_Some:
  assumes "0 \<le> aw" "aw \<le> 28"
  shows "mem_bytes_of aw = Some (4 * 2 ^ nat aw)"
proof -
  have "(2::int) ^ nat aw \<le> 2 ^ 28"
    using assms by (intro power_increasing) auto
  moreover have h0: "(0::int) \<le> 2 ^ nat aw"
    by simp
  ultimately show ?thesis
    using assms by (simp add: mem_bytes_of_def c_shl_def c_int_def INT_MAX_def INT_MIN_def) (use h0 in linarith)
qed

lemma mem_bytes_of_None:
  assumes "29 \<le> aw"
  shows "mem_bytes_of aw = None"
proof -
  consider "aw = 29" | "aw = 30" | "aw = 31" | "32 \<le> aw"
    using assms by linarith
  then show ?thesis
    by cases (simp_all add: mem_bytes_of_def c_shl_def c_int_def INT_MAX_def INT_MIN_def)
qed


lemma lanes_writable:
  "\<forall>p \<in> set out_fnames. wr p \<Longrightarrow> \<forall>i \<in> set (map int [0..<4]). wr (mem_init_fname i)"
  by (auto simp: out_fnames_def lane_fnames_def)

lemma open_outputs:
  assumes "\<forall>p \<in> set out_fnames. wr p"
  shows "open_lanes wr (map int [0..<4]) w = Inr (truncate_files lane_fnames w)"
    and "fopen_w wr param_fname (truncate_files lane_fnames w) = Some (truncate_files out_fnames w)"
proof -
  show "open_lanes wr (map int [0..<4]) w = Inr (truncate_files lane_fnames w)"
    using open_lanes_Inr [OF lanes_writable [OF assms]] by (simp add: lane_fnames_def comp_def)
  show "fopen_w wr param_fname (truncate_files lane_fnames w) = Some (truncate_files out_fnames w)"
    using assms by (simp add: world_simps truncate_files_snoc out_fnames_def)
qed

text \<open>The run once the arguments are valid and every file opens: it is the
  capacity check on the padded count after the padded image has been dealt
  over the lanes, or undefined behaviour when that count passes \<open>INT_MAX\<close>.\<close>

lemma conv_to_init_run:
  assumes argv: "argv = [prog, a1, a2, path]"
    and clk: "atoi a1 = Some clk" "0 < clk"
    and aw: "atoi a2 = Some aw" "0 < aw" "aw \<le> 28"
    and inp: "fs w path \<noteq> None"
    and wr: "\<forall>p \<in> set out_fnames. wr p"
  defines "w3 \<equiv> write_params aw clk (truncate_files out_fnames w)"
  defines "img \<equiv> input_bytes w3 path"
  shows "conv_to_init wr argv w =
     (if int (padded_len (length img)) \<le> INT_MAX
      then capacity_check (4 * 2 ^ nat aw) (int (padded_len (length img))) (emit 0 (padded_image img) w3)
      else None)"
proof -
  have pre: "conv_to_init wr argv w =
     (case read_loop 0 img w3 of None \<Rightarrow> None | Some (bc1, w4) \<Rightarrow>
       (case pad_loop bc1 w4 of None \<Rightarrow> None | Some (bc, w5) \<Rightarrow> capacity_check (4 * 2 ^ nat aw) bc w5))"
    using clk aw open_outputs [OF wr]
    by (simp add: conv_to_init_def argv mem_bytes_of_Some w3_def img_def inp Let_def)
  show ?thesis
  proof (cases "int (padded_len (length img)) \<le> INT_MAX")
    case True
    then show ?thesis using pre loops_emit [OF True, of w3] by simp
  next
    case False
    then have "INT_MAX < int (padded_len (length img))" by simp
    then show ?thesis using pre loops_overflow [of img w3] False by auto
  qed
qed

subsection \<open>Helper lemmas for the properties\<close>


lemma four_upt: "[a..<a + 4] = [a, a + 1, a + 2, a + (3::nat)]"
  by (simp add: upt_rec)
lemma filter_mod4_upt:
  assumes "k < 4"
  shows "filter (\<lambda>j. j mod 4 = k) [0..<4 * m] = map (\<lambda>i. 4 * i + k) [0..<m]"
proof (induction m)
  case 0
  then show ?case by simp
next
  case (Suc m)
  have "[0..<4 * Suc m] = [0..<4 * m] @ [4 * m..<4 * m + 4]"
    using upt_add_eq_append [of 0 "4 * m" 4] by (simp add: add.commute)
  also have "\<dots> = [0..<4 * m] @ [4 * m, 4 * m + 1, 4 * m + 2, 4 * m + 3]"
    by (simp only: four_upt)
  finally have split: "[0..<4 * Suc m] = [0..<4 * m] @ [4 * m, 4 * m + 1, 4 * m + 2, 4 * m + 3]" .
  have "k = 0 \<or> k = 1 \<or> k = 2 \<or> k = 3" using assms by auto
  then have "filter (\<lambda>j. j mod 4 = k) [4 * m, 4 * m + 1, 4 * m + 2, 4 * m + 3] = [4 * m + k]"
    by (elim disjE) (simp_all add: mod_Suc)
  then show ?case using Suc.IH split by simp
qed

lemma length_padded_image: "length (padded_image img) = padded_len (length img)"
  using padded_len_bounds [of "length img"] by (simp add: padded_image_def)

lemma padded_image_nth:
  "j < padded_len (length img) \<Longrightarrow>
   padded_image img ! j = (if j < length img then of_char (img ! j) else 0)"
  by (simp add: padded_image_def nth_append)

lemma padded_len_div4: "padded_len n = 4 * (padded_len n div 4)"
  using padded_len_mod_16 [of n] by (simp add: padded_len_def)

lemma lane_padded_image:
  assumes "k < 4"
  shows "lane k (padded_image img) =
    map (\<lambda>i. if 4 * i + k < length img then of_char (img ! (4 * i + k)) else 0) [0..<padded_len (length img) div 4]"
proof -
  let ?m = "padded_len (length img) div 4"
  have len: "length (padded_image img) = 4 * ?m"
    using length_padded_image padded_len_div4 by metis
  have "lane k (padded_image img) = map (\<lambda>i. padded_image img ! (4 * i + k)) [0..<?m]"
    by (simp add: lane_def nths_by_def len filter_mod4_upt [OF assms])
  also have "\<dots> = map (\<lambda>i. if 4 * i + k < length img then of_char (img ! (4 * i + k)) else 0) [0..<?m]"
  proof (rule map_cong [OF refl])
    fix i assume "i \<in> set [0..<?m]"
    then have "4 * i + k < padded_len (length img)"
      using assms len length_padded_image [of img] by simp
    then show "padded_image img ! (4 * i + k) = (if 4 * i + k < length img then of_char (img ! (4 * i + k)) else 0)"
      by (rule padded_image_nth)
  qed
  finally show ?thesis .
qed

lemma out_fnames_lane [simp]: "k < 4 \<Longrightarrow> mem_init_fname (int k) \<in> set out_fnames"
  by (auto simp: out_fnames_def lane_fnames_def)

lemma not_out_fname_by_length:
  "length p \<noteq> 20 \<Longrightarrow> length p \<noteq> 23 \<Longrightarrow> p \<notin> set out_fnames"
  by (auto simp: out_fnames_def lane_fnames_def mem_init_fname_nat param_fname_def)

lemma param_in_out [simp]: "param_fname \<in> set out_fnames"
  by (simp add: out_fnames_def)

lemma final_lane:
  "k < 4 \<Longrightarrow> fs (emit 0 vs (write_params aw clk (truncate_files out_fnames w))) (mem_init_fname (int k)) =
     Some (lane_text (lane k vs))"
  by (simp add: emit_lane world_simps lane_def)

lemma final_param:
  "fs (emit 0 vs (write_params aw clk (truncate_files out_fnames w))) param_fname = Some (param_text aw clk)"
  by (simp add: emit_other world_simps)

lemma final_other:
  "p \<notin> set out_fnames \<Longrightarrow> fs (emit 0 vs (write_params aw clk (truncate_files out_fnames w))) p = fs w p"
  by (auto simp: emit_other world_simps out_fnames_def)

lemma input_bytes_unaliased:
  "path \<notin> set out_fnames \<Longrightarrow> fs w path = Some img \<Longrightarrow>
   input_bytes (write_params aw clk (truncate_files out_fnames w)) path = img"
  by (auto simp: input_bytes_def world_simps out_fnames_def)

lemma capacity_check_fs: "\<exists>w' st. capacity_check m bc w = Some (w', st) \<and> fs w' = fs w"
  by (simp add: capacity_check_def world_simps)

text \<open>The run of a valid invocation whose input is not one of its outputs.\<close>

lemma conv_to_init_valid:
  assumes "argv = [prog, sclk, saw, path]"
    and "atoi sclk = Some clk" "0 < clk" "atoi saw = Some aw" "0 < aw" "aw \<le> 28"
    and "fs w path = Some img" "path \<notin> set out_fnames"
    and "\<forall>p \<in> set out_fnames. wr p"
    and "int (padded_len (length img)) \<le> INT_MAX"
  shows "conv_to_init wr argv w =
     capacity_check (4 * 2 ^ nat aw) (int (padded_len (length img)))
       (emit 0 (padded_image img) (write_params aw clk (truncate_files out_fnames w)))"
  using conv_to_init_run [OF assms(1-6) _ assms(9)] assms(7,8,10)
  by (simp add: input_bytes_unaliased)

lemma atoi_ex: "atoi ''50000000'' = Some 50000000" "atoi ''10'' = Some 10" "atoi ''0'' = Some 0" "atoi ''30'' = Some 30"
  by (simp_all add: atoi_def c_isspace_def is_digit_def digit_val_def c_int_def INT_MIN_def INT_MAX_def)

subsection \<open>Properties of the image splitter\<close>

text \<open>C1: For a valid invocation (three arguments, positive clock, address width at most 28, a readable input that is not one of the outputs, all outputs writable, no int overflow), lane file k holds one %02X line per row i of the padded image: the byte at offset 4i+k of the input, or 00 where the image has been padded; there are padded_len/4 lines, padded_len being the least multiple of 16 not below the input length.\<close>

theorem conv_to_init_lane_files:
  assumes "argv = [prog, sclk, saw, path]"
    and "atoi sclk = Some clk" "0 < clk" "atoi saw = Some aw" "0 < aw" "aw \<le> 28"
    and "fs w path = Some img" "path \<notin> set out_fnames"
    and "\<forall>p \<in> set out_fnames. wr p"
    and "int (padded_len (length img)) \<le> INT_MAX"
    and "k < 4"
  shows "\<exists>w' st. conv_to_init wr argv w = Some (w', st) \<and>
     fs w' (mem_init_fname (int k)) =
       Some (concat (map (\<lambda>i. fmt_02X (if 4 * i + k < length img then of_char (img ! (4 * i + k)) else 0) @ [NL])
                         [0..<padded_len (length img) div 4]))"
proof -
  obtain w' st where run: "conv_to_init wr argv w = Some (w', st)"
    and fsw: "fs w' = fs (emit 0 (padded_image img) (write_params aw clk (truncate_files out_fnames w)))"
    using conv_to_init_valid [OF assms(1-10)] capacity_check_fs by metis
  have "fs w' (mem_init_fname (int k)) = Some (lane_text (lane k (padded_image img)))"
    using assms(11) by (simp add: fsw final_lane)
  also have "\<dots> = Some (concat (map (\<lambda>i. fmt_02X (if 4 * i + k < length img then of_char (img ! (4 * i + k)) else 0) @ [NL])
                         [0..<padded_len (length img) div 4]))"
    using assms(11) by (simp add: lane_padded_image lane_text_def comp_def)
  finally show ?thesis using run by blast
qed

theorem conv_to_init_lane_files_witness:
  "\<exists>w' st. conv_to_init (\<lambda>_. True) [''conv_to_init'', ''50000000'', ''10'', ''prog.bin'']
              \<lparr>fs = [''prog.bin'' \<mapsto> ''abcde''], stdout = [], stderr = []\<rparr> = Some (w', st) \<and>
     fs w' (mem_init_fname (int 1)) =
       Some (concat (map (\<lambda>i. fmt_02X (if 4 * i + 1 < length ''abcde'' then of_char (''abcde'' ! (4 * i + 1)) else 0) @ [NL])
                         [0..<padded_len (length ''abcde'') div 4]))"
  by (rule conv_to_init_lane_files [OF refl atoi_ex(1) _ atoi_ex(2)])
     (simp_all add: not_out_fname_by_length padded_len_def INT_MAX_def)

text \<open>C2: For a valid invocation the exit status is success exactly when the padded byte count does not exceed the capacity 4 * 2^width; on success stdout gets the NOTE line with the padded count, on failure stderr gets the three-line overflow report with the padded count and the capacity, and the other stream is untouched.\<close>

theorem conv_to_init_exit_status:
  assumes "argv = [prog, sclk, saw, path]"
    and "atoi sclk = Some clk" "0 < clk" "atoi saw = Some aw" "0 < aw" "aw \<le> 28"
    and "fs w path = Some img" "path \<notin> set out_fnames"
    and "\<forall>p \<in> set out_fnames. wr p"
    and "int (padded_len (length img)) \<le> INT_MAX"
  shows "\<exists>w'. conv_to_init wr argv w =
            Some (w', if int (padded_len (length img)) \<le> 4 * 2 ^ nat aw then EXIT_SUCCESS else EXIT_FAILURE) \<and>
     (int (padded_len (length img)) \<le> 4 * 2 ^ nat aw \<longrightarrow>
        stdout w' = stdout w @ ''NOTE: program occupies '' @ fmt_d (int (padded_len (length img))) @ '' bytes'' @ [NL] \<and>
        stderr w' = stderr w) \<and>
     (4 * 2 ^ nat aw < int (padded_len (length img)) \<longrightarrow>
        stdout w' = stdout w \<and>
        stderr w' = stderr w @ ''ERROR: PROGRAM IS TOO LARGE: '' @ fmt_d (int (padded_len (length img))) @ '' bytes is'' @ [NL]
                   @ ''       greater than '' @ fmt_d (4 * 2 ^ nat aw) @ '' bytes'' @ [NL]
                   @ ''And don't forget to leave room for the stack'' @ [NL])"
  using conv_to_init_valid [OF assms]
  by (auto simp: capacity_check_def world_simps)

theorem conv_to_init_exit_status_witness:
  "\<exists>w'. conv_to_init (\<lambda>_. True) [''conv_to_init'', ''50000000'', ''10'', ''prog.bin'']
          \<lparr>fs = [''prog.bin'' \<mapsto> replicate 4097 (CHR 0x00)], stdout = [], stderr = []\<rparr> = Some (w', EXIT_FAILURE) \<and>
     stdout w' = [] \<and> stderr w' = ''ERROR: PROGRAM IS TOO LARGE: '' @ fmt_d 4112 @ '' bytes is'' @ [NL]
                   @ ''       greater than '' @ fmt_d 4096 @ '' bytes'' @ [NL]
                   @ ''And don't forget to leave room for the stack'' @ [NL]"
proof -
  have pl: "padded_len 4097 = 4112"
    by (simp add: padded_len_def)
  show ?thesis
    using conv_to_init_exit_status [OF refl atoi_ex(1) _ atoi_ex(2), where path = "''prog.bin''"
        and w = "\<lparr>fs = [''prog.bin'' \<mapsto> replicate 4097 (CHR 0x00)], stdout = [], stderr = []\<rparr>"
        and img = "replicate 4097 (CHR 0x00)" and wr = "\<lambda>_. True" and prog = "''conv_to_init''"]
    by (simp add: pl not_out_fname_by_length INT_MAX_def)
qed

text \<open>C3: For a valid invocation sys_parameters.v holds exactly the two lines declaring SRAM_ADDR_WIDTH and then CLK_FREQ with the argument values, whatever the exit status, and no file other than the five outputs changes.\<close>

theorem conv_to_init_param_file:
  assumes "argv = [prog, sclk, saw, path]"
    and "atoi sclk = Some clk" "0 < clk" "atoi saw = Some aw" "0 < aw" "aw \<le> 28"
    and "fs w path = Some img" "path \<notin> set out_fnames"
    and "\<forall>p \<in> set out_fnames. wr p"
    and "int (padded_len (length img)) \<le> INT_MAX"
  shows "\<exists>w' st. conv_to_init wr argv w = Some (w', st) \<and>
     fs w' param_fname =
       Some (''localparam SRAM_ADDR_WIDTH = '' @ fmt_d aw @ '';'' @ [NL] @
             ''localparam CLK_FREQ = '' @ fmt_d clk @ '';'' @ [NL]) \<and>
     (\<forall>p. p \<notin> set out_fnames \<longrightarrow> fs w' p = fs w p)"
proof -
  obtain w' st where run: "conv_to_init wr argv w = Some (w', st)"
    and fsw: "fs w' = fs (emit 0 (padded_image img) (write_params aw clk (truncate_files out_fnames w)))"
    using conv_to_init_valid [OF assms] capacity_check_fs by metis
  then show ?thesis
    by (auto simp: final_param final_other param_text_def)
qed

theorem conv_to_init_param_file_witness:
  "\<exists>w' st. conv_to_init (\<lambda>_. True) [''conv_to_init'', ''50000000'', ''10'', ''prog.bin'']
              \<lparr>fs = [''prog.bin'' \<mapsto> ''abcde''], stdout = [], stderr = []\<rparr> = Some (w', st) \<and>
     fs w' param_fname = Some (''localparam SRAM_ADDR_WIDTH = '' @ fmt_d 10 @ '';'' @ [NL] @
                               ''localparam CLK_FREQ = '' @ fmt_d 50000000 @ '';'' @ [NL]) \<and>
     (\<forall>p. p \<notin> set out_fnames \<longrightarrow> fs w' p = [''prog.bin'' \<mapsto> ''abcde''] p)"
  using conv_to_init_param_file [OF refl atoi_ex(1) _ atoi_ex(2), where path = "''prog.bin''"
        and w = "\<lparr>fs = [''prog.bin'' \<mapsto> ''abcde''], stdout = [], stderr = []\<rparr>"
        and img = "''abcde''" and wr = "\<lambda>_. True" and prog = "''conv_to_init''"]
  by (simp add: not_out_fname_by_length padded_len_def INT_MAX_def)

text \<open>C4: The byte-streaming loop followed by the padding loop (lines 83-92) is equivalent to the reference de-interleaving: starting from count 0, it ends with the padded count and appends to lane file k exactly the %02X lines of the padded image's bytes at offsets congruent to k modulo 4.\<close>

theorem loops_deal_lanes:
  assumes "int (padded_len (length cs)) \<le> INT_MAX" "k < 4"
  shows "\<exists>w'. Option.bind (read_loop 0 cs w) (\<lambda>(bc, w1). pad_loop bc w1) = Some (int (padded_len (length cs)), w') \<and>
     fs w' (mem_init_fname (int k)) =
       map_option (\<lambda>c. c @ lane_text (lane k (padded_image cs))) (fs w (mem_init_fname (int k)))"
  using loops_emit [OF assms(1), of w] emit_lane [OF assms(2), of 0 "padded_image cs" w]
  by (simp add: lane_def)

theorem loops_deal_lanes_witness:
  "\<exists>w'. Option.bind (read_loop 0 ''abcde'' \<lparr>fs = [mem_init_fname (int 1) \<mapsto> []], stdout = [], stderr = []\<rparr>)
                     (\<lambda>(bc, w1). pad_loop bc w1) = Some (16, w') \<and>
     fs w' (mem_init_fname (int 1)) = Some (lane_text (lane 1 (padded_image ''abcde'')))"
  using loops_deal_lanes [of "''abcde''" 1 "\<lparr>fs = [mem_init_fname (int 1) \<mapsto> []], stdout = [], stderr = []\<rparr>"]
  by (simp add: padded_len_def INT_MAX_def)

text \<open>C5: With a wrong argument count, a non-positive clock frequency, or a non-positive address width the tool fails without touching any file and without writing to stdout.\<close>

theorem conv_to_init_bad_arguments:
  assumes "length argv \<noteq> 4 \<or> atoi (argv ! 1) = Some clk \<and> clk \<le> 0 \<or>
           atoi (argv ! 1) = Some clk \<and> 0 < clk \<and> atoi (argv ! 2) = Some aw \<and> aw \<le> 0"
  shows "\<exists>w'. conv_to_init wr argv w = Some (w', EXIT_FAILURE) \<and> fs w' = fs w \<and> stdout w' = stdout w"
  using assms by (auto simp: conv_to_init_def world_simps)

theorem conv_to_init_bad_arguments_witness:
  "\<exists>w'. conv_to_init (\<lambda>_. True) [''conv_to_init'', ''0'', ''10'', ''prog.bin'']
          \<lparr>fs = [''prog.bin'' \<mapsto> ''abcde''], stdout = [], stderr = []\<rparr> = Some (w', EXIT_FAILURE) \<and>
     fs w' = [''prog.bin'' \<mapsto> ''abcde''] \<and> stdout w' = []"
  using conv_to_init_bad_arguments [where argv = "[''conv_to_init'', ''0'', ''10'', ''prog.bin'']" and clk = 0
        and w = "\<lparr>fs = [''prog.bin'' \<mapsto> ''abcde''], stdout = [], stderr = []\<rparr>" and wr = "\<lambda>_. True"]
  by (simp add: atoi_ex)

text \<open>C6: With valid numeric arguments but an input file that cannot be opened, the tool reports the path on stderr and fails before any output file is created or truncated.\<close>

theorem conv_to_init_no_input:
  assumes "argv = [prog, sclk, saw, path]"
    and "atoi sclk = Some clk" "0 < clk" "atoi saw = Some aw" "0 < aw" "aw \<le> 28"
    and "fs w path = None"
  shows "conv_to_init wr argv w = Some (eprint (''Could not open '' @ path @ [NL]) w, EXIT_FAILURE)"
  using assms by (simp add: conv_to_init_def mem_bytes_of_Some)

theorem conv_to_init_no_input_witness:
  "conv_to_init (\<lambda>_. True) [''conv_to_init'', ''50000000'', ''10'', ''prog.bin'']
     \<lparr>fs = Map.empty, stdout = [], stderr = []\<rparr> =
   Some (eprint (''Could not open prog.bin'' @ [NL]) \<lparr>fs = Map.empty, stdout = [], stderr = []\<rparr>, EXIT_FAILURE)"
  using conv_to_init_no_input [OF refl atoi_ex(1) _ atoi_ex(2), where path = "''prog.bin''"
        and w = "\<lparr>fs = Map.empty, stdout = [], stderr = []\<rparr>" and wr = "\<lambda>_. True" and prog = "''conv_to_init''"]
  by simp

text \<open>C7: If lane file j is the first lane file that cannot be opened, the tool fails, reporting that file name; the lane files before j have been truncated to empty, and no other file (in particular sys_parameters.v) is touched.\<close>

theorem conv_to_init_lane_open_fails:
  assumes "argv = [prog, sclk, saw, path]"
    and "atoi sclk = Some clk" "0 < clk" "atoi saw = Some aw" "0 < aw" "aw \<le> 28"
    and "fs w path \<noteq> None"
    and "j < 4" "\<forall>i<j. wr (mem_init_fname (int i))" "\<not> wr (mem_init_fname (int j))"
  shows "\<exists>w'. conv_to_init wr argv w = Some (w', EXIT_FAILURE) \<and>
     fs w' = (\<lambda>p. if \<exists>i<j. p = mem_init_fname (int i) then Some [] else fs w p) \<and>
     stderr w' = stderr w @ ''could not open file '' @ mem_init_fname (int j) @ [NL]"
proof -
  have "[0..<4] = [0..<j] @ [j..<4]"
    using assms(8) upt_add_eq_append [of 0 j "4 - j"] by simp
  also have "[j..<4] = j # [Suc j..<4]"
    using assms(8) by (rule upt_conv_Cons)
  finally have split: "map int [0..<4] = map int [0..<j] @ int j # map int [Suc j..<4]"
    by simp
  have ol: "open_lanes wr (map int [0..<4]) w =
     Inl (eprint (''could not open file '' @ mem_init_fname (int j) @ [NL]) (truncate_files (map mem_init_fname (map int [0..<j])) w))"
    unfolding split using assms(9,10) by (intro open_lanes_Inl) auto
  have "fs (truncate_files (map mem_init_fname (map int [0..<j])) w) =
        (\<lambda>p. if \<exists>i<j. p = mem_init_fname (int i) then Some [] else fs w p)"
    by (auto simp: world_simps fun_eq_iff)
  then show ?thesis
    using assms(1-7) ol by (simp add: conv_to_init_def mem_bytes_of_Some world_simps)
qed

theorem conv_to_init_lane_open_fails_witness:
  "\<exists>w'. conv_to_init (\<lambda>p. p \<noteq> ''../src/mem_init2.ini'') [''conv_to_init'', ''50000000'', ''10'', ''prog.bin'']
          \<lparr>fs = [''prog.bin'' \<mapsto> ''abcde''], stdout = [], stderr = []\<rparr> = Some (w', EXIT_FAILURE) \<and>
     fs w' = (\<lambda>p. if \<exists>i<2. p = mem_init_fname (int i) then Some [] else [''prog.bin'' \<mapsto> ''abcde''] p) \<and>
     stderr w' = ''could not open file '' @ mem_init_fname (int 2) @ [NL]"
proof -
  have n2: "mem_init_fname 2 = ''../src/mem_init2.ini''"
    by (simp add: mem_init_fname_def fmt_d_def dec_nat.simps dec_digit_def char_of_def bit_0)
  have lt: "\<forall>i<2. mem_init_fname (int i) \<noteq> ''../src/mem_init2.ini''"
  proof (intro allI impI)
    fix i :: nat
    assume "i < 2"
    then have "i < 4" "i \<noteq> 2" by simp_all
    then show "mem_init_fname (int i) \<noteq> ''../src/mem_init2.ini''"
      using mem_init_fname_inj [of i 2] n2 by simp
  qed
  show ?thesis
    using conv_to_init_lane_open_fails [OF refl atoi_ex(1) _ atoi_ex(2), where path = "''prog.bin''"
        and w = "\<lparr>fs = [''prog.bin'' \<mapsto> ''abcde''], stdout = [], stderr = []\<rparr>" and j = 2
        and wr = "\<lambda>p. p \<noteq> ''../src/mem_init2.ini''" and prog = "''conv_to_init''"] lt n2
    by (simp cong: if_cong)
qed

text \<open>C8: If all four lane files open but sys_parameters.v cannot be opened, the tool fails, reporting its name; all four lane files are left truncated to empty and no other file changes.\<close>

theorem conv_to_init_param_open_fails:
  assumes "argv = [prog, sclk, saw, path]"
    and "atoi sclk = Some clk" "0 < clk" "atoi saw = Some aw" "0 < aw" "aw \<le> 28"
    and "fs w path \<noteq> None"
    and "\<forall>i<4. wr (mem_init_fname (int i))" "\<not> wr param_fname"
  shows "\<exists>w'. conv_to_init wr argv w = Some (w', EXIT_FAILURE) \<and>
     fs w' = (\<lambda>p. if \<exists>i<4. p = mem_init_fname (int i) then Some [] else fs w p) \<and>
     stderr w' = stderr w @ ''could not open file ../src/sys_parameters.v'' @ [NL]"
proof -
  have ol: "open_lanes wr (map int [0..<4]) w = Inr (truncate_files (map mem_init_fname (map int [0..<4])) w)"
    using assms(8) by (intro open_lanes_Inr) auto
  have "fs (truncate_files (map mem_init_fname (map int [0..<4])) w) =
        (\<lambda>p. if \<exists>i<4. p = mem_init_fname (int i) then Some [] else fs w p)"
    by (auto simp: world_simps fun_eq_iff)
  then show ?thesis
    using assms(1-7,9) ol by (simp add: conv_to_init_def mem_bytes_of_Some world_simps param_fname_def)
qed

theorem conv_to_init_param_open_fails_witness:
  "\<exists>w'. conv_to_init (\<lambda>p. p \<noteq> ''../src/sys_parameters.v'') [''conv_to_init'', ''50000000'', ''10'', ''prog.bin'']
          \<lparr>fs = [''prog.bin'' \<mapsto> ''abcde''], stdout = [], stderr = []\<rparr> = Some (w', EXIT_FAILURE) \<and>
     fs w' = (\<lambda>p. if \<exists>i<4. p = mem_init_fname (int i) then Some [] else [''prog.bin'' \<mapsto> ''abcde''] p) \<and>
     stderr w' = ''could not open file ../src/sys_parameters.v'' @ [NL]"
  using conv_to_init_param_open_fails [OF refl atoi_ex(1) _ atoi_ex(2), where path = "''prog.bin''"
        and w = "\<lparr>fs = [''prog.bin'' \<mapsto> ''abcde''], stdout = [], stderr = []\<rparr>"
        and wr = "\<lambda>p. p \<noteq> ''../src/sys_parameters.v''" and prog = "''conv_to_init''"]
    mem_init_fname_ne_param
  by (simp add: param_fname_def cong: if_cong)

text \<open>C9: An address width of 29 or more makes the capacity expression 4*(1 << width) overflow the C int (undefined behaviour), although the usage accepts every positive width.\<close>

theorem conv_to_init_width_overflow:
  assumes "argv = [prog, sclk, saw, path]"
    and "atoi sclk = Some clk" "0 < clk" "atoi saw = Some aw" "29 \<le> aw"
  shows "conv_to_init wr argv w = None"
  using assms by (simp add: conv_to_init_def mem_bytes_of_None)

lemma length_param_text: "0 < aw \<Longrightarrow> aw \<le> 28 \<Longrightarrow> 0 < clk \<Longrightarrow> clk \<le> INT_MAX \<Longrightarrow> length (param_text aw clk) \<le> 80"
  using length_fmt_d_int [of aw] length_fmt_d_int [of clk] by (simp add: param_text_def INT_MAX_def)

theorem conv_to_init_width_overflow_witness:
  "conv_to_init (\<lambda>_. True) [''conv_to_init'', ''50000000'', ''30'', ''prog.bin'']
     \<lparr>fs = [''prog.bin'' \<mapsto> ''abcde''], stdout = [], stderr = []\<rparr> = None"
  using conv_to_init_width_overflow [OF refl atoi_ex(1) _ atoi_ex(4), where path = "''prog.bin''"
        and w = "\<lparr>fs = [''prog.bin'' \<mapsto> ''abcde''], stdout = [], stderr = []\<rparr>"
        and wr = "\<lambda>_. True" and prog = "''conv_to_init''"]
  by simp

text \<open>C10: An input whose padded length exceeds INT_MAX (more than 2^31 - 16 bytes) overflows byte_count: the run has undefined behaviour.\<close>

theorem conv_to_init_overflow:
  assumes "argv = [prog, sclk, saw, path]"
    and "atoi sclk = Some clk" "0 < clk" "atoi saw = Some aw" "0 < aw" "aw \<le> 28"
    and "fs w path = Some img" "path \<notin> set out_fnames"
    and "\<forall>p \<in> set out_fnames. wr p"
    and "INT_MAX < int (padded_len (length img))"
  shows "conv_to_init wr argv w = None"
  using conv_to_init_run [OF assms(1-6) _ assms(9)] assms(7,8,10)
  by (simp add: input_bytes_unaliased)

theorem conv_to_init_overflow_witness:
  "conv_to_init (\<lambda>_. True) [''conv_to_init'', ''50000000'', ''10'', ''prog.bin'']
     \<lparr>fs = [''prog.bin'' \<mapsto> replicate 2147483633 (CHR 0x00)], stdout = [], stderr = []\<rparr> = None"
proof -
  have pl: "padded_len 2147483633 = 2147483648"
    by (simp add: padded_len_def)
  show ?thesis
    using conv_to_init_overflow [OF refl atoi_ex(1) _ atoi_ex(2), where path = "''prog.bin''"
        and w = "\<lparr>fs = [''prog.bin'' \<mapsto> replicate 2147483633 (CHR 0x00)], stdout = [], stderr = []\<rparr>"
        and img = "replicate 2147483633 (CHR 0x00)" and wr = "\<lambda>_. True" and prog = "''conv_to_init''"]
    by (simp add: pl not_out_fname_by_length INT_MAX_def)
qed

text \<open>C11: The padding loop terminates: from a count n whose padded length fits in an int it returns that padded length, which is a multiple of 16, at least n and less than n + 16.\<close>

theorem pad_loop_terminates:
  assumes "int (padded_len n) \<le> INT_MAX"
  shows "\<exists>w'. pad_loop (int n) w = Some (int (padded_len n), w') \<and>
     padded_len n mod 16 = 0 \<and> n \<le> padded_len n \<and> padded_len n < n + 16"
  using pad_loop_emit [OF assms] padded_len_mod_16 [of n] padded_len_bounds [of n] by simp

theorem pad_loop_terminates_witness:
  "\<exists>w'. pad_loop 5 \<lparr>fs = Map.empty, stdout = [], stderr = []\<rparr> = Some (16, w')"
  using pad_loop_terminates [of 5 "\<lparr>fs = Map.empty, stdout = [], stderr = []\<rparr>"]
  by (simp add: padded_len_def INT_MAX_def)

text \<open>C12: When the input path is sys_parameters.v itself, the file is truncated and rewritten before the input is read, so the lanes receive the bytes of the freshly written parameter text, not the original input.\<close>

theorem conv_to_init_reads_param_file:
  assumes "argv = [prog, sclk, saw, path]"
    and "atoi sclk = Some clk" "0 < clk" "atoi saw = Some aw" "0 < aw" "aw \<le> 28"
    and "path = param_fname" "fs w path \<noteq> None"
    and "\<forall>p \<in> set out_fnames. wr p"
    and "k < 4"
  shows "\<exists>w' st. conv_to_init wr argv w = Some (w', st) \<and>
     fs w' (mem_init_fname (int k)) =
       Some (lane_text (lane k (padded_image (''localparam SRAM_ADDR_WIDTH = '' @ fmt_d aw @ '';'' @ [NL] @
                                             ''localparam CLK_FREQ = '' @ fmt_d clk @ '';'' @ [NL]))))"
proof -
  let ?w3 = "write_params aw clk (truncate_files out_fnames w)"
  have img: "input_bytes ?w3 path = param_text aw clk"
    using assms(7) by (simp add: input_bytes_def world_simps)
  have "length (param_text aw clk) \<le> 80"
    using length_param_text [OF assms(5,6,3) atoi_le_INT_MAX [OF assms(2)]] .
  then have "int (padded_len (length (param_text aw clk))) \<le> INT_MAX"
    using padded_len_bounds [of "length (param_text aw clk)"] by (simp add: INT_MAX_def)
  then have "conv_to_init wr argv w =
     capacity_check (4 * 2 ^ nat aw) (int (padded_len (length (param_text aw clk)))) (emit 0 (padded_image (param_text aw clk)) ?w3)"
    using conv_to_init_run [OF assms(1-6) assms(8) assms(9)] img by simp
  then show ?thesis
    using capacity_check_fs assms(10) by (metis final_lane param_text_def)
qed

theorem conv_to_init_reads_param_file_witness:
  "\<exists>w' st. conv_to_init (\<lambda>_. True) [''conv_to_init'', ''50000000'', ''10'', ''../src/sys_parameters.v'']
     \<lparr>fs = [''../src/sys_parameters.v'' \<mapsto> ''old''], stdout = [], stderr = []\<rparr> = Some (w', st) \<and>
     fs w' (mem_init_fname (int 0)) =
       Some (lane_text (lane 0 (padded_image (''localparam SRAM_ADDR_WIDTH = '' @ fmt_d 10 @ '';'' @ [NL] @
                                             ''localparam CLK_FREQ = '' @ fmt_d 50000000 @ '';'' @ [NL]))))"
  using conv_to_init_reads_param_file [OF refl atoi_ex(1) _ atoi_ex(2), where path = "''../src/sys_parameters.v''"
        and w = "\<lparr>fs = [''../src/sys_parameters.v'' \<mapsto> ''old''], stdout = [], stderr = []\<rparr>"
        and wr = "\<lambda>_. True" and prog = "''conv_to_init''" and k = 0]
  by (simp add: param_fname_def)

text \<open>C13: When the input path is one of the lane files, it is truncated before the input is read, so the run sees an empty image: every lane file ends up empty and the tool reports success.\<close>

theorem conv_to_init_reads_lane_file:
  assumes "argv = [prog, sclk, saw, path]"
    and "atoi sclk = Some clk" "0 < clk" "atoi saw = Some aw" "0 < aw" "aw \<le> 28"
    and "path = mem_init_fname (int j)" "j < 4" "fs w path \<noteq> None"
    and "\<forall>p \<in> set out_fnames. wr p"
  shows "\<exists>w'. conv_to_init wr argv w = Some (w', EXIT_SUCCESS) \<and>
     (\<forall>k<4. fs w' (mem_init_fname (int k)) = Some [])"
proof -
  let ?w3 = "write_params aw clk (truncate_files out_fnames w)"
  have img: "input_bytes ?w3 path = []"
    using assms(7,8) by (simp add: input_bytes_def world_simps)
  have "conv_to_init wr argv w = capacity_check (4 * 2 ^ nat aw) 0 (emit 0 [] ?w3)"
    using conv_to_init_run [OF assms(1-6) assms(9) assms(10)] img
    by (simp add: padded_len_def padded_image_def INT_MAX_def)
  then show ?thesis
    by (auto simp: capacity_check_def world_simps)
qed

theorem conv_to_init_reads_lane_file_witness:
  "\<exists>w'. conv_to_init (\<lambda>_. True) [''conv_to_init'', ''50000000'', ''10'', mem_init_fname (int 3)]
     \<lparr>fs = [mem_init_fname (int 3) \<mapsto> ''abcde''], stdout = [], stderr = []\<rparr> = Some (w', EXIT_SUCCESS) \<and>
     (\<forall>k<4. fs w' (mem_init_fname (int k)) = Some [])"
  using conv_to_init_reads_lane_file [OF refl atoi_ex(1) _ atoi_ex(2), where path = "mem_init_fname (int 3)"
        and w = "\<lparr>fs = [mem_init_fname (int 3) \<mapsto> ''abcde''], stdout = [], stderr = []\<rparr>"
        and wr = "\<lambda>_. True" and prog = "''conv_to_init''" and j = 3]
  by simp

end
