(* ===== verification/Soc.thy ===== *)
theory Soc
  imports Prelude
begin

text \<open>
  The system the firmware runs on, as the drivers see it: the picorv32's data
  bus with byte, half-word and word loads and stores. The Verilog of the
  peripherals is not part of \<open>src/\<close>; this theory states the contract the
  drivers of \<open>src/c_code\<close> rely on, taken from their address macros and
  from spec.md, section 6:
  \<^item> \<open>0x80000000\<close> LEDs (\<open>leds.c\<close>): an 8-bit register that reads back what
    was written;
  \<^item> \<open>0x80000008\<close> UART divisor and \<open>0x8000000c\<close> UART data (\<open>uart.c\<close>): a store
    to the data register transmits a byte; a load takes the next received
    byte, and reads \<open>0xff\<close> when nothing has been received;
  \<^item> \<open>0x80000010\<close>..\<open>0x80000013\<close> countdown timer (\<open>countdown_timer.c\<close>): a
    32-bit little-endian counter, writable by byte, half-word and word, that
    the hardware decrements once per clock cycle until it reaches 0;
  \<^item> \<open>0x80000020\<close> the WS2812B RGB LED (\<open>ws2812b.c\<close>): a 32-bit register;
  \<^item> below \<open>0x80000000\<close>, the SRAM: byte-addressed and little-endian.
  Time is counted in bus accesses: \<open>cdt_dt\<close> clock cycles elapse before each
  access (\<open>tick\<close>), counted in \<open>cycles\<close>, the core's cycle counter that
  \<open>rdtime\<close> reads. A faulty SRAM is described by \<open>ram_fault\<close>, which says
  what a read of a cell returns given the byte stored there (the identity for
  a working memory).
\<close>

subsection \<open>Addresses and state\<close>

definition LEDS_ADDR :: u32 where "LEDS_ADDR = 0x80000000"
definition UART_DIV_ADDR :: u32 where "UART_DIV_ADDR = 0x80000008"
definition UART_DATA_ADDR :: u32 where "UART_DATA_ADDR = 0x8000000c"
definition CDT_ADDR :: u32 where "CDT_ADDR = 0x80000010"
definition RGB_LED_ADDR :: u32 where "RGB_LED_ADDR = 0x80000020"

record soc =
  leds_reg :: byte
  uart_div_reg :: u32
  uart_rx :: "byte list"
  uart_tx :: "byte list"
  cdt_reg :: u32
  cdt_dt :: nat
  cycles :: nat
  rgb_reg :: u32
  ram :: "u32 \<Rightarrow> byte"
  ram_fault :: "u32 \<Rightarrow> byte \<Rightarrow> byte"

subsection \<open>Byte lanes of a word\<close>

definition byte_of :: "nat \<Rightarrow> 'a::len word \<Rightarrow> byte" where
  "byte_of k w = ucast (drop_bit (8 * k) w)"

definition set_byte :: "nat \<Rightarrow> byte \<Rightarrow> 'a::len word \<Rightarrow> 'a word" where
  "set_byte k b w = (w AND NOT (push_bit (8 * k) (mask 8))) OR push_bit (8 * k) (ucast b)"

text \<open>A little-endian word from its bytes, least significant first.\<close>

definition le_word :: "byte list \<Rightarrow> 'a::len word" where
  "le_word bs = foldr (\<lambda>(k, b) w. set_byte k b w) (zip [0..<length bs] bs) 0"

subsection \<open>Time and the bus\<close>

definition countdown :: "nat \<Rightarrow> u32 \<Rightarrow> u32" where
  "countdown n c = (if unat c \<le> n then 0 else c - word_of_nat n)"

definition tick :: "soc \<Rightarrow> soc" where
  "tick s = s\<lparr>cdt_reg := countdown (cdt_dt s) (cdt_reg s), cycles := cycles s + cdt_dt s\<rparr>"

definition is_ram :: "u32 \<Rightarrow> bool" where
  "is_ram a \<longleftrightarrow> a < 0x80000000"

definition ram_rd :: "soc \<Rightarrow> u32 \<Rightarrow> byte" where
  "ram_rd s a = ram_fault s a (ram s a)"

definition uart_data_rd :: "soc \<Rightarrow> byte \<times> soc" where
  "uart_data_rd s = (case uart_rx s of [] \<Rightarrow> (0xFF, s) | c # cs \<Rightarrow> (c, s\<lparr>uart_rx := cs\<rparr>))"

definition in_cdt :: "u32 \<Rightarrow> bool" where
  "in_cdt a \<longleftrightarrow> CDT_ADDR \<le> a \<and> a < CDT_ADDR + 4"

definition load8 :: "u32 \<Rightarrow> soc \<Rightarrow> byte \<times> soc" where
  "load8 a s0 =
     (let s = tick s0 in
      if a = LEDS_ADDR then (leds_reg s, s)
      else if a = UART_DATA_ADDR then uart_data_rd s
      else if in_cdt a then (byte_of (unat (a - CDT_ADDR)) (cdt_reg s), s)
      else if is_ram a then (ram_rd s a, s)
      else (0, s))"

definition store8 :: "u32 \<Rightarrow> byte \<Rightarrow> soc \<Rightarrow> soc" where
  "store8 a v s0 =
     (let s = tick s0 in
      if a = LEDS_ADDR then s\<lparr>leds_reg := v\<rparr>
      else if a = UART_DATA_ADDR then s\<lparr>uart_tx := uart_tx s @ [v]\<rparr>
      else if in_cdt a then s\<lparr>cdt_reg := set_byte (unat (a - CDT_ADDR)) v (cdt_reg s)\<rparr>
      else if is_ram a then s\<lparr>ram := (ram s)(a := v)\<rparr>
      else s)"

definition load16 :: "u32 \<Rightarrow> soc \<Rightarrow> u16 \<times> soc" where
  "load16 a s0 =
     (let s = tick s0 in
      if a = CDT_ADDR \<or> a = CDT_ADDR + 2
      then (ucast (drop_bit (8 * unat (a - CDT_ADDR)) (cdt_reg s)), s)
      else if is_ram a then (le_word [ram_rd s a, ram_rd s (a + 1)], s)
      else (0, s))"

definition store16 :: "u32 \<Rightarrow> u16 \<Rightarrow> soc \<Rightarrow> soc" where
  "store16 a v s0 =
     (let s = tick s0; k = unat (a - CDT_ADDR) in
      if a = CDT_ADDR \<or> a = CDT_ADDR + 2
      then s\<lparr>cdt_reg := set_byte (k + 1) (byte_of 1 v) (set_byte k (byte_of 0 v) (cdt_reg s))\<rparr>
      else if is_ram a then s\<lparr>ram := (ram s)(a := byte_of 0 v, a + 1 := byte_of 1 v)\<rparr>
      else s)"

definition load32 :: "u32 \<Rightarrow> soc \<Rightarrow> u32 \<times> soc" where
  "load32 a s0 =
     (let s = tick s0 in
      if a = CDT_ADDR then (cdt_reg s, s)
      else if is_ram a then (le_word [ram_rd s a, ram_rd s (a + 1), ram_rd s (a + 2), ram_rd s (a + 3)], s)
      else (0, s))"

definition store32 :: "u32 \<Rightarrow> u32 \<Rightarrow> soc \<Rightarrow> soc" where
  "store32 a v s0 =
     (let s = tick s0 in
      if a = UART_DIV_ADDR then s\<lparr>uart_div_reg := v\<rparr>
      else if a = CDT_ADDR then s\<lparr>cdt_reg := v\<rparr>
      else if a = RGB_LED_ADDR then s\<lparr>rgb_reg := v\<rparr>
      else if is_ram a
      then s\<lparr>ram := (ram s)(a := byte_of 0 v, a + 1 := byte_of 1 v, a + 2 := byte_of 2 v, a + 3 := byte_of 3 v)\<rparr>
      else s)"


text \<open>A word of working SRAM: its four bytes lie below the I/O space and read
  back what was stored. \<open>ram_word\<close> is the little-endian word stored there.\<close>

definition word_ok :: "soc \<Rightarrow> u32 \<Rightarrow> bool" where
  "word_ok s a \<longleftrightarrow> a \<le> 0x7ffffffc \<and> (\<forall>k<4. ram_fault s (a + of_nat k) = id)"

definition ram_word :: "soc \<Rightarrow> u32 \<Rightarrow> u32" where
  "ram_word s a = le_word [ram s a, ram s (a + 1), ram s (a + 2), ram s (a + 3)]"

text \<open>A byte of working SRAM.\<close>

definition byte_ok :: "soc \<Rightarrow> u32 \<Rightarrow> bool" where
  "byte_ok s b \<longleftrightarrow> is_ram b \<and> ram_fault s b = id"

text \<open>A system just out of reset, with working SRAM, the timer counting one
  cycle per bus access, and the given bytes waiting in the UART receiver: the
  concrete state on which the drivers are run in the examples.\<close>

definition boot_soc :: "byte list \<Rightarrow> soc" where
  "boot_soc rx = \<lparr>leds_reg = 0, uart_div_reg = 0, uart_rx = rx, uart_tx = [], cdt_reg = 0, cdt_dt = 1, cycles = 0,
                  rgb_reg = 0, ram = (\<lambda>_. 0), ram_fault = (\<lambda>_. id)\<rparr>"

subsection \<open>Bus facts per device\<close>



lemma addr_vals [soc_simps]:
  "LEDS_ADDR = 0x80000000" "UART_DIV_ADDR = 0x80000008" "UART_DATA_ADDR = 0x8000000c"
  "CDT_ADDR = 0x80000010" "RGB_LED_ADDR = 0x80000020"
  by (simp_all add: LEDS_ADDR_def UART_DIV_ADDR_def UART_DATA_ADDR_def CDT_ADDR_def RGB_LED_ADDR_def)

lemma tick_fields [soc_simps]:
  "leds_reg (tick s) = leds_reg s" "uart_div_reg (tick s) = uart_div_reg s"
  "uart_rx (tick s) = uart_rx s" "uart_tx (tick s) = uart_tx s" "cdt_dt (tick s) = cdt_dt s"
  "rgb_reg (tick s) = rgb_reg s" "ram (tick s) = ram s" "ram_fault (tick s) = ram_fault s"
  "cdt_reg (tick s) = countdown (cdt_dt s) (cdt_reg s)" "cycles (tick s) = cycles s + cdt_dt s"
  by (simp_all add: tick_def)

lemma byte_of_set_byte_same [simp]:
  "8 * k + 8 \<le> LENGTH('a) \<Longrightarrow> byte_of k (set_byte k b (w::'a::len word)) = b"
  by (rule bit_word_eqI) (auto simp: byte_of_def set_byte_def bit_simps dest: bit_imp_le_length)

lemma byte_of_set_byte_other [simp]:
  "j \<noteq> k \<Longrightarrow> byte_of j (set_byte k b (w::'a::len word)) = byte_of j w"
  by (rule bit_word_eqI) (auto simp: byte_of_def set_byte_def bit_simps dest: bit_imp_le_length)

lemma word32_eq_bytes:
  "(w::u32) = v \<longleftrightarrow> (\<forall>k<4. byte_of k w = byte_of k v)"
proof
  assume h: "\<forall>k<4. byte_of k w = byte_of k v"
  show "w = v"
  proof (rule bit_word_eqI)
    fix n assume n: "n < LENGTH(32)"
    then have "n div 8 < 4" by simp
    with h have "bit (byte_of (n div 8) w) (n mod 8) = bit (byte_of (n div 8) v) (n mod 8)"
      by simp
    then show "bit w n = bit v n"
      using n by (simp add: byte_of_def bit_simps)
  qed
qed simp

lemma byte_of_le_word32 [simp]:
  "k < 4 \<Longrightarrow> byte_of k (le_word [b0, b1, b2, b3] :: u32) = [b0, b1, b2, b3] ! k"
  by (auto simp: le_word_def less_Suc_eq numeral_eq_Suc)

lemma le_word32_bytes: "le_word [byte_of 0 w, byte_of 1 w, byte_of 2 w, byte_of 3 (w::u32)] = w"
  unfolding word32_eq_bytes [of _ w] by (auto simp: less_Suc_eq numeral_eq_Suc)

lemma ram_not_io [soc_simps]:
  "is_ram a \<Longrightarrow> a \<noteq> LEDS_ADDR \<and> a \<noteq> UART_DATA_ADDR \<and> a \<noteq> UART_DIV_ADDR \<and> a \<noteq> RGB_LED_ADDR \<and>
              a \<noteq> CDT_ADDR \<and> a \<noteq> CDT_ADDR + 2 \<and> \<not> in_cdt a"
  by (auto simp: is_ram_def in_cdt_def addr_vals word_le_def word_less_def)


lemma io_not_ram [soc_simps]:
  "\<not> is_ram LEDS_ADDR" "\<not> is_ram UART_DATA_ADDR" "\<not> is_ram UART_DIV_ADDR" "\<not> is_ram RGB_LED_ADDR"
  "\<not> in_cdt LEDS_ADDR" "\<not> in_cdt UART_DATA_ADDR"
  by (simp_all add: is_ram_def in_cdt_def addr_vals)

lemma load8_uart [soc_simps]: "load8 UART_DATA_ADDR s = uart_data_rd (tick s)"
  by (simp add: load8_def addr_vals)

lemma store8_uart [soc_simps]: "store8 UART_DATA_ADDR v s = (tick s)\<lparr>uart_tx := uart_tx s @ [v]\<rparr>"
  by (simp add: store8_def addr_vals tick_def)

lemma load8_leds [soc_simps]: "load8 LEDS_ADDR s = (leds_reg s, tick s)"
  by (simp add: load8_def tick_def)

lemma store8_leds [soc_simps]: "store8 LEDS_ADDR v s = (tick s)\<lparr>leds_reg := v\<rparr>"
  by (simp add: store8_def)

lemma store8_cdt [soc_simps]:
  "store8 CDT_ADDR v s = (tick s)\<lparr>cdt_reg := set_byte 0 v (countdown (cdt_dt s) (cdt_reg s))\<rparr>"
  "store8 (CDT_ADDR + 1) v s = (tick s)\<lparr>cdt_reg := set_byte 1 v (countdown (cdt_dt s) (cdt_reg s))\<rparr>"
  "store8 (CDT_ADDR + 2) v s = (tick s)\<lparr>cdt_reg := set_byte 2 v (countdown (cdt_dt s) (cdt_reg s))\<rparr>"
  "store8 (CDT_ADDR + 3) v s = (tick s)\<lparr>cdt_reg := set_byte 3 v (countdown (cdt_dt s) (cdt_reg s))\<rparr>"
  by (simp_all add: store8_def in_cdt_def addr_vals tick_def Let_def)

lemma load32_cdt [soc_simps]: "load32 CDT_ADDR s = (countdown (cdt_dt s) (cdt_reg s), tick s)"
  by (simp add: load32_def tick_def)

lemma store32_cdt [soc_simps]: "store32 CDT_ADDR v s = (tick s)\<lparr>cdt_reg := v\<rparr>"
  by (simp add: store32_def addr_vals)

lemma store32_uart_div [soc_simps]: "store32 UART_DIV_ADDR v s = (tick s)\<lparr>uart_div_reg := v\<rparr>"
  by (simp add: store32_def)

lemma store32_rgb [soc_simps]: "store32 RGB_LED_ADDR v s = (tick s)\<lparr>rgb_reg := v\<rparr>"
  by (simp add: store32_def addr_vals)

lemma store16_cdt [soc_simps]:
  "store16 CDT_ADDR v s =
     (tick s)\<lparr>cdt_reg := set_byte 1 (byte_of 1 v) (set_byte 0 (byte_of 0 v) (countdown (cdt_dt s) (cdt_reg s)))\<rparr>"
  "store16 (CDT_ADDR + 2) v s =
     (tick s)\<lparr>cdt_reg := set_byte 3 (byte_of 1 v) (set_byte 2 (byte_of 0 v) (countdown (cdt_dt s) (cdt_reg s)))\<rparr>"
  by (simp_all add: store16_def addr_vals tick_def Let_def)

lemma load8_ram [soc_simps]: "is_ram a \<Longrightarrow> load8 a s = (ram_rd (tick s) a, tick s)"
  using ram_not_io [of a] by (simp add: load8_def Let_def)

lemma store8_ram [soc_simps]: "is_ram a \<Longrightarrow> store8 a v s = (tick s)\<lparr>ram := (ram s)(a := v)\<rparr>"
  using ram_not_io [of a] by (simp add: store8_def tick_def)

lemma load32_ram [soc_simps]:
  "is_ram a \<Longrightarrow> load32 a s =
     (le_word [ram_rd (tick s) a, ram_rd (tick s) (a + 1), ram_rd (tick s) (a + 2), ram_rd (tick s) (a + 3)], tick s)"
  using ram_not_io [of a] by (simp add: load32_def Let_def)

lemma store32_ram [soc_simps]:
  "is_ram a \<Longrightarrow> store32 a v s =
     (tick s)\<lparr>ram := (ram s)(a := byte_of 0 v, a + 1 := byte_of 1 v, a + 2 := byte_of 2 v, a + 3 := byte_of 3 v)\<rparr>"
  using ram_not_io [of a] by (simp add: store32_def tick_def)

subsection \<open>Time\<close>

lemma unat_countdown: "unat (countdown n c) = unat c - n"
proof (cases "unat c \<le> n")
  case False
  then have "n < 2 ^ 32" using unsigned_less [of c, where ?'a = nat] by simp
  with False show ?thesis
    by (simp add: countdown_def unat_sub_if' unat_of_nat)
qed (simp add: countdown_def)

lemma countdown_add: "countdown a (countdown b c) = countdown (a + b) c"
  by (simp add: word_unat_eq_iff unat_countdown)

lemma countdown_0: "countdown 0 c = c"
  by (simp add: word_unat_eq_iff unat_countdown)

lemma funpow_tick:
  "(tick ^^ n) s = s\<lparr>cdt_reg := countdown (n * cdt_dt s) (cdt_reg s), cycles := cycles s + n * cdt_dt s\<rparr>"
proof (induction n)
  case 0 then show ?case by (simp add: countdown_0)
next
  case (Suc n) then show ?case by (simp add: tick_def countdown_add)
qed


subsection \<open>Working words of SRAM\<close>

lemma word_ok_ram: "word_ok s a \<Longrightarrow> is_ram a"
  using le_less_trans [of a "0x7ffffffc" "0x80000000"] by (simp add: word_ok_def is_ram_def)

lemma word_ok_tick [simp]: "word_ok (tick s) a = word_ok s a"
  by (simp add: word_ok_def tick_fields)

lemma word_ok_faults: "word_ok s a \<Longrightarrow> ram_fault s a = id \<and> ram_fault s (a + 1) = id \<and> ram_fault s (a + 2) = id \<and> ram_fault s (a + 3) = id"
proof -
  assume "word_ok s a"
  then have h: "\<forall>k<4. ram_fault s (a + of_nat k) = id" by (simp add: word_ok_def)
  show ?thesis
    using h [rule_format, of 0] h [rule_format, of 1] h [rule_format, of 2] h [rule_format, of 3] by simp
qed

lemma word_ok_load32: "word_ok s a \<Longrightarrow> load32 a s = (ram_word s a, tick s)"
  using word_ok_faults [of s a] word_ok_ram [of s a]
  by (simp add: load32_ram ram_rd_def ram_word_def tick_fields)

lemma word_ok_store32:
  assumes "word_ok s a"
  shows "ram_word (store32 a v s) a = v" "word_ok (store32 a v s) a"
proof -
  have "a \<noteq> a + 1" "a \<noteq> a + 2" "a \<noteq> a + 3" "a + 1 \<noteq> a + 2" "a + 1 \<noteq> a + 3" "a + 2 \<noteq> a + 3"
    by simp_all
  then show "ram_word (store32 a v s) a = v"
    using word_ok_ram [OF assms] le_word32_bytes [of v] by (simp add: store32_ram ram_word_def tick_fields)
  show "word_ok (store32 a v s) a"
    using assms word_ok_ram [OF assms] by (simp add: store32_ram word_ok_def tick_fields)
qed


subsection \<open>Working bytes of SRAM and time\<close>

lemma word_ok_bytes:
  assumes "word_ok s a"
  shows "byte_ok s a" "byte_ok s (a + 1)" "byte_ok s (a + 2)" "byte_ok s (a + 3)"
proof -
  have le: "a \<le> 0x7ffffffc" using assms by (simp add: word_ok_def)
  have r: "is_ram (a + k)" if "k \<le> 3" for k :: u32
  proof -
    have "unat a \<le> 0x7ffffffc" using le by (simp add: word_le_nat_alt)
    moreover have "unat k \<le> 3" using that by (simp add: word_le_nat_alt)
    ultimately have "unat a + unat k < 0x80000000" by simp
    then show ?thesis
      by (simp add: is_ram_def word_less_nat_alt unat_add_lem [THEN iffD1])
  qed
  show "byte_ok s a" "byte_ok s (a + 1)" "byte_ok s (a + 2)" "byte_ok s (a + 3)"
    using word_ok_faults [OF assms] r [of 0] r [of 1] r [of 2] r [of 3] by (simp_all add: byte_ok_def)
qed

lemma byte_ok_load8: "byte_ok s b \<Longrightarrow> load8 b s = (ram s b, tick s)"
  by (simp add: byte_ok_def load8_ram ram_rd_def tick_fields)

lemma byte_ok_store8: "byte_ok s b \<Longrightarrow> store8 b v s = (tick s)\<lparr>ram := (ram s)(b := v)\<rparr>"
  by (simp add: byte_ok_def store8_ram)

lemma byte_ok_store16: "byte_ok s b \<Longrightarrow> store16 b v s = (tick s)\<lparr>ram := (ram s)(b := byte_of 0 v, b + 1 := byte_of 1 v)\<rparr>"
  using ram_not_io [of b] by (simp add: byte_ok_def store16_def tick_def)

lemma byte_ok_load16: "byte_ok s b \<Longrightarrow> byte_ok s (b + 1) \<Longrightarrow> load16 b s = (le_word [ram s b, ram s (b + 1)], tick s)"
  using ram_not_io [of b] by (simp add: byte_ok_def load16_def ram_rd_def tick_fields Let_def)

lemma byte_ok_update [simp]:
  "byte_ok (tick s) b = byte_ok s b" "byte_ok (s\<lparr>ram := m\<rparr>) b = byte_ok s b"
  by (simp_all add: byte_ok_def tick_fields)

lemma funpow_tick_fields [simp]:
  "ram ((tick ^^ n) s) = ram s" "ram_fault ((tick ^^ n) s) = ram_fault s" "uart_tx ((tick ^^ n) s) = uart_tx s"
  "uart_rx ((tick ^^ n) s) = uart_rx s" "leds_reg ((tick ^^ n) s) = leds_reg s" "rgb_reg ((tick ^^ n) s) = rgb_reg s"
  "uart_div_reg ((tick ^^ n) s) = uart_div_reg s" "cdt_dt ((tick ^^ n) s) = cdt_dt s"
  by (simp_all add: funpow_tick)

lemma word_ok_ram_upd [simp]: "word_ok (s\<lparr>ram := m\<rparr>) a = word_ok s a"
  by (simp add: word_ok_def)

lemma countdown_le: "unat (countdown n c) \<le> unat c"
  by (simp add: unat_countdown)

lemma funpow_tick_ram: "(tick ^^ n) (s\<lparr>ram := m\<rparr>) = ((tick ^^ n) s)\<lparr>ram := m\<rparr>"
  by (simp add: funpow_tick)

lemma funpow_tick_tick: "(tick ^^ a) ((tick ^^ b) s) = (tick ^^ (a + b)) s"
  by (simp add: funpow_add)

lemma upt_0_4: "[0..<4] = [0::nat, 1, 2, 3]"
  by (simp add: upt_rec)

lemma byte_of_le_word_map: "k < 4 \<Longrightarrow> byte_of k (le_word (map g [0..<4]) :: u32) = g k"
proof -
  assume k: "k < 4"
  have l: "map g [0..<4] = [g 0, g 1, g 2, g 3]" by (simp add: upt_0_4)
  have "byte_of k (le_word [g 0, g 1, g 2, g 3] :: u32) = [g 0, g 1, g 2, g 3] ! k"
    using k by (rule byte_of_le_word32)
  also have "\<dots> = map g [0..<4] ! k" by (simp only: l)
  also have "\<dots> = g k" using k by simp
  finally show ?thesis by (simp only: l)
qed

lemma le_word_map_bytes: "le_word (map (\<lambda>k. byte_of k w) [0..<4]) = (w::u32)"
  using le_word32_bytes [of w] by (simp add: upt_0_4)

lemma countdown_of_0 [simp]: "countdown n 0 = 0"
  by (simp add: countdown_def)

end
