(* ===== verification/Uart.thy ===== *)
theory Uart
  imports Soc "HOL-Library.Monad_Syntax"
begin

text \<open>
  The UART driver \<open>src/c_code/uart.c\<close>. Each function is a function on the
  system state \<open>soc\<close> of theory \<open>Soc\<close>; every access to \<open>UART_DIV\<close>,
  \<open>UART_DATA\<close> or to a \<open>volatile\<close> variable is one bus access of that theory.
  The busy-wait loops (\<open>uart_getchar\<close>, and \<open>uart_get_hex\<close> which calls it,
  and the delay loop of \<open>uart_set_div\<close>) may run forever, so they are
  \<open>partial_function (option)\<close>: not returning is \<open>None\<close>. C strings are byte
  lists read up to their terminating 0; reading past the object is undefined
  behaviour, \<open>None\<close>. The reference definitions \<open>hex_text\<close> and
  \<open>hex_number\<close> state what the hexadecimal routines print and read.
\<close>

subsection \<open>Driver functions\<close>

definition uart_putchar :: "byte \<Rightarrow> soc \<Rightarrow> soc" where
  "uart_putchar ch s = store8 UART_DATA_ADDR ch s"

fun uart_puts :: "byte list \<Rightarrow> soc \<Rightarrow> soc option" where
  "uart_puts [] s = None"
| "uart_puts (c # cs) s = (if c \<noteq> 0 then uart_puts cs (store8 UART_DATA_ADDR c s) else Some s)"

definition hex_digits :: "byte list" where
  "hex_digits = map of_char ''0123456789abcdef''"

function print_hex_loop :: "int \<Rightarrow> u32 \<Rightarrow> soc \<Rightarrow> soc" where
  "print_hex_loop i val s =
     (if i < 8 then
        (let ch = (ucast (drop_bit 28 (val AND 0xf0000000)) :: byte)
         in print_hex_loop (i + 1) (push_bit 4 val) (store8 UART_DATA_ADDR (hex_digits ! unat ch) s))
      else s)"
  by pat_completeness auto
termination by (relation "measure (\<lambda>(i, _, _). nat (8 - i))") auto

declare print_hex_loop.simps [simp del]

definition uart_print_hex :: "u32 \<Rightarrow> soc \<Rightarrow> soc" where
  "uart_print_hex val s = print_hex_loop 0 val s"

partial_function (option) uart_getchar :: "soc \<Rightarrow> (byte \<times> soc) option" where
  "uart_getchar s = (let (ch, s1) = load8 UART_DATA_ADDR s in if ch = 0xff then uart_getchar s1 else Some (ch, s1))"

partial_function (option) get_hex_loop :: "u32 \<Rightarrow> soc \<Rightarrow> (u32 \<times> soc) option" where
  "get_hex_loop v s =
     do {
       (ch, s1) \<leftarrow> uart_getchar s;
       if 0x30 \<le> ch \<and> ch \<le> 0x39 then get_hex_loop (16 * v + (ucast ch - 0x30)) (uart_putchar ch s1)
       else if 0x61 \<le> ch \<and> ch \<le> 0x66 then get_hex_loop (16 * v + (ucast ch - 0x61 + 10)) (uart_putchar ch s1)
       else if 0x41 \<le> ch \<and> ch \<le> 0x46 then get_hex_loop (16 * v + (ucast ch - 0x41 + 10)) (uart_putchar ch s1)
       else if ch = 0x0d then Some (v, uart_putchar 0x0a s1)
       else get_hex_loop v s1
     }"

definition uart_get_hex :: "soc \<Rightarrow> (u32 \<times> soc) option" where
  "uart_get_hex s = get_hex_loop 0 s"

partial_function (option) set_div_delay :: "u32 \<Rightarrow> soc \<Rightarrow> soc option" where
  "set_div_delay d s =
     (let (delay, s1) = load32 d s in
      if sint delay < 200
      then (let (delay', s2) = load32 d s1 in set_div_delay d (store32 d (delay' + 1) s2))
      else Some s1)"

definition uart_set_div :: "u32 \<Rightarrow> u32 \<Rightarrow> soc \<Rightarrow> soc option" where
  "uart_set_div d dv s = set_div_delay d (store32 d 0 (store32 UART_DIV_ADDR dv s))"


text \<open>The text of a C string literal: its characters and the terminating 0.\<close>

definition cstr :: "string \<Rightarrow> byte list" where
  "cstr cs = map of_char cs @ [0]"

subsection \<open>Reference definitions\<close>

text \<open>The eight lower-case hexadecimal digits of a word, most significant first.\<close>

definition hex_text :: "u32 \<Rightarrow> byte list" where
  "hex_text v = map (\<lambda>k. hex_digits ! (unat v div 16 ^ (7 - k) mod 16)) [0..<8]"

text \<open>Hexadecimal digit characters as \<open>uart_get_hex\<close> accepts them, their
  values, and the number a digit sequence denotes.\<close>

definition is_hex :: "byte \<Rightarrow> bool" where
  "is_hex c \<longleftrightarrow> (0x30 \<le> c \<and> c \<le> 0x39) \<or> (0x61 \<le> c \<and> c \<le> 0x66) \<or> (0x41 \<le> c \<and> c \<le> 0x46)"

definition hex_value :: "byte \<Rightarrow> nat" where
  "hex_value c = (if c \<le> 0x39 then unat c - 0x30 else if c \<le> 0x46 then unat c - 0x37 else unat c - 0x57)"

definition hex_number :: "byte list \<Rightarrow> nat" where
  "hex_number ds = foldl (\<lambda>n c. 16 * n + hex_value c) 0 ds"


subsection \<open>Receiving a byte\<close>

lemma uart_getchar_Cons:
  "uart_getchar s = (case uart_rx s of
      [] \<Rightarrow> uart_getchar (tick s)
    | c # cs \<Rightarrow> if c = 0xff then uart_getchar ((tick s)\<lparr>uart_rx := cs\<rparr>) else Some (c, (tick s)\<lparr>uart_rx := cs\<rparr>))"
  by (subst uart_getchar.simps) (simp add: load8_uart uart_data_rd_def tick_fields split: list.split)

lemma uart_getchar_some:
  "uart_rx s = replicate n 0xff @ c # cs \<Longrightarrow> c \<noteq> 0xff \<Longrightarrow>
   uart_getchar s = Some (c, ((tick ^^ Suc n) s)\<lparr>uart_rx := cs\<rparr>)"
proof (induction n arbitrary: s)
  case 0
  then show ?case by (simp add: uart_getchar_Cons)
next
  case (Suc n)
  have "uart_getchar s = uart_getchar ((tick s)\<lparr>uart_rx := replicate n 0xff @ c # cs\<rparr>)"
    using Suc.prems(1) by (simp add: uart_getchar_Cons)
  also have "\<dots> = Some (c, ((tick ^^ Suc n) ((tick s)\<lparr>uart_rx := replicate n 0xff @ c # cs\<rparr>))\<lparr>uart_rx := cs\<rparr>)"
    using Suc by simp
  finally show ?case
    unfolding funpow_tick by (simp add: tick_def countdown_add algebra_simps)
qed

lemma uart_getchar_returns_data:
  assumes "uart_getchar s = Some r"
  shows "\<exists>c \<in> set (uart_rx s). c \<noteq> 0xff"
proof (rule uart_getchar.raw_induct [where P = "\<lambda>s r. \<exists>c \<in> set (uart_rx s). c \<noteq> 0xff", OF _ assms])
  fix getchar s r
  assume IH: "\<And>s r. getchar s = Some r \<Longrightarrow> \<exists>c \<in> set (uart_rx s). c \<noteq> 0xff"
    and step: "(let (ch, s1) = load8 UART_DATA_ADDR s in if ch = 0xff then getchar s1 else Some (ch, s1)) = Some r"
  show "\<exists>c \<in> set (uart_rx s). c \<noteq> 0xff"
  proof (cases "uart_rx s")
    case (Cons c cs)
    with step IH [of "(tick s)\<lparr>uart_rx := cs\<rparr>"] show ?thesis
      by (auto simp: load8_uart uart_data_rd_def tick_fields split: if_splits)
  qed (use step IH [of "tick s"] in \<open>auto simp: load8_uart uart_data_rd_def tick_fields\<close>)
qed

subsection \<open>Printing a word in hexadecimal\<close>

lemma nibble_eq: "(x::nat) div 16 ^ j mod 16 = take_bit 4 (drop_bit (4 * j) x)"
  by (simp add: take_bit_eq_mod drop_bit_eq_div power_mult)

lemma nibble_push_bit:
  assumes "j < 7"
  shows "unat (push_bit 4 (v::u32)) div 16 ^ Suc j mod 16 = unat v div 16 ^ j mod 16"
proof -
  have "take_bit 4 (drop_bit (4 * Suc j) (take_bit 32 (push_bit 4 (unat v)))) = take_bit 4 (drop_bit (4 * j) (unat v) :: nat)"
    using assms by (intro bit_eqI) (auto simp: bit_simps)
  then show ?thesis by (simp only: nibble_eq unsigned_push_bit_eq) simp
qed

lemma nibble_top:
  "unat (ucast (drop_bit 28 ((v::u32) AND 0xf0000000)) :: byte) = unat v div 16 ^ 7 mod 16"
proof -
  have m: "bit (15::nat) n \<longleftrightarrow> n < 4" for n
  proof -
    have "bit (mask 4 :: nat) n \<longleftrightarrow> n < 4" by (simp add: bit_mask_iff)
    moreover have "(mask 4 :: nat) = 15" by (simp add: mask_eq_exp_minus_1)
    ultimately show ?thesis by simp
  qed
  have "take_bit 8 (drop_bit 28 (unat v AND 0xf0000000)) = take_bit 4 (drop_bit 28 (unat v) :: nat)"
    using bit_imp_le_length [of v] by (intro bit_eqI) (auto simp: bit_simps m)
  then show ?thesis
    by (simp only: nibble_eq unsigned_ucast_eq unat_drop_bit_eq unsigned_and_eq) simp
qed


lemma print_hex_loop_step:
  "i < 8 \<Longrightarrow> print_hex_loop i v s =
     print_hex_loop (i + 1) (push_bit 4 v) ((tick s)\<lparr>uart_tx := uart_tx s @ [hex_digits ! (unat v div 16 ^ 7 mod 16)]\<rparr>)"
  using nibble_top [of v] by (simp add: print_hex_loop.simps [of i] store8_uart Let_def)

lemma print_hex_loop_digits:
  "n \<le> 8 \<Longrightarrow> print_hex_loop (8 - int n) v s =
     ((tick ^^ n) s)\<lparr>uart_tx := uart_tx s @ map (\<lambda>k. hex_digits ! (unat v div 16 ^ (7 - k) mod 16)) [0..<n]\<rparr>"
proof (induction n arbitrary: v s)
  case 0
  then show ?case by (simp add: print_hex_loop.simps)
next
  case (Suc n)
  have shift: "map (\<lambda>k. hex_digits ! (unat (push_bit 4 v) div 16 ^ (7 - k) mod 16)) [0..<n] =
               map (\<lambda>k. hex_digits ! (unat v div 16 ^ (7 - Suc k) mod 16)) [0..<n]"
  proof (rule map_cong [OF refl])
    fix k assume "k \<in> set [0..<n]"
    with Suc.prems have "7 - k = Suc (7 - Suc k)" "7 - Suc k < 7" by auto
    then show "hex_digits ! (unat (push_bit 4 v) div 16 ^ (7 - k) mod 16) =
               hex_digits ! (unat v div 16 ^ (7 - Suc k) mod 16)"
      by (simp only: nibble_push_bit)
  qed
  have "print_hex_loop (8 - int (Suc n)) v s =
        print_hex_loop (8 - int n) (push_bit 4 v) ((tick s)\<lparr>uart_tx := uart_tx s @ [hex_digits ! (unat v div 16 ^ 7 mod 16)]\<rparr>)"
    using print_hex_loop_step [of "8 - int (Suc n)"] by (simp add: algebra_simps)
  also have "\<dots> = ((tick ^^ n) ((tick s)\<lparr>uart_tx := uart_tx s @ [hex_digits ! (unat v div 16 ^ 7 mod 16)]\<rparr>))
      \<lparr>uart_tx := uart_tx s @ [hex_digits ! (unat v div 16 ^ 7 mod 16)] @
          map (\<lambda>k. hex_digits ! (unat (push_bit 4 v) div 16 ^ (7 - k) mod 16)) [0..<n]\<rparr>"
    using Suc by simp
  finally show ?case
    unfolding shift funpow_tick by (simp add: tick_def countdown_add map_upt_Suc algebra_simps del: upt_Suc)
qed

subsection \<open>Reading a hexadecimal number\<close>

lemma ucast_sub_byte: "(k::byte) \<le> c \<Longrightarrow> (ucast c - ucast k :: u32) = of_nat (unat c - unat k)"
  by (simp add: of_nat_diff word_le_nat_alt)

lemma hex_branch_values:
  "0x30 \<le> c \<Longrightarrow> c \<le> 0x39 \<Longrightarrow> (ucast c - 0x30 :: u32) = of_nat (hex_value c)"
  "0x61 \<le> c \<Longrightarrow> c \<le> 0x66 \<Longrightarrow> (ucast c - 0x61 + 10 :: u32) = of_nat (hex_value c)"
  "0x41 \<le> c \<Longrightarrow> c \<le> 0x46 \<Longrightarrow> (ucast c - 0x41 + 10 :: u32) = of_nat (hex_value c)"
  using ucast_sub_byte [of "0x30" c] ucast_sub_byte [of "0x61" c] ucast_sub_byte [of "0x41" c]
  by (auto simp: hex_value_def word_le_nat_alt of_nat_diff)


lemma not_is_hex [simp]: "\<not> is_hex 0xff" "\<not> is_hex 0x0d"
  by (simp_all add: is_hex_def)

lemma get_hex_loop_skip:
  "uart_getchar s = uart_getchar s' \<Longrightarrow> get_hex_loop v s = get_hex_loop v s'"
  by (simp add: get_hex_loop.simps [of v s] get_hex_loop.simps [of v s'])

lemma get_hex_loop_char:
  "uart_getchar s = Some (c, s1) \<Longrightarrow>
   get_hex_loop v s =
     (if is_hex c then get_hex_loop (16 * v + of_nat (hex_value c)) (uart_putchar c s1)
      else if c = 0x0d then Some (v, uart_putchar 0x0a s1) else get_hex_loop v s1)"
  by (simp add: get_hex_loop.simps [of v s] is_hex_def hex_branch_values)

lemma uart_putchar_tx: "uart_putchar c s = (tick s)\<lparr>uart_tx := uart_tx s @ [c]\<rparr>"
  by (simp add: uart_putchar_def store8_uart)

lemma get_hex_loop_run:
  "0x0d \<notin> set ds \<Longrightarrow> uart_rx s = ds @ 0x0d # rest \<Longrightarrow>
   get_hex_loop v s =
     Some (foldl (\<lambda>v c. 16 * v + of_nat (hex_value c)) v (filter is_hex ds),
           ((tick ^^ (length ds + length (filter is_hex ds) + 2)) s)
             \<lparr>uart_rx := rest, uart_tx := uart_tx s @ filter is_hex ds @ [0x0a]\<rparr>)"
proof (induction ds arbitrary: v s)
  case Nil
  then have "uart_getchar s = Some (0x0d, ((tick ^^ 1) s)\<lparr>uart_rx := rest\<rparr>)"
    using uart_getchar_some [of s 0] by simp
  then show ?case
    unfolding get_hex_loop_char [OF \<open>uart_getchar s = _\<close>] funpow_tick
    by (simp add: uart_putchar_tx tick_def countdown_add)
next
  case (Cons c ds)
  let ?s1 = "(tick s)\<lparr>uart_rx := ds @ 0x0d # rest\<rparr>"
  have IH: "get_hex_loop w s' = Some (foldl (\<lambda>v c. 16 * v + of_nat (hex_value c)) w (filter is_hex ds),
           ((tick ^^ (length ds + length (filter is_hex ds) + 2)) s')
             \<lparr>uart_rx := rest, uart_tx := uart_tx s' @ filter is_hex ds @ [0x0a]\<rparr>)"
    if "uart_rx s' = ds @ 0x0d # rest" for w s'
    using Cons.IH Cons.prems(1) that by simp
  show ?case
  proof (cases "c = 0xff")
    case True
    then have "get_hex_loop v s = get_hex_loop v ?s1"
      using Cons.prems(2) by (intro get_hex_loop_skip) (simp add: uart_getchar_Cons)
    with True show ?thesis
      unfolding IH [of ?s1, simplified] funpow_tick
      by (simp add: tick_def countdown_add algebra_simps)
  next
    case False
    then have gc: "uart_getchar s = Some (c, ?s1)"
      using Cons.prems(2) by (simp add: uart_getchar_Cons)
    show ?thesis
    proof (cases "is_hex c")
      case True
      then have "get_hex_loop v s = get_hex_loop (16 * v + of_nat (hex_value c)) (uart_putchar c ?s1)"
        by (simp add: get_hex_loop_char [OF gc])
      also have "\<dots> = Some (foldl (\<lambda>v c. 16 * v + of_nat (hex_value c)) (16 * v + of_nat (hex_value c)) (filter is_hex ds),
           ((tick ^^ (length ds + length (filter is_hex ds) + 2)) (uart_putchar c ?s1))
             \<lparr>uart_rx := rest, uart_tx := uart_tx (uart_putchar c ?s1) @ filter is_hex ds @ [0x0a]\<rparr>)"
        by (rule IH) (simp add: uart_putchar_tx tick_fields)
      finally show ?thesis
        using True unfolding funpow_tick by (simp add: uart_putchar_tx tick_def countdown_add algebra_simps)
    next
      case False
      with Cons.prems(1) show ?thesis
        unfolding get_hex_loop_char [OF gc] IH [of ?s1, simplified] funpow_tick
        by (simp add: tick_def countdown_add algebra_simps)
    qed
  qed
qed


lemma hex_digits_list: "hex_digits = [0x30, 0x31, 0x32, 0x33, 0x34, 0x35, 0x36, 0x37, 0x38, 0x39, 0x61, 0x62, 0x63, 0x64, 0x65, 0x66]"
  by (simp add: hex_digits_def)

lemma hex_digits_nth:
  assumes "d < 16"
  shows "hex_digits ! d = (if d < 10 then 0x30 + of_nat d else 0x57 + of_nat d)"
proof -
  have "\<forall>d < 16. hex_digits ! d = (if d < 10 then 0x30 + of_nat d else 0x57 + of_nat d)"
    by (simp add: hex_digits_list All_less_Suc2 numeral_eq_Suc)
  with assms show ?thesis by blast
qed

lemma unat_byte_offset: "k + d < 256 \<Longrightarrow> unat (of_nat k + of_nat d :: byte) = k + d"
  by (simp add: unat_of_nat flip: of_nat_add)

lemma hex_digit_facts:
  assumes "d < 16"
  shows "is_hex (hex_digits ! d) \<and> hex_value (hex_digits ! d) = d \<and> hex_digits ! d \<noteq> 0x0d"
proof (cases "d < 10")
  case True
  have u: "unat (hex_digits ! d) = 48 + d"
    using True assms unat_byte_offset [of 48 d] by (simp add: hex_digits_nth)
  then show ?thesis using True
    by (auto simp: is_hex_def hex_value_def word_le_nat_alt)
next
  case False
  have u: "unat (hex_digits ! d) = 87 + d"
    using False assms unat_byte_offset [of 87 d] by (simp add: hex_digits_nth)
  then show ?thesis using False assms
    by (auto simp: is_hex_def hex_value_def word_le_nat_alt)
qed

lemma foldl_hex_word:
  "foldl (\<lambda>v c. 16 * v + of_nat (hex_value c)) (of_nat n :: u32) ds = of_nat (foldl (\<lambda>n c. 16 * n + hex_value c) n ds)"
proof (induction ds arbitrary: n)
  case (Cons c ds)
  show ?case using Cons.IH [of "16 * n + hex_value c"] by simp
qed simp

lemma foldl_hex_digits:
  "foldl (\<lambda>n c. 16 * n + hex_value c) acc (map (\<lambda>k. hex_digits ! (x div 16 ^ (m - Suc k) mod 16)) [0..<m]) =
   acc * 16 ^ m + x mod 16 ^ m"
proof (induction m arbitrary: x)
  case 0
  then show ?case by simp
next
  case (Suc m)
  let ?f = "\<lambda>n c. 16 * n + hex_value c"
  have eq: "map (\<lambda>k. hex_digits ! (x div 16 ^ (Suc m - Suc k) mod 16)) [0..<m] =
        map (\<lambda>k. hex_digits ! (x div 16 div 16 ^ (m - Suc k) mod 16)) [0..<m]"
  proof (rule map_cong [OF refl])
    fix k assume "k \<in> set [0..<m]"
    then have "(16::nat) ^ (Suc m - Suc k) = 16 * 16 ^ (m - Suc k)"
      by (simp add: Suc_diff_Suc flip: power_Suc)
    then show "hex_digits ! (x div 16 ^ (Suc m - Suc k) mod 16) = hex_digits ! (x div 16 div 16 ^ (m - Suc k) mod 16)"
      by (simp add: div_mult2_eq)
  qed
  have m: "16 * (x div 16 mod 16 ^ m) + x mod 16 = x mod 16 ^ Suc m"
    by (simp add: mod_mult2_eq mult.commute)
  have "foldl ?f acc (map (\<lambda>k. hex_digits ! (x div 16 ^ (Suc m - Suc k) mod 16)) [0..<Suc m]) =
        ?f (foldl ?f acc (map (\<lambda>k. hex_digits ! (x div 16 div 16 ^ (m - Suc k) mod 16)) [0..<m]))
           (hex_digits ! (x mod 16))"
    by (simp only: upt_Suc_append [OF le0] map_append foldl_append eq) simp
  also have "\<dots> = 16 * (acc * 16 ^ m + x div 16 mod 16 ^ m) + x mod 16"
    using hex_digit_facts [of "x mod 16"] by (simp only: Suc.IH)
  finally show ?case
    using m by (simp add: algebra_simps)
qed

lemma hex_number_hex_text: "hex_number (hex_text v) = unat v"
proof -
  have "unat v < 16 ^ 8" using unsigned_less [of v, where ?'a = nat] by simp
  moreover have "hex_text v = map (\<lambda>k. hex_digits ! (unat v div 16 ^ (8 - Suc k) mod 16)) [0..<8]"
    by (simp add: hex_text_def)
  ultimately show ?thesis
    using foldl_hex_digits [of 0 "unat v" 8] by (simp add: hex_number_def)
qed

subsection \<open>The divisor delay loop\<close>

lemma sint_small: "k \<le> 200 \<Longrightarrow> sint (of_nat k :: u32) = int k"
  by (simp add: signed_of_nat signed_take_bit_int_eq_self)

lemma set_div_delay_run:
  assumes "word_ok s d" "ram_word s d = of_nat k" "k \<le> 200"
  shows "\<exists>s'. set_div_delay d s = Some s' \<and> ram_word s' d = 200 \<and> word_ok s' d \<and>
              leds_reg s' = leds_reg s \<and> uart_div_reg s' = uart_div_reg s \<and> uart_rx s' = uart_rx s \<and>
              uart_tx s' = uart_tx s \<and> rgb_reg s' = rgb_reg s"
  using assms
proof (induction "200 - k" arbitrary: k s)
  case 0
  then have "k = 200" by simp
  with 0 show ?case
    by (subst set_div_delay.simps) (simp add: word_ok_load32 sint_small tick_fields ram_word_def)
next
  case (Suc n)
  let ?s2 = "store32 d (of_nat k + 1) (tick (tick s))"
  have ok2: "word_ok ?s2 d" "ram_word ?s2 d = of_nat (Suc k)"
    using Suc.prems(1) by (simp_all add: word_ok_store32)
  have "k < 200" using Suc.hyps(2) by simp
  then have step: "set_div_delay d s = set_div_delay d ?s2"
    using Suc.prems sint_small [of k]
    by (subst set_div_delay.simps) (simp add: word_ok_load32 ram_word_def tick_fields)
  have n: "n = 200 - Suc k" using Suc.hyps(2) by simp
  obtain s' where "set_div_delay d ?s2 = Some s'" "ram_word s' d = 200" "word_ok s' d"
    "leds_reg s' = leds_reg ?s2" "uart_div_reg s' = uart_div_reg ?s2" "uart_rx s' = uart_rx ?s2"
    "uart_tx s' = uart_tx ?s2" "rgb_reg s' = rgb_reg ?s2"
    using Suc.hyps(1) [OF n ok2(1) ok2(2)] \<open>k < 200\<close> by auto
  with step Suc.prems(1) show ?case
    using word_ok_ram [of s d] by (auto simp: store32_ram tick_fields)
qed

subsection \<open>Printing a string\<close>

lemma uart_puts_run:
  "0 \<notin> set bs \<Longrightarrow> uart_puts (bs @ 0 # rest) s = Some (((tick ^^ length bs) s)\<lparr>uart_tx := uart_tx s @ bs\<rparr>)"
proof (induction bs arbitrary: s)
  case Nil
  then show ?case by (simp add: countdown_0 funpow_tick)
next
  case (Cons b bs)
  then show ?case
    unfolding funpow_tick by (simp add: store8_uart tick_def countdown_add algebra_simps del: funpow.simps)
qed

lemma uart_puts_unterminated: "0 \<notin> set bs \<Longrightarrow> uart_puts bs s = None"
  by (induction bs arbitrary: s) auto

lemma uart_print_hex_run:
  "uart_print_hex v s = ((tick ^^ 8) s)\<lparr>uart_tx := uart_tx s @ hex_text v\<rparr>"
  using print_hex_loop_digits [of 8 v s] by (simp add: uart_print_hex_def hex_text_def)

lemma of_char_byte_0: "(of_char c :: byte) = 0 \<longleftrightarrow> c = CHR 0x00"
proof
  assume "(of_char c :: byte) = 0"
  then have "(of_nat (of_char c :: nat) :: byte) = 0" by (simp only: of_nat_of_char)
  moreover have "unat (of_nat (of_char c :: nat) :: byte) = of_char c"
    using nat_of_char_less_256 [of c] by (simp add: unat_of_nat)
  ultimately have "(of_char c :: nat) = 0"
    by simp
  then have "c = char_of (0::nat)" by (metis char_of_char)
  then show "c = CHR 0x00" by (simp add: char_of_def)
qed simp

lemma uart_puts_cstr:
  "CHR 0x00 \<notin> set cs \<Longrightarrow>
   uart_puts (cstr cs) s = Some (((tick ^^ length cs) s)\<lparr>uart_tx := uart_tx s @ map of_char cs\<rparr>)"
proof -
  assume "CHR 0x00 \<notin> set cs"
  then have "0 \<notin> set (map of_char cs :: byte list)"
    by (auto simp: of_char_byte_0)
  then show ?thesis
    using uart_puts_run [of "map of_char cs" "[]" s] by (simp add: cstr_def)
qed

lemma split_at_nul:
  assumes "(0::byte) \<in> set bs"
  shows "bs = takeWhile (\<lambda>c. c \<noteq> 0) bs @ 0 # tl (dropWhile (\<lambda>c. c \<noteq> 0) bs)"
proof -
  have ne: "dropWhile (\<lambda>c. c \<noteq> 0) bs \<noteq> []"
    using assms by (auto simp: dropWhile_eq_Nil_conv)
  then have "dropWhile (\<lambda>c. c \<noteq> 0) bs = 0 # tl (dropWhile (\<lambda>c. c \<noteq> 0) bs)"
    using hd_dropWhile [OF ne] by (cases "dropWhile (\<lambda>c. c \<noteq> 0) bs") auto
  then show ?thesis
    using takeWhile_dropWhile_id [of "\<lambda>c. c \<noteq> 0" bs] by simp
qed

lemma uart_puts_nul:
  "(0::byte) \<in> set bs \<Longrightarrow>
   uart_puts bs s = Some (((tick ^^ length (takeWhile (\<lambda>c. c \<noteq> 0) bs)) s)\<lparr>uart_tx := uart_tx s @ takeWhile (\<lambda>c. c \<noteq> 0) bs\<rparr>)"
  using uart_puts_run [of "takeWhile (\<lambda>c. c \<noteq> 0) bs" "tl (dropWhile (\<lambda>c. c \<noteq> 0) bs)" s] split_at_nul [of bs]
  by (auto dest: set_takeWhileD)

lemma uart_rx_first_data:
  assumes "\<exists>c \<in> set (uart_rx s). c \<noteq> 0xff"
  obtains n c cs where "uart_rx s = replicate n 0xff @ c # cs" "c \<noteq> 0xff"
proof -
  let ?xs = "uart_rx s"
  have ne: "dropWhile (\<lambda>x. x = 0xff) ?xs \<noteq> []"
    using assms by (simp add: dropWhile_eq_Nil_conv)
  then obtain c cs where dw: "dropWhile (\<lambda>x. x = 0xff) ?xs = c # cs"
    by (cases "dropWhile (\<lambda>x. x = 0xff) ?xs") auto
  have "c \<noteq> 0xff"
    using hd_dropWhile [OF ne] dw by simp
  moreover have "?xs = replicate (length (takeWhile (\<lambda>x. x = 0xff) ?xs)) 0xff @ c # cs"
  proof -
    have "\<forall>x \<in> set (takeWhile (\<lambda>x. x = 0xff) ?xs). x = 0xff"
      by (auto dest: set_takeWhileD)
    then have "takeWhile (\<lambda>x. x = 0xff) ?xs = replicate (length (takeWhile (\<lambda>x. x = 0xff) ?xs)) 0xff"
      by (simp add: replicate_length_same)
    then show ?thesis
      using takeWhile_dropWhile_id [of "\<lambda>x. x = 0xff" ?xs] dw by simp
  qed
  ultimately show ?thesis using that by blast
qed

subsection \<open>Properties of the driver\<close>

text \<open>C14: \<open>uart_getchar\<close> returns exactly when a byte other than \<open>0xff\<close> is
  pending: it returns the first such byte, having consumed every \<open>0xff\<close> byte
  before it, one polling read (one bus access) per byte.\<close>

theorem uart_getchar_returns:
  "uart_getchar s = Some (c, s') \<longleftrightarrow>
   (\<exists>n cs. uart_rx s = replicate n 0xff @ c # cs \<and> c \<noteq> 0xff \<and> s' = ((tick ^^ Suc n) s)\<lparr>uart_rx := cs\<rparr>)"
proof
  assume r: "uart_getchar s = Some (c, s')"
  have "\<exists>c \<in> set (uart_rx s). c \<noteq> 0xff"
    using r by (rule uart_getchar_returns_data)
  then obtain n d cs where rx: "uart_rx s = replicate n 0xff @ d # cs" "d \<noteq> 0xff"
    by (rule uart_rx_first_data)
  with r show "\<exists>n cs. uart_rx s = replicate n 0xff @ c # cs \<and> c \<noteq> 0xff \<and> s' = ((tick ^^ Suc n) s)\<lparr>uart_rx := cs\<rparr>"
    using uart_getchar_some [OF rx] by auto
qed (auto simp: uart_getchar_some)

theorem uart_getchar_returns_witness:
  "uart_getchar (boot_soc [0xff, 0x41]) = Some (0x41, ((tick ^^ 2) (boot_soc [0xff, 0x41]))\<lparr>uart_rx := []\<rparr>)"
proof (rule iffD2 [OF uart_getchar_returns])
  show "\<exists>n cs. uart_rx (boot_soc [0xff, 0x41]) = replicate n 0xff @ 0x41 # cs \<and> (0x41::byte) \<noteq> 0xff \<and>
      ((tick ^^ 2) (boot_soc [0xff, 0x41]))\<lparr>uart_rx := []\<rparr> = ((tick ^^ Suc n) (boot_soc [0xff, 0x41]))\<lparr>uart_rx := cs\<rparr>"
    by (rule exI [of _ 1], rule exI [of _ "[]"]) (simp add: boot_soc_def funpow_tick countdown_def del: funpow.simps)
qed

text \<open>C15: \<open>uart_print_hex\<close> meets the contract "print a word as eight
  hexadecimal digits": it transmits eight digit characters, which denote the
  word, and changes nothing else but the time (eight bus accesses).\<close>

theorem uart_print_hex_prints:
  "\<exists>ds. uart_print_hex v s = ((tick ^^ 8) s)\<lparr>uart_tx := uart_tx s @ ds\<rparr> \<and>
        length ds = 8 \<and> (\<forall>c \<in> set ds. is_hex c) \<and> hex_number ds = unat v"
proof (intro exI conjI)
  show "uart_print_hex v s = ((tick ^^ 8) s)\<lparr>uart_tx := uart_tx s @ hex_text v\<rparr>"
    by (rule uart_print_hex_run)
  show "\<forall>c \<in> set (hex_text v). is_hex c"
    using hex_digit_facts by (auto simp: hex_text_def)
  show "length (hex_text v) = 8"
    by (simp add: hex_text_def)
  show "hex_number (hex_text v) = unat v"
    by (rule hex_number_hex_text)
qed

theorem uart_print_hex_prints_witness:
  "\<exists>ds. uart_print_hex 0xbeef (boot_soc []) = ((tick ^^ 8) (boot_soc []))\<lparr>uart_tx := ds\<rparr> \<and>
        length ds = 8 \<and> (\<forall>c \<in> set ds. is_hex c) \<and> hex_number ds = 0xbeef"
  using uart_print_hex_prints [of "0xbeef" "boot_soc []"] by (simp add: boot_soc_def)

text \<open>C16: \<open>uart_get_hex\<close> reads characters up to the first carriage return,
  echoes each hexadecimal digit and accumulates it, ignores every other
  character, echoes a line feed for the carriage return, and returns the
  number the digits denote.\<close>

theorem uart_get_hex_reads:
  assumes "0x0d \<notin> set ds" "uart_rx s = ds @ 0x0d # rest"
  shows "uart_get_hex s =
           Some (of_nat (hex_number (filter is_hex ds)),
                 ((tick ^^ (length ds + length (filter is_hex ds) + 2)) s)
                   \<lparr>uart_rx := rest, uart_tx := uart_tx s @ filter is_hex ds @ [0x0a]\<rparr>)"
  using get_hex_loop_run [OF assms, of 0] foldl_hex_word [of 0 "filter is_hex ds"]
  by (simp add: uart_get_hex_def hex_number_def)

theorem uart_get_hex_reads_witness:
  "\<exists>s'. uart_get_hex (boot_soc [0x31, 0x78, 0x61, 0x0d]) = Some (0x1a, s') \<and>
        uart_rx s' = [] \<and> uart_tx s' = [0x31, 0x61, 0x0a]"
proof -
  have rx: "uart_rx (boot_soc [0x31, 0x78, 0x61, 0x0d]) = [0x31, 0x78, 0x61] @ 0x0d # []"
    by (simp add: boot_soc_def)
  show ?thesis
    using uart_get_hex_reads [OF _ rx]
    by (simp add: is_hex_def hex_number_def hex_value_def) (simp add: boot_soc_def)
qed

text \<open>C17: Round trip between the two hexadecimal routines: the characters
  \<open>uart_print_hex\<close> transmits for a word, typed back followed by a carriage
  return, are read by \<open>uart_get_hex\<close> as the same word, echoed, and
  consumed up to the carriage return.\<close>

theorem uart_get_hex_print_hex:
  assumes "uart_rx s = drop (length (uart_tx t)) (uart_tx (uart_print_hex v t)) @ 0x0d # rest"
  shows "\<exists>s'. uart_get_hex s = Some (v, s') \<and> uart_rx s' = rest \<and>
              uart_tx s' = uart_tx s @ drop (length (uart_tx t)) (uart_tx (uart_print_hex v t)) @ [0x0a]"
proof -
  have sent: "drop (length (uart_tx t)) (uart_tx (uart_print_hex v t)) = hex_text v"
    by (simp add: uart_print_hex_run)
  have digits: "\<forall>c \<in> set (hex_text v). is_hex c \<and> c \<noteq> 0x0d"
    using hex_digit_facts by (auto simp: hex_text_def)
  then have "0x0d \<notin> set (hex_text v)" "filter is_hex (hex_text v) = hex_text v"
    by auto
  with assms show ?thesis
    unfolding sent
    using get_hex_loop_run [of "hex_text v" s rest 0] foldl_hex_word [of 0 "hex_text v"]
    by (simp add: uart_get_hex_def hex_number_hex_text flip: hex_number_def)
qed

theorem uart_get_hex_print_hex_witness:
  "\<exists>s'. uart_get_hex (boot_soc (uart_tx (uart_print_hex 0xbeef (boot_soc [])) @ [0x0d])) = Some (0xbeef, s') \<and>
        uart_rx s' = []"
proof -
  have rx: "uart_rx (boot_soc (uart_tx (uart_print_hex 0xbeef (boot_soc [])) @ [0x0d])) =
              drop (length (uart_tx (boot_soc []))) (uart_tx (uart_print_hex 0xbeef (boot_soc []))) @ 0x0d # []"
    by (simp add: boot_soc_def)
  show ?thesis
    using uart_get_hex_print_hex [OF rx] by blast
qed

text \<open>C18: \<open>uart_puts\<close> transmits the characters of a string up to its
  terminating 0, one bus access each, and returns; on a byte sequence with no
  terminating 0 it reads past the end of the object, which is undefined.\<close>

theorem uart_puts_prints:
  "uart_puts bs s =
     (if 0 \<in> set bs
      then Some (((tick ^^ length (takeWhile (\<lambda>c. c \<noteq> 0) bs)) s)\<lparr>uart_tx := uart_tx s @ takeWhile (\<lambda>c. c \<noteq> 0) bs\<rparr>)
      else None)"
  by (simp add: uart_puts_nul uart_puts_unterminated)

theorem uart_puts_prints_witness:
  "uart_puts [0x6f, 0x6b, 0, 0x78] (boot_soc []) = Some (((tick ^^ 2) (boot_soc []))\<lparr>uart_tx := [0x6f, 0x6b]\<rparr>)"
  using uart_puts_prints [of "[0x6f, 0x6b, 0, 0x78]" "boot_soc []"] by (simp add: boot_soc_def funpow_tick countdown_def del: funpow.simps)

text \<open>C19: \<open>uart_set_div\<close> writes the divisor register and returns after its
  delay loop: the \<open>volatile\<close> counter on the stack counts from 0 to 200,
  provided the stack word holding it is working memory. It sends and receives
  nothing and leaves the LEDs alone.\<close>

theorem uart_set_div_sets:
  assumes "word_ok s d"
  shows "\<exists>s'. uart_set_div d dv s = Some s' \<and> uart_div_reg s' = dv \<and> ram_word s' d = 200 \<and>
              uart_rx s' = uart_rx s \<and> uart_tx s' = uart_tx s \<and> leds_reg s' = leds_reg s \<and> rgb_reg s' = rgb_reg s"
proof -
  let ?s1 = "store32 d 0 (store32 UART_DIV_ADDR dv s)"
  have ram: "is_ram d" using assms by (rule word_ok_ram)
  have ok0: "word_ok (store32 UART_DIV_ADDR dv s) d"
    using assms by (simp add: store32_uart_div word_ok_def tick_fields)
  have ok: "word_ok ?s1 d" "ram_word ?s1 d = of_nat 0"
    using word_ok_store32 [OF ok0] by simp_all
  show ?thesis
    using set_div_delay_run [OF ok] ram by (auto simp: uart_set_div_def store32_ram store32_uart_div tick_fields)
qed

theorem uart_set_div_sets_witness:
  "\<exists>s'. uart_set_div 0x1000 234 (boot_soc []) = Some s' \<and> uart_div_reg s' = 234 \<and> ram_word s' 0x1000 = 200 \<and>
        uart_rx s' = [] \<and> uart_tx s' = [] \<and> leds_reg s' = 0 \<and> rgb_reg s' = 0"
proof -
  have "word_ok (boot_soc []) 0x1000"
    by (simp add: word_ok_def boot_soc_def)
  then show ?thesis
    using uart_set_div_sets [of "boot_soc []" "0x1000" 234] by (simp add: boot_soc_def)
qed

end
