(* ===== verification/Countdown_Timer.thy ===== *)
theory Countdown_Timer
  imports Soc
begin

text \<open>
  The countdown timer driver \<open>src/c_code/countdown_timer.c\<close>: byte,
  half-word and word writes to the 32-bit counter at \<open>0x80000010\<close>, the word
  read, and \<open>cdt_delay\<close>, which writes the counter and polls it until it
  reads 0 (a \<open>partial_function (option)\<close>, since with a stopped timer the
  poll never ends). \<open>reg_write\<close> is the abstract operation the writers
  implement: replace some bytes of the counter.
\<close>

subsection \<open>Driver functions\<close>

definition cdt_wbyte0 :: "byte \<Rightarrow> soc \<Rightarrow> soc" where
  "cdt_wbyte0 value s = store8 CDT_ADDR value s"

definition cdt_wbyte1 :: "byte \<Rightarrow> soc \<Rightarrow> soc" where
  "cdt_wbyte1 value s = store8 (CDT_ADDR + 1) value s"

definition cdt_wbyte2 :: "byte \<Rightarrow> soc \<Rightarrow> soc" where
  "cdt_wbyte2 value s = store8 (CDT_ADDR + 2) value s"

definition cdt_wbyte3 :: "byte \<Rightarrow> soc \<Rightarrow> soc" where
  "cdt_wbyte3 value s = store8 (CDT_ADDR + 3) value s"

definition cdt_whalf0 :: "u16 \<Rightarrow> soc \<Rightarrow> soc" where
  "cdt_whalf0 value s = store16 CDT_ADDR value s"

definition cdt_whalf2 :: "u16 \<Rightarrow> soc \<Rightarrow> soc" where
  "cdt_whalf2 value s = store16 (CDT_ADDR + 2) value s"

definition cdt_write :: "u32 \<Rightarrow> soc \<Rightarrow> soc" where
  "cdt_write value s = store32 CDT_ADDR value s"

definition cdt_read :: "soc \<Rightarrow> u32 \<times> soc" where
  "cdt_read s = load32 CDT_ADDR s"

partial_function (option) cdt_poll :: "soc \<Rightarrow> soc option" where
  "cdt_poll s = (let (v, s1) = load32 CDT_ADDR s in if v \<noteq> 0 then cdt_poll s1 else Some s1)"

definition cdt_delay :: "u32 \<Rightarrow> soc \<Rightarrow> soc option" where
  "cdt_delay value s = cdt_poll (cdt_write value s)"

subsection \<open>Abstract register write\<close>

text \<open>Replace the \<open>w\<close> bytes of a register starting at byte \<open>k\<close> by the low
  \<open>w\<close> bytes of \<open>v\<close>.\<close>

definition reg_write :: "nat \<Rightarrow> nat \<Rightarrow> u32 \<Rightarrow> u32 \<Rightarrow> u32" where
  "reg_write k w v old =
     (old AND NOT (push_bit (8 * k) (mask (8 * w)))) OR push_bit (8 * k) (take_bit (8 * w) v)"

subsection \<open>Lemmas\<close>

lemma set_byte_reg_write: "set_byte k b (w::u32) = reg_write k 1 (ucast b) w"
  by (rule bit_word_eqI) (auto simp: set_byte_def reg_write_def bit_simps dest: bit_imp_le_length)

lemma cdt_poll_run:
  assumes "0 < cdt_dt s"
  shows "cdt_poll s = Some ((tick ^^ max 1 ((unat (cdt_reg s) + cdt_dt s - 1) div cdt_dt s)) s)"
  using assms
proof (induction "unat (cdt_reg s)" arbitrary: s rule: less_induct)
  case less
  let ?d = "cdt_dt s" and ?r = "unat (cdt_reg s)"
  show ?case
  proof (cases "?r \<le> ?d")
    case True
    then have "?r + ?d - 1 < 2 * ?d" using less.prems by simp
    then have "(?r + ?d - 1) div ?d < 2" by (simp add: less_mult_imp_div_less)
    then have "max 1 ((?r + ?d - 1) div ?d) = 1" by simp
    with True show ?thesis
      by (subst cdt_poll.simps) (simp add: load32_cdt countdown_def)
  next
    case False
    have "unat (countdown ?d (cdt_reg s)) \<noteq> 0"
      using False by (simp add: unat_countdown)
    then have "countdown ?d (cdt_reg s) \<noteq> 0"
      by auto
    then have step: "cdt_poll s = cdt_poll (tick s)"
      by (subst cdt_poll.simps) (simp add: load32_cdt)
    have r': "unat (cdt_reg (tick s)) = ?r - ?d"
      by (simp add: tick_fields unat_countdown)
    let ?n = "max 1 ((?r - ?d + ?d - 1) div ?d)"
    have ih: "cdt_poll (tick s) = Some ((tick ^^ ?n) (tick s))"
      using less.hyps [of "tick s"] less.prems False r' by (simp add: tick_fields)
    have eq: "Suc (max 1 ((?r - ?d + ?d - 1) div ?d)) = max 1 ((?r + ?d - 1) div ?d)"
    proof -
      have "?r + ?d - 1 = (?r - ?d + ?d - 1) + ?d"
        using False by simp
      then have "(?r + ?d - 1) div ?d = Suc ((?r - ?d + ?d - 1) div ?d)"
        using less.prems by (metis div_add_self2 less_not_refl2 plus_1_eq_Suc add.commute)
      moreover have "1 \<le> (?r - ?d + ?d - 1) div ?d"
      proof -
        have "?d \<le> ?r - ?d + ?d - 1" using False by simp
        then show ?thesis using less.prems by (simp add: div_greater_zero_iff Suc_le_eq)
      qed
      ultimately show ?thesis by simp
    qed
    have "cdt_poll s = Some ((tick ^^ ?n) (tick s))"
      using step ih by simp
    also have "(tick ^^ ?n) (tick s) = (tick ^^ Suc ?n) s"
      by (simp only: funpow_Suc_right o_apply)
    finally show ?thesis
      by (simp only: eq)
  qed
qed

lemma poll_count_bounds:
  assumes "0 < (d::nat)"
  shows "r \<le> max 1 ((r + d - 1) div d) * d" "max 1 ((r + d - 1) div d) * d \<le> r + d"
proof -
  have dm: "(r + d - 1) div d * d + (r + d - 1) mod d = r + d - 1"
    by (rule div_mult_mod_eq)
  have "(r + d - 1) mod d < d" using assms by simp
  then have lo: "r \<le> (r + d - 1) div d * d \<or> r = 0"
    using dm by linarith
  show "r \<le> max 1 ((r + d - 1) div d) * d"
  proof (cases "(r + d - 1) div d = 0")
    case True
    with lo show ?thesis by simp
  next
    case False
    with lo show ?thesis by (auto simp: max_def)
  qed
  have "(r + d - 1) div d * d \<le> r + d"
    using dm by linarith
  then show "max 1 ((r + d - 1) div d) * d \<le> r + d"
    by (simp add: max_def)
qed

lemma set_byte_pair_reg_write:
  "k \<le> 2 \<Longrightarrow> set_byte (k + 1) (byte_of 1 v) (set_byte k (byte_of 0 (v::u16)) (w::u32)) = reg_write k 2 (ucast v) w"
proof (rule bit_word_eqI)
  fix n assume "k \<le> 2" "n < LENGTH(32)"
  have "8 \<le> n - 8 * k \<Longrightarrow> 8 + (n - (8 + 8 * k)) = n - 8 * k" by simp
  with \<open>k \<le> 2\<close> \<open>n < LENGTH(32)\<close> show "bit (set_byte (k + 1) (byte_of 1 v) (set_byte k (byte_of 0 v) w)) n = bit (reg_write k 2 (ucast v) w) n"
    by (cases "n - 8 * k < 8") (auto simp: set_byte_def reg_write_def byte_of_def bit_simps dest: bit_imp_le_length)
qed

subsection \<open>Properties\<close>

text \<open>C20: With a running timer, \<open>cdt_delay\<close> returns, leaving the counter at
  0, after at least \<open>value\<close> cycles counted from its write to the counter and
  at most one polling period more; it changes no other device.\<close>

theorem cdt_delay_waits:
  assumes "0 < cdt_dt s"
  shows "\<exists>s'. cdt_delay v s = Some s' \<and> cdt_reg s' = 0 \<and>
              unat v + cdt_dt s \<le> cycles s' - cycles s \<and> cycles s' - cycles s \<le> unat v + 2 * cdt_dt s \<and>
              s'\<lparr>cdt_reg := cdt_reg s, cycles := cycles s\<rparr> = s"
proof -
  let ?d = "cdt_dt s"
  let ?n = "max 1 ((unat v + ?d - 1) div ?d)"
  have w: "cdt_write v s = s\<lparr>cdt_reg := v, cycles := cycles s + ?d\<rparr>"
    by (simp add: cdt_write_def store32_cdt tick_def)
  have b: "unat v \<le> ?n * ?d" "?n * ?d \<le> unat v + ?d"
    using poll_count_bounds [OF assms] by simp_all
  have "cdt_delay v s = Some ((tick ^^ ?n) (s\<lparr>cdt_reg := v, cycles := cycles s + ?d\<rparr>))"
    using cdt_poll_run [of "s\<lparr>cdt_reg := v, cycles := cycles s + ?d\<rparr>"] assms by (simp add: cdt_delay_def w)
  moreover have "countdown (?n * ?d) v = 0"
    using b(1) by (simp add: word_unat_eq_iff unat_countdown)
  ultimately show ?thesis
    using b unfolding funpow_tick by (simp add: algebra_simps)
qed

theorem cdt_delay_waits_witness:
  "\<exists>s'. cdt_delay 10 (boot_soc []) = Some s' \<and> cdt_reg s' = 0 \<and> 11 \<le> cycles s' \<and> cycles s' \<le> 12 \<and>
        s'\<lparr>cdt_reg := 0, cycles := 0\<rparr> = boot_soc []"
  using cdt_delay_waits [of "boot_soc []" 10] by (simp add: boot_soc_def)

text \<open>C21: The timer's write functions refine one abstract operation,
  \<open>reg_write k w v\<close>, "replace the \<open>w\<close> bytes of the counter starting at byte
  \<open>k\<close> by the low bytes of \<open>v\<close>": each byte, half-word and word writer replaces
  exactly its bytes of the counter as it stands at the access.\<close>

theorem cdt_writes_refine_reg_write:
  "cdt_reg (cdt_wbyte0 b s) = reg_write 0 1 (ucast b) (countdown (cdt_dt s) (cdt_reg s)) \<and>
   cdt_reg (cdt_wbyte1 b s) = reg_write 1 1 (ucast b) (countdown (cdt_dt s) (cdt_reg s)) \<and>
   cdt_reg (cdt_wbyte2 b s) = reg_write 2 1 (ucast b) (countdown (cdt_dt s) (cdt_reg s)) \<and>
   cdt_reg (cdt_wbyte3 b s) = reg_write 3 1 (ucast b) (countdown (cdt_dt s) (cdt_reg s)) \<and>
   cdt_reg (cdt_whalf0 h s) = reg_write 0 2 (ucast h) (countdown (cdt_dt s) (cdt_reg s)) \<and>
   cdt_reg (cdt_whalf2 h s) = reg_write 2 2 (ucast h) (countdown (cdt_dt s) (cdt_reg s)) \<and>
   cdt_reg (cdt_write v s) = reg_write 0 4 v (countdown (cdt_dt s) (cdt_reg s))"
proof -
  have "reg_write 0 4 v w = v" for w
    by (rule bit_word_eqI) (auto simp: reg_write_def bit_simps)
  then show ?thesis
    using set_byte_pair_reg_write [of 0 h] set_byte_pair_reg_write [of 2 h]
    by (simp add: cdt_wbyte0_def cdt_wbyte1_def cdt_wbyte2_def cdt_wbyte3_def cdt_whalf0_def cdt_whalf2_def
                  cdt_write_def store8_cdt store16_cdt store32_cdt set_byte_reg_write tick_fields)
qed

end
