(* ===== verification/Leds.thy ===== *)
theory Leds
  imports Soc
begin

text \<open>
  The two LED drivers: \<open>src/c_code/leds.c\<close> (the eight board LEDs, one byte
  register at \<open>0x80000000\<close>) and \<open>src/c_code/ws2812b.c\<close> (the RGB LED, a
  word register at \<open>0x80000020\<close>). Each function is one bus access.
\<close>

definition set_leds :: "byte \<Rightarrow> soc \<Rightarrow> soc" where
  "set_leds val s = store8 LEDS_ADDR val s"

definition get_leds :: "soc \<Rightarrow> byte \<times> soc" where
  "get_leds s = load8 LEDS_ADDR s"

definition set_ws2812b :: "u32 \<Rightarrow> soc \<Rightarrow> soc" where
  "set_ws2812b val s = store32 RGB_LED_ADDR val s"

lemma set_leds_state [soc_simps]: "set_leds v s = (tick s)\<lparr>leds_reg := v\<rparr>"
  by (simp add: set_leds_def store8_leds)

lemma get_leds_state [soc_simps]: "get_leds s = (leds_reg s, tick s)"
  by (simp add: get_leds_def load8_leds)

lemma set_ws2812b_state [soc_simps]: "set_ws2812b v s = (tick s)\<lparr>rgb_reg := v\<rparr>"
  by (simp add: set_ws2812b_def store32_rgb)

end
