(* ===== verification/Firmware_Tests.thy ===== *)
theory Firmware_Tests
  imports Uart Countdown_Timer Leds
begin

text \<open>
  The self tests of \<open>src/c_code/main.c\<close>: \<open>mem_test\<close>, \<open>endian_test\<close>,
  \<open>uart_rx_test\<close>, \<open>la_wtest\<close>, \<open>la_rtest\<close> and \<open>cdt_test\<close>, each a function
  on the bus state. Addresses the C code takes from the linker or the stack
  (the array \<open>mem\<close>, the \<open>volatile\<close> locals) are parameters. Accesses through
  \<open>volatile\<close> pointers and to the global array \<open>mem\<close> are bus accesses; the
  constant table \<open>test_vals\<close> and non-volatile locals are values. Since
  \<open>mem\<close> is not \<open>volatile\<close>, C lets a compiler skip the read-back of a
  word just stored; the model performs every read, so only the behaviour on
  working SRAM is stated as a property, not the detection of faults.
  \<open>fill_errors\<close> is the reference count of words that do not read back
  after a fill, given the SRAM's fault map.
\<close>

subsection \<open>Text\<close>

definition crlf :: string where
  "crlf = [CHR 0x0D, CHR 0x0A]"

subsection \<open>Memory test\<close>

definition MEMSIZE :: nat where
  "MEMSIZE = 512"

definition test_vals :: "u32 list" where
  "test_vals = [0, 0xffffffff, 0xaaaaaaaa, 0x55555555, 0xdeadbeef]"

function fill_loop :: "u32 \<Rightarrow> (nat \<Rightarrow> u32) \<Rightarrow> nat \<Rightarrow> soc \<Rightarrow> soc" where
  "fill_loop mem f i s =
     (if i < MEMSIZE then fill_loop mem f (i + 1) (store32 (mem + 4 * of_nat i) (f i) s) else s)"
  by pat_completeness auto
termination by (relation "measure (\<lambda>(_, _, i, _). MEMSIZE - i)") auto

declare fill_loop.simps [simp del]

function check_loop :: "u32 \<Rightarrow> (nat \<Rightarrow> u32) \<Rightarrow> nat \<Rightarrow> nat \<Rightarrow> soc \<Rightarrow> nat \<times> soc" where
  "check_loop mem f i errors s =
     (if i < MEMSIZE then
        (let (val_read, s1) = load32 (mem + 4 * of_nat i) s
         in check_loop mem f (i + 1) (if val_read \<noteq> f i then errors + 1 else errors) s1)
      else (errors, s))"
  by pat_completeness auto
termination by (relation "measure (\<lambda>(_, _, i, _, _). MEMSIZE - i)") auto

declare check_loop.simps [simp del]

function test_loop :: "u32 \<Rightarrow> nat \<Rightarrow> nat \<Rightarrow> soc \<Rightarrow> nat \<times> soc" where
  "test_loop mem test errors s =
     (if test < length test_vals then
        (let s1 = fill_loop mem (\<lambda>_. test_vals ! test) 0 s;
             (errors1, s2) = check_loop mem (\<lambda>_. test_vals ! test) 0 errors s1
         in test_loop mem (test + 1) errors1 s2)
      else (errors, s))"
  by pat_completeness auto
termination by (relation "measure (\<lambda>(_, test, _, _). length test_vals - test)") auto

declare test_loop.simps [simp del]

text \<open>The second pattern, \<open>i + (i << 17)\<close>: an \<open>int\<close> expression that does not
  overflow for \<open>i < 512\<close>, converted to \<open>unsigned int\<close> when stored.\<close>

definition addr_pattern :: "nat \<Rightarrow> u32" where
  "addr_pattern i = of_nat (i + i * 2 ^ 17)"

definition mem_test :: "u32 \<Rightarrow> soc \<Rightarrow> int \<times> soc" where
  "mem_test mem s =
     (let (errors, s1) = test_loop mem 0 0 s;
          s2 = fill_loop mem addr_pattern 0 s1;
          (errors', s3) = check_loop mem addr_pattern 0 errors s2
      in (int errors', s3))"

subsection \<open>Endianness test\<close>

definition endian_test :: "u32 \<Rightarrow> soc \<Rightarrow> soc option" where
  "endian_test addr s0 =
     (let s1 = store32 addr 0 s0;
          s2 = store32 addr 0x44332211 s1;
          (byte0, s3) = load8 addr s2;
          (byte3, s4) = load8 (addr + 3) s3;
          s5 = store8 (addr + 3) 0xab s4;
          (i, s6) = load32 addr s5;
          ok = (byte0 = 0x11 \<and> byte3 = 0x44 \<and> i = 0xab332211)
      in do {
           s7 \<leftarrow> uart_puts (cstr (crlf @ ''Endian test: at '')) s6;
           s8 \<leftarrow> uart_puts (cstr '', byte0: '') (uart_print_hex addr s7);
           s9 \<leftarrow> uart_puts (cstr '', byte3: '') (uart_print_hex (ucast byte0) s8);
           s10 \<leftarrow> uart_puts (cstr ('','' @ crlf @ ''     word: '')) (uart_print_hex (ucast byte3) s9);
           if ok then uart_puts (cstr ('' [PASSED]'' @ crlf)) (uart_print_hex i s10)
           else uart_puts (cstr ('' [FAILED]'' @ crlf)) (uart_print_hex i s10)
         })"

subsection \<open>UART receive test\<close>

fun rx_loop :: "nat \<Rightarrow> byte list \<Rightarrow> soc \<Rightarrow> (byte list \<times> soc) option" where
  "rx_loop 0 buf s = Some (buf, s)"
| "rx_loop (Suc n) buf s =
     do { (c, s1) \<leftarrow> uart_getchar s; rx_loop n (buf @ [c]) (uart_putchar c s1) }"

definition uart_rx_test :: "soc \<Rightarrow> soc option" where
  "uart_rx_test s0 =
     do {
       s1 \<leftarrow> uart_puts (cstr ''Type 4 characters (they will echo): '') s0;
       (buf, s2) \<leftarrow> rx_loop 4 [] s1;
       s3 \<leftarrow> uart_puts (cstr (crlf @ ''UART read: '')) s2;
       s4 \<leftarrow> uart_puts (buf @ [0]) s3;
       uart_puts (cstr crlf) s4
     }"


subsection \<open>Bus exercises for a logic analyser\<close>

definition la_wtest :: "u32 \<Rightarrow> soc \<Rightarrow> soc" where
  "la_wtest v s =
     store8 (v + 3) 0x00 (store8 (v + 2) 0x01 (store8 (v + 1) 0x02 (store8 v 0x03
       (store16 (v + 2) 0x0100 (store16 v 0x0302 (store32 v 0x03020100 s))))))"

definition la_rtest :: "u32 \<Rightarrow> soc \<Rightarrow> soc" where
  "la_rtest v s0 =
     (let s1 = store32 v 0x03020100 s0;
          s2 = snd (load32 v s1);
          s3 = snd (load16 v s2);
          s4 = snd (load16 (v + 2) s3);
          s5 = snd (load8 v s4);
          s6 = snd (load8 (v + 1) s5);
          s7 = snd (load8 (v + 2) s6)
      in snd (load8 (v + 3) s7))"

subsection \<open>Countdown timer test\<close>

definition cdt_test :: "soc \<Rightarrow> soc option" where
  "cdt_test s0 =
     (let s1 = cdt_wbyte3 0xff s0;
          (val, s2) = cdt_read s1;
          test_errors = (if val = 0xff000000 \<or> val < 0xfe000000 then 1 else 0) :: u32;
          s3 = cdt_whalf2 0 s2;
          (val', s4) = cdt_read s3;
          test_errors' = (if val' > 0xffff then test_errors OR 2 else test_errors)
      in do {
           s5 \<leftarrow> uart_puts (cstr ''Countdown timer test '') s4;
           if test_errors' \<noteq> 0 then
             do {
               s6 \<leftarrow> uart_puts (cstr ''FAILED, mask = '') s5;
               uart_puts (cstr crlf) (uart_print_hex test_errors' s6)
             }
           else uart_puts (cstr (''PASSED'' @ crlf)) s5
         })"

subsection \<open>Reference definitions for the memory test\<close>

definition region_in_ram :: "u32 \<Rightarrow> bool" where
  "region_in_ram mem \<longleftrightarrow> unat mem + 4 * MEMSIZE \<le> 0x80000000"

definition filled :: "u32 \<Rightarrow> (nat \<Rightarrow> u32) \<Rightarrow> nat \<Rightarrow> (u32 \<Rightarrow> byte) \<Rightarrow> u32 \<Rightarrow> byte" where
  "filled mem f i m a =
     (let n = unat (a - mem) in if 4 * i \<le> n \<and> n < 4 * MEMSIZE then byte_of (n mod 4) (f (n div 4)) else m a)"

definition word_at :: "soc \<Rightarrow> u32 \<Rightarrow> u32" where
  "word_at s a = le_word [ram_rd s a, ram_rd s (a + 1), ram_rd s (a + 2), ram_rd s (a + 3)]"

definition fill_errors :: "soc \<Rightarrow> u32 \<Rightarrow> (nat \<Rightarrow> u32) \<Rightarrow> nat" where
  "fill_errors s mem f =
     length (filter (\<lambda>j. le_word (map (\<lambda>k. ram_fault s (mem + of_nat (4 * j + k)) (byte_of k (f j))) [0..<4]) \<noteq> f j)
                    [0..<MEMSIZE])"

definition region_works :: "soc \<Rightarrow> u32 \<Rightarrow> bool" where
  "region_works s mem \<longleftrightarrow> (\<forall>n < 4 * MEMSIZE. ram_fault s (mem + of_nat n) = id)"

subsection \<open>Bus exercises and the endianness test\<close>

lemma endian_consts:
  "byte_of 0 (0x44332211::u32) = 0x11" "byte_of (Suc 0) (0x44332211::u32) = 0x22"
  "byte_of 2 (0x44332211::u32) = 0x33" "byte_of 3 (0x44332211::u32) = 0x44"
  "le_word [0x11, 0x22, 0x33, 0xab] = (0xab332211 :: u32)" "le_word [3, 2, 1, 0] = (0x00010203 :: u32)"
  by (simp_all add: byte_of_def le_word_def set_byte_def mask_numeral)

subsection \<open>Countdown timer test\<close>

lemma clear_high_half: "set_byte 3 0 (set_byte 2 0 (w::u32)) = take_bit 16 w"
proof (rule bit_word_eqI)
  fix n assume "n < LENGTH(32)"
  then show "bit (set_byte 3 0 (set_byte 2 0 w)) n = bit (take_bit 16 w) n"
    by (cases "n < 16") (auto simp: set_byte_def bit_simps)
qed

lemma cdt_test_half_check: "\<not> countdown n (set_byte 3 0 (set_byte 2 0 (w::u32))) > 0xffff"
proof -
  have "unat (take_bit 16 w) < 65536"
    by (simp only: unsigned_take_bit_eq) (simp add: take_bit_eq_mod)
  then have "unat (countdown n (set_byte 3 0 (set_byte 2 0 w))) < 65536"
    using countdown_le [of n "set_byte 3 0 (set_byte 2 0 w)"] by (simp add: clear_high_half)
  then show ?thesis
    by (simp add: word_less_nat_alt)
qed

lemma cdt_test_run:
  "\<exists>s'. cdt_test s = Some s' \<and>
     uart_tx s' = uart_tx s @ map of_char ''Countdown timer test '' @
       (let val = countdown (cdt_dt s) (set_byte 3 0xff (countdown (cdt_dt s) (cdt_reg s)))
        in if val = 0xff000000 \<or> val < 0xfe000000
           then map of_char ''FAILED, mask = '' @ hex_text 1 @ map of_char crlf
           else map of_char (''PASSED'' @ crlf))"
  using cdt_test_half_check
  by (simp add: cdt_test_def cdt_wbyte3_def cdt_read_def cdt_whalf2_def store8_cdt load32_cdt store16_cdt
                tick_fields byte_of_def Let_def uart_puts_cstr uart_print_hex_run crlf_def)

lemma set_byte_3_ff_0: "set_byte 3 0xff (0::u32) = 0xff000000"
  by (simp add: set_byte_def mask_numeral)

subsection \<open>UART receive test\<close>

lemma rx_loop_run:
  "\<forall>c \<in> set cs. c \<noteq> 0xff \<Longrightarrow> uart_rx s = cs @ rest \<Longrightarrow>
   rx_loop (length cs) buf s = Some (buf @ cs, ((tick ^^ (2 * length cs)) s)\<lparr>uart_rx := rest, uart_tx := uart_tx s @ cs\<rparr>)"
proof (induction cs arbitrary: buf s)
  case Nil
  then show ?case by (simp add: funpow_tick countdown_0)
next
  case (Cons c cs)
  have "uart_getchar s = Some (c, ((tick ^^ 1) s)\<lparr>uart_rx := cs @ rest\<rparr>)"
    using uart_getchar_some [of s 0 c "cs @ rest"] Cons.prems by simp
  then show ?case
    using Cons.IH [where buf = "buf @ [c]" and s = "uart_putchar c (((tick ^^ 1) s)\<lparr>uart_rx := cs @ rest\<rparr>)"] Cons.prems
    unfolding funpow_tick
    by (simp add: uart_putchar_tx tick_def countdown_add algebra_simps)
qed

subsection \<open>Memory test\<close>

lemma region_is_ram: "region_in_ram mem \<Longrightarrow> n < 4 * MEMSIZE \<Longrightarrow> is_ram (mem + of_nat n)"
proof -
  assume r: "region_in_ram mem" and n: "n < 4 * MEMSIZE"
  then have "unat mem + n < 0x80000000" by (simp add: region_in_ram_def MEMSIZE_def)
  moreover have "unat (of_nat n :: u32) = n" using n by (simp add: MEMSIZE_def unat_of_nat)
  ultimately show ?thesis
    by (simp add: is_ram_def word_less_nat_alt unat_add_lem [THEN iffD1])
qed

lemma offset_eq: "n < 4 * MEMSIZE \<Longrightarrow> (a::u32) = mem + of_nat n \<longleftrightarrow> unat (a - mem) = n"
proof
  assume "n < 4 * MEMSIZE" "a = mem + of_nat n"
  then show "unat (a - mem) = n" by (simp add: MEMSIZE_def unat_of_nat)
next
  assume n: "n < 4 * MEMSIZE" and "unat (a - mem) = n"
  then have "unat (a - mem) = unat (of_nat n :: u32)" by (simp add: MEMSIZE_def unat_of_nat)
  then have "a - mem = of_nat n" by (simp only: word_unat_eq_iff)
  then show "a = mem + of_nat n" by (simp add: algebra_simps)
qed

lemma filled_step:
  assumes "i < MEMSIZE"
  shows "filled mem f (i + 1) ((ram s)(mem + 4 * of_nat i := byte_of 0 (f i), mem + 4 * of_nat i + 1 := byte_of 1 (f i),
           mem + 4 * of_nat i + 2 := byte_of 2 (f i), mem + 4 * of_nat i + 3 := byte_of 3 (f i))) =
         filled mem f i (ram s)"
proof
  fix a
  let ?n = "unat (a - mem)"
  have addr: "mem + 4 * of_nat i + of_nat k = mem + of_nat (4 * i + k)" for k
    by simp
  have eqk: "a = mem + 4 * of_nat i + of_nat k \<longleftrightarrow> ?n = 4 * i + k" if "k < 4" for k
    using offset_eq [of "4 * i + k" a mem] that assms addr [of k] by (simp add: add.assoc)
  have dm: "(4 * i + k) div 4 = i" "(4 * i + k) mod 4 = k" if "k < 4" for k
    using that by simp_all
  show "filled mem f (i + 1) ((ram s)(mem + 4 * of_nat i := byte_of 0 (f i), mem + 4 * of_nat i + 1 := byte_of 1 (f i),
           mem + 4 * of_nat i + 2 := byte_of 2 (f i), mem + 4 * of_nat i + 3 := byte_of 3 (f i))) a =
         filled mem f i (ram s) a"
    using eqk [of 0] eqk [of 1] eqk [of 2] eqk [of 3] assms dm [of 1] dm [of 2] dm [of 3]
    by (auto simp: filled_def Let_def MEMSIZE_def)
qed

lemma filled_none [simp]: "filled mem f MEMSIZE m = m"
  by (auto simp: filled_def fun_eq_iff Let_def)

lemma fill_loop_run:
  assumes "region_in_ram mem" "i \<le> MEMSIZE"
  shows "fill_loop mem f i s = ((tick ^^ (MEMSIZE - i)) s)\<lparr>ram := filled mem f i (ram s)\<rparr>"
  using assms(2)
proof (induction "MEMSIZE - i" arbitrary: i s)
  case 0
  then have "i = MEMSIZE" by simp
  then show ?case by (simp add: fill_loop.simps)
next
  case (Suc n)
  then have i: "i < MEMSIZE" by simp
  have ram: "is_ram (mem + 4 * of_nat i)"
    using region_is_ram [OF assms(1), of "4 * i"] i by simp
  let ?s1 = "store32 (mem + 4 * of_nat i) (f i) s"
  have "fill_loop mem f i s = fill_loop mem f (i + 1) ?s1"
    using i by (simp add: fill_loop.simps [of mem f i])
  also have "\<dots> = ((tick ^^ (MEMSIZE - (i + 1))) ?s1)\<lparr>ram := filled mem f (i + 1) (ram ?s1)\<rparr>"
    using Suc.hyps(1) [of "i + 1"] Suc.hyps(2) i by simp
  also have "\<dots> = ((tick ^^ (MEMSIZE - i)) s)\<lparr>ram := filled mem f i (ram s)\<rparr>"
  proof -
    have s1: "?s1 = (tick s)\<lparr>ram := (ram s)(mem + 4 * of_nat i := byte_of 0 (f i), mem + 4 * of_nat i + 1 := byte_of 1 (f i),
           mem + 4 * of_nat i + 2 := byte_of 2 (f i), mem + 4 * of_nat i + 3 := byte_of 3 (f i))\<rparr>"
      by (simp add: store32_ram [OF ram] tick_def)
    have f: "filled mem f (i + 1) (ram ?s1) = filled mem f i (ram s)"
      unfolding s1 using filled_step [OF i, of mem f s] by simp
    have m: "MEMSIZE - i = Suc (MEMSIZE - (i + 1))"
      using i by simp
    show ?thesis
      unfolding f
      unfolding s1 m funpow_tick
      by (simp add: tick_def countdown_add algebra_simps)
  qed
  finally show ?case .
qed

lemma word_at_tick [simp]: "word_at (tick s) a = word_at s a"
  by (simp add: word_at_def ram_rd_def tick_fields)

lemma check_loop_run:
  assumes "region_in_ram mem" "i \<le> MEMSIZE"
  shows "check_loop mem f i e s =
           (e + length (filter (\<lambda>j. word_at s (mem + 4 * of_nat j) \<noteq> f j) [i..<MEMSIZE]), (tick ^^ (MEMSIZE - i)) s)"
  using assms(2)
proof (induction "MEMSIZE - i" arbitrary: i e s)
  case 0
  then have "i = MEMSIZE" by simp
  then show ?case by (simp add: check_loop.simps)
next
  case (Suc n)
  then have i: "i < MEMSIZE" by simp
  have ram: "is_ram (mem + 4 * of_nat i)"
    using region_is_ram [OF assms(1), of "4 * i"] i by simp
  have ld: "load32 (mem + 4 * of_nat i) s = (word_at s (mem + 4 * of_nat i), tick s)"
    by (simp add: load32_ram [OF ram] word_at_def ram_rd_def tick_fields)
  have up: "[i..<MEMSIZE] = i # [Suc i..<MEMSIZE]"
    using i by (simp add: upt_conv_Cons)
  have m: "MEMSIZE - i = Suc (MEMSIZE - (i + 1))"
    using i by simp
  show ?case
    using Suc.hyps(1) [of "i + 1"] Suc.hyps(2) i
    by (simp add: check_loop.simps [of mem f i] ld up m funpow_Suc_right del: funpow.simps)
qed

lemma word_at_filled:
  assumes "region_in_ram mem" "j < MEMSIZE" "ram s' = filled mem f 0 (ram s)" "ram_fault s' = ram_fault s"
  shows "word_at s' (mem + 4 * of_nat j) =
           le_word (map (\<lambda>k. ram_fault s (mem + of_nat (4 * j + k)) (byte_of k (f j))) [0..<4])"
proof -
  have cell: "ram s' (mem + of_nat (4 * j + k)) = byte_of k (f j)" if "k < 4" for k
  proof -
    have "unat (of_nat (4 * j + k) :: u32) = 4 * j + k"
      using assms(2) that by (simp add: MEMSIZE_def unat_of_nat del: of_nat_add of_nat_mult)
    then show ?thesis
      using assms(2,3) that by (simp add: filled_def Let_def)
  qed
  have a: "mem + 4 * of_nat j + of_nat k = mem + of_nat (4 * j + k)" for k
    by simp
  have u: "[0..<4] = [0::nat, 1, 2, 3]"
    by (simp add: upt_rec)
  show ?thesis
    using cell [of 0] cell [of 1] cell [of 2] cell [of 3] assms(4)
    by (simp add: word_at_def ram_rd_def u ac_simps)
qed

lemma fill_errors_cong: "ram_fault s' = ram_fault s \<Longrightarrow> fill_errors s' mem f = fill_errors s mem f"
  by (simp add: fill_errors_def)

lemma filled_filled [simp]: "filled mem f 0 (filled mem g 0 m) = filled mem f 0 m"
  by (simp add: filled_def fun_eq_iff Let_def)

lemma fill_check_run:
  assumes "region_in_ram mem"
  shows "check_loop mem f 0 e (fill_loop mem f 0 s) =
           (e + fill_errors s mem f, ((tick ^^ (2 * MEMSIZE)) s)\<lparr>ram := filled mem f 0 (ram s)\<rparr>)"
proof -
  let ?s1 = "((tick ^^ MEMSIZE) s)\<lparr>ram := filled mem f 0 (ram s)\<rparr>"
  have f: "fill_loop mem f 0 s = ?s1"
    using fill_loop_run [OF assms, of 0 f s] by simp
  have c: "check_loop mem f 0 e ?s1 =
            (e + length (filter (\<lambda>j. word_at ?s1 (mem + 4 * of_nat j) \<noteq> f j) [0..<MEMSIZE]), (tick ^^ (MEMSIZE - 0)) ?s1)"
    by (rule check_loop_run [OF assms]) simp
  have filt: "filter (\<lambda>j. word_at ?s1 (mem + 4 * of_nat j) \<noteq> f j) [0..<MEMSIZE] =
        filter (\<lambda>j. le_word (map (\<lambda>k. ram_fault s (mem + of_nat (4 * j + k)) (byte_of k (f j))) [0..<4]) \<noteq> f j) [0..<MEMSIZE]"
    by (rule filter_cong [OF refl]) (simp add: word_at_filled [OF assms])
  have st: "(tick ^^ (MEMSIZE - 0)) ?s1 = ((tick ^^ (2 * MEMSIZE)) s)\<lparr>ram := filled mem f 0 (ram s)\<rparr>"
    by (simp add: funpow_tick_ram funpow_tick_tick mult_2)
  show ?thesis
    unfolding f c filt st by (simp add: fill_errors_def)
qed

lemma test_loop_run:
  assumes "region_in_ram mem" "t \<le> length test_vals"
  shows "test_loop mem t e s =
           (e + sum_list (map (\<lambda>t'. fill_errors s mem (\<lambda>_. test_vals ! t')) [t..<length test_vals]),
            ((tick ^^ ((length test_vals - t) * (2 * MEMSIZE))) s)
              \<lparr>ram := if t < length test_vals then filled mem (\<lambda>_. test_vals ! (length test_vals - 1)) 0 (ram s) else ram s\<rparr>)"
  using assms(2)
proof (induction "length test_vals - t" arbitrary: t e s)
  case 0
  then have "t = length test_vals" by simp
  then show ?case by (simp add: test_loop.simps)
next
  case (Suc n)
  then have t: "t < length test_vals" by simp
  let ?s2 = "((tick ^^ (2 * MEMSIZE)) s)\<lparr>ram := filled mem (\<lambda>_. test_vals ! t) 0 (ram s)\<rparr>"
  have step: "test_loop mem t e s = test_loop mem (t + 1) (e + fill_errors s mem (\<lambda>_. test_vals ! t)) ?s2"
    using t by (simp add: test_loop.simps [of mem t] fill_check_run [OF assms(1)])
  have fe: "fill_errors ?s2 mem g = fill_errors s mem g" for g
    by (rule fill_errors_cong) (simp add: funpow_tick)
  have up: "[t..<length test_vals] = t # [Suc t..<length test_vals]"
    using t by (simp add: upt_conv_Cons)
  have "length test_vals - t = Suc (length test_vals - (t + 1))"
    using t by simp
  then have m: "(length test_vals - t) * (2 * MEMSIZE) = (length test_vals - (t + 1)) * (2 * MEMSIZE) + 2 * MEMSIZE"
    by simp
  have last: "\<not> Suc t < length test_vals \<Longrightarrow> length test_vals - Suc 0 = t"
    using t by simp
  show ?case
    using Suc.hyps(1) [of "t + 1"] Suc.hyps(2) t
    unfolding step m
    by (cases "Suc t < length test_vals") (auto simp: fe up last funpow_tick_ram funpow_tick_tick)
qed

lemma mem_test_run:
  assumes "region_in_ram mem"
  shows "mem_test mem s =
           (int (sum_list (map (\<lambda>t. fill_errors s mem (\<lambda>_. test_vals ! t)) [0..<length test_vals]) +
                 fill_errors s mem addr_pattern),
            ((tick ^^ (12 * MEMSIZE)) s)\<lparr>ram := filled mem addr_pattern 0 (ram s)\<rparr>)"
proof -
  let ?s1 = "((tick ^^ (10 * MEMSIZE)) s)\<lparr>ram := filled mem (\<lambda>_. test_vals ! 4) 0 (ram s)\<rparr>"
  have t: "test_loop mem 0 0 s = (sum_list (map (\<lambda>t. fill_errors s mem (\<lambda>_. test_vals ! t)) [0..<length test_vals]), ?s1)"
    using test_loop_run [OF assms, of 0 0 s] by (simp add: test_vals_def)
  have fe: "fill_errors ?s1 mem addr_pattern = fill_errors s mem addr_pattern"
    by (rule fill_errors_cong) (simp add: funpow_tick)
  show ?thesis
    using fill_check_run [OF assms, of addr_pattern _ ?s1] fe
    by (simp add: mem_test_def t funpow_tick_ram funpow_tick_tick)
qed

lemma fill_errors_working: "region_works s mem \<Longrightarrow> fill_errors s mem f = 0"
proof -
  assume w: "region_works s mem"
  have "le_word (map (\<lambda>k. ram_fault s (mem + of_nat (4 * j + k)) (byte_of k (f j))) [0..<4]) = f j"
    if "j < MEMSIZE" for j
  proof -
    have "map (\<lambda>k. ram_fault s (mem + of_nat (4 * j + k)) (byte_of k (f j))) [0..<4] = map (\<lambda>k. byte_of k (f j)) [0..<4]"
    proof (rule map_cong [OF refl])
      fix k assume "k \<in> set [0..<4]"
      then have "4 * j + k < 4 * MEMSIZE" using \<open>j < MEMSIZE\<close> by simp
      then have "ram_fault s (mem + of_nat (4 * j + k)) = id"
        using w unfolding region_works_def by blast
      then show "ram_fault s (mem + of_nat (4 * j + k)) (byte_of k (f j)) = byte_of k (f j)"
        by simp
    qed
    then show ?thesis by (simp only: le_word_map_bytes)
  qed
  then show ?thesis
    by (simp add: fill_errors_def filter_empty_conv)
qed

lemma fill_errors_le: "fill_errors s mem f \<le> MEMSIZE"
  using length_filter_le [of _ "[0..<MEMSIZE]"] by (simp add: fill_errors_def)

lemma sum_list_le_bound: "(\<And>x. g x \<le> c) \<Longrightarrow> sum_list (map g xs) \<le> length xs * (c::nat)"
  by (induction xs) (auto simp: add_mono)

subsection \<open>Properties of the self tests\<close>

text \<open>C22: On working SRAM, \<open>mem_test\<close> counts no error and leaves the array
  holding its last pattern \<open>i + (i << 17)\<close>, after 12 bus accesses per word.\<close>

theorem mem_test_passes:
  assumes "region_in_ram mem" "region_works s mem"
  shows "mem_test mem s = (0, ((tick ^^ (12 * MEMSIZE)) s)\<lparr>ram := filled mem addr_pattern 0 (ram s)\<rparr>)"
  using mem_test_run [OF assms(1)] fill_errors_working [OF assms(2)] by simp

theorem mem_test_passes_witness:
  "fst (mem_test 0x1000 (boot_soc [])) = 0"
proof -
  have "region_in_ram 0x1000" by (simp add: region_in_ram_def MEMSIZE_def)
  moreover have "region_works (boot_soc []) 0x1000" by (simp add: region_works_def boot_soc_def)
  ultimately show ?thesis using mem_test_passes by simp
qed

text \<open>C23: The error count of \<open>mem_test\<close> lies between 0 and 6 * 512, so
  the \<open>int\<close> counter \<open>errors\<close> never overflows.\<close>

theorem mem_test_bounds:
  assumes "region_in_ram mem"
  shows "0 \<le> fst (mem_test mem s) \<and> fst (mem_test mem s) \<le> 6 * int MEMSIZE"
proof -
  have "sum_list (map (\<lambda>t. fill_errors s mem (\<lambda>_. test_vals ! t)) [0..<length test_vals]) \<le> length [0..<length test_vals] * MEMSIZE"
    by (rule sum_list_le_bound) (rule fill_errors_le)
  then have "sum_list (map (\<lambda>t. fill_errors s mem (\<lambda>_. test_vals ! t)) [0..<length test_vals]) \<le> 5 * MEMSIZE"
    by (simp add: test_vals_def)
  then show ?thesis
    using mem_test_run [OF assms, of s] fill_errors_le [of s mem addr_pattern] by simp
qed

theorem mem_test_bounds_witness: "0 \<le> fst (mem_test 0x1000 (boot_soc [])) \<and> fst (mem_test 0x1000 (boot_soc [])) \<le> 3072"
proof -
  have "region_in_ram 0x1000" by (simp add: region_in_ram_def MEMSIZE_def)
  then show ?thesis
    using mem_test_bounds [of "0x1000" "boot_soc []"] by (simp add: MEMSIZE_def)
qed

text \<open>C24: On a working little-endian SRAM word, \<open>endian_test\<close> reads byte 0
  as 0x11 and byte 3 as 0x44 of the stored 0x44332211, reads back 0xab332211
  after the byte store, and reports PASSED with those values.\<close>

theorem endian_test_passes:
  assumes "word_ok s a"
  shows "\<exists>s'. endian_test a s = Some s' \<and> ram_word s' a = 0xab332211 \<and>
     uart_tx s' = uart_tx s @ map of_char (crlf @ ''Endian test: at '') @ hex_text a @ map of_char '', byte0: '' @
       hex_text 0x11 @ map of_char '', byte3: '' @ hex_text 0x44 @ map of_char ('','' @ crlf @ ''     word: '') @
       hex_text 0xab332211 @ map of_char ('' [PASSED]'' @ crlf)"
proof -
  have e: "a + 3 \<noteq> a" "a + 3 \<noteq> a + 1" "a + 3 \<noteq> a + 2" by simp_all
  show ?thesis
    using word_ok_bytes [OF assms] word_ok_ram [OF assms] assms e
    by (simp add: endian_test_def store32_ram byte_ok_load8 byte_ok_store8 word_ok_load32 tick_fields
                  endian_consts ram_word_def uart_puts_cstr uart_print_hex_run crlf_def Let_def)
qed

theorem endian_test_passes_witness:
  "\<exists>s'. endian_test 0x2000 (boot_soc []) = Some s' \<and> ram_word s' 0x2000 = 0xab332211 \<and>
     uart_tx s' = map of_char (crlf @ ''Endian test: at '') @ hex_text 0x2000 @ map of_char '', byte0: '' @
       hex_text 0x11 @ map of_char '', byte3: '' @ hex_text 0x44 @ map of_char ('','' @ crlf @ ''     word: '') @
       hex_text 0xab332211 @ map of_char ('' [PASSED]'' @ crlf)"
proof -
  have "word_ok (boot_soc []) 0x2000" by (simp add: word_ok_def boot_soc_def)
  then show ?thesis using endian_test_passes [of "boot_soc []" "0x2000"] by (simp add: boot_soc_def)
qed

text \<open>C25: From a counter at 0, \<open>cdt_test\<close> reports PASSED exactly when
  the timer runs (at most 2^24 cycles per bus access), and FAILED with mask 1
  when it is stopped; the half-word check (mask 2) never fails.\<close>

theorem cdt_test_detects_running_timer:
  assumes "cdt_reg s = 0" "cdt_dt s \<le> 2 ^ 24"
  shows "\<exists>s'. cdt_test s = Some s' \<and>
     uart_tx s' = uart_tx s @ map of_char ''Countdown timer test '' @
       (if 0 < cdt_dt s then map of_char (''PASSED'' @ crlf)
        else map of_char ''FAILED, mask = '' @ hex_text 1 @ map of_char crlf)"
proof -
  let ?val = "countdown (cdt_dt s) (set_byte 3 0xff (countdown (cdt_dt s) (cdt_reg s)))"
  have u: "unat ?val = 0xff000000 - cdt_dt s"
    using assms(1) by (simp add: unat_countdown set_byte_3_ff_0)
  have "?val = 0xff000000 \<longleftrightarrow> cdt_dt s = 0"
    using u assms(2) by (simp add: word_unat_eq_iff) arith
  moreover have "\<not> ?val < 0xfe000000"
    using u assms(2) by (simp add: word_less_nat_alt)
  ultimately show ?thesis
    using cdt_test_run [of s] by (auto simp: Let_def)
qed

theorem cdt_test_detects_running_timer_witness:
  "\<exists>s'. cdt_test (boot_soc []) = Some s' \<and>
     uart_tx s' = map of_char ''Countdown timer test '' @ map of_char (''PASSED'' @ crlf)"
  using cdt_test_detects_running_timer [of "boot_soc []"] by (simp add: boot_soc_def)

text \<open>\<open>uart_rx_test\<close> reads four characters, echoes each, and prints
  them back as a string: a typed NUL byte ends the printed string early.\<close>

theorem uart_rx_test_echoes:
  assumes "length cs = 4" "\<forall>c \<in> set cs. c \<noteq> 0xff" "uart_rx s = cs @ rest"
  shows "\<exists>s'. uart_rx_test s = Some s' \<and> uart_rx s' = rest \<and>
     uart_tx s' = uart_tx s @ map of_char ''Type 4 characters (they will echo): '' @ cs @
       map of_char (crlf @ ''UART read: '') @ takeWhile (\<lambda>c. c \<noteq> 0) cs @ map of_char crlf"
proof -
  have tw: "takeWhile (\<lambda>c. c \<noteq> 0) (cs @ [0]) = takeWhile (\<lambda>c. c \<noteq> 0) cs"
    by (induction cs) auto
  show ?thesis
    using rx_loop_run [of cs _ rest "[]"] assms uart_puts_nul [of "cs @ [0]"]
    by (simp add: uart_rx_test_def uart_puts_cstr crlf_def tw tick_fields)
qed

theorem uart_rx_test_echoes_witness:
  "\<exists>s'. uart_rx_test (boot_soc [0x61, 0, 0x62, 0x63]) = Some s' \<and> uart_rx s' = [] \<and>
     uart_tx s' = map of_char ''Type 4 characters (they will echo): '' @ [0x61, 0, 0x62, 0x63] @
       map of_char (crlf @ ''UART read: '') @ [0x61] @ map of_char crlf"
  using uart_rx_test_echoes [of "[0x61, 0, 0x62, 0x63]" "boot_soc [0x61, 0, 0x62, 0x63]" "[]"]
  by (simp add: boot_soc_def)

text \<open>\<open>la_wtest\<close> leaves the bytes 3, 2, 1, 0 at increasing addresses
  of its word (the little-endian word 0x00010203) and touches nothing else but
  the time.\<close>

theorem la_wtest_writes:
  assumes "word_ok s v"
  shows "ram (la_wtest v s) = (ram s)(v := 3, v + 1 := 2, v + 2 := 1, v + 3 := 0) \<and>
         la_wtest v s\<lparr>ram := ram s, cdt_reg := cdt_reg s, cycles := cycles s\<rparr> = s"
proof -
  have e: "v + 2 + 1 = v + 3" by simp
  show ?thesis
    using word_ok_bytes [OF assms] word_ok_ram [OF assms]
    by (auto simp: la_wtest_def byte_ok_store8 byte_ok_store16 store32_ram e tick_fields byte_of_def fun_eq_iff)
qed

theorem la_wtest_writes_witness:
  "ram (la_wtest 0x2000 (boot_soc [])) 0x2003 = 0"
proof -
  have "word_ok (boot_soc []) 0x2000" by (simp add: word_ok_def boot_soc_def)
  then show ?thesis using la_wtest_writes [of "boot_soc []" "0x2000"] by simp
qed

end
