(* ===== verification/Frames.thy ===== *)
theory Frames
  imports Firmware_Tests
begin

text \<open>
  Frame lemmas: which device registers each driver and self test leaves alone.
  \<open>same_devices s s'\<close> says the LED, UART divisor and RGB registers, the timer
  rate and the SRAM cells' behaviour are the same in both states; every
  routine that only prints, reads the UART, polls the timer or writes SRAM
  keeps them. The routines that do not read the UART also keep its receive
  queue, and the delay loop only advances time.
\<close>

definition same_devices :: "soc \<Rightarrow> soc \<Rightarrow> bool" where
  "same_devices s s' \<longleftrightarrow> leds_reg s' = leds_reg s \<and> uart_div_reg s' = uart_div_reg s \<and> rgb_reg s' = rgb_reg s \<and>
                          cdt_dt s' = cdt_dt s \<and> ram_fault s' = ram_fault s"

subsection \<open>Device registers\<close>

lemma same_devices_refl [simp]: "same_devices s s"
  by (simp add: same_devices_def)

lemma same_devices_trans [trans]: "same_devices s1 s2 \<Longrightarrow> same_devices s2 s3 \<Longrightarrow> same_devices s1 s3"
  by (simp add: same_devices_def)

lemma same_devices_tick [simp]: "same_devices s' (tick s) = same_devices s' s"
  by (simp add: same_devices_def tick_fields)

lemma same_devices_tick_left [simp]: "same_devices (tick s) s' = same_devices s s'"
  by (simp add: same_devices_def tick_fields)

lemma same_devices_upd [simp]:
  "same_devices s' (s\<lparr>ram := m\<rparr>) = same_devices s' s" "same_devices s' (s\<lparr>uart_tx := t\<rparr>) = same_devices s' s"
  "same_devices s' (s\<lparr>uart_rx := r\<rparr>) = same_devices s' s" "same_devices s' (s\<lparr>cdt_reg := c\<rparr>) = same_devices s' s"
  by (simp_all add: same_devices_def)

lemma same_devices_funpow [simp]: "same_devices s' ((tick ^^ n) s) = same_devices s' s"
  by (simp add: same_devices_def)

lemma same_devices_load:
  "same_devices s (snd (load8 a s))" "same_devices s (snd (load16 a s))" "same_devices s (snd (load32 a s))"
  by (auto simp: load8_def load16_def load32_def uart_data_rd_def Let_def split: list.split)

lemma same_devices_store_ram:
  "is_ram a \<Longrightarrow> same_devices s (store8 a v s)" "is_ram a \<Longrightarrow> same_devices s (store16 a w s)"
  "is_ram a \<Longrightarrow> same_devices s (store32 a x s)"
  using ram_not_io [of a] by (auto simp: store8_def store16_def store32_def Let_def)

lemma same_devices_store_io:
  "same_devices s (store8 UART_DATA_ADDR v s)" "in_cdt a \<Longrightarrow> same_devices s (store8 a v s)"
  "same_devices s (store16 CDT_ADDR w s)" "same_devices s (store16 (CDT_ADDR + 2) w s)"
  "same_devices s (store32 CDT_ADDR x s)"
  using io_not_ram by (auto simp: store8_def store16_def store32_def Let_def in_cdt_def addr_vals)

lemma same_devices_puts: "uart_puts bs s = Some s' \<Longrightarrow> same_devices s s'"
proof (induction bs arbitrary: s)
  case (Cons b bs)
  then show ?case
    using same_devices_store_io(1) [of s b] by (auto split: if_splits intro: same_devices_trans)
qed simp

lemma same_devices_print_hex: "same_devices s (uart_print_hex v s)"
  by (simp add: uart_print_hex_run)

lemma same_devices_print_hex_left [simp]: "same_devices (uart_print_hex v s) s' = same_devices s s'"
  by (simp add: uart_print_hex_run same_devices_def)

lemma same_devices_load_eq:
  "load8 a t = (v, t') \<Longrightarrow> same_devices t t'" "load16 a t = (w, t') \<Longrightarrow> same_devices t t'"
  "load32 a t = (x, t') \<Longrightarrow> same_devices t t'"
  using same_devices_load [of t a] by auto

lemma same_devices_getchar: "uart_getchar s = Some (c, s') \<Longrightarrow> same_devices s s'"
proof -
  assume r: "uart_getchar s = Some (c, s')"
  have "\<exists>c \<in> set (uart_rx s). c \<noteq> 0xff"
    using r by (rule uart_getchar_returns_data)
  then obtain n d cs where "uart_rx s = replicate n 0xff @ d # cs" "d \<noteq> 0xff"
    by (rule uart_rx_first_data)
  then have "uart_getchar s = Some (d, ((tick ^^ Suc n) s)\<lparr>uart_rx := cs\<rparr>)"
    by (rule uart_getchar_some)
  with r have "s' = ((tick ^^ Suc n) s)\<lparr>uart_rx := cs\<rparr>"
    by simp
  then show ?thesis
    by (simp del: funpow.simps)
qed

lemma same_devices_putchar [simp]:
  "same_devices s' (uart_putchar c s) = same_devices s' s" "same_devices (uart_putchar c s) s' = same_devices s s'"
  by (simp_all add: uart_putchar_tx same_devices_def tick_fields)

lemma same_devices_get_hex_loop:
  assumes "get_hex_loop v s = Some y"
  shows "same_devices s (snd y)"
proof (rule get_hex_loop.raw_induct [where P = "\<lambda>v s y. same_devices s (snd y)", OF _ assms])
  fix loop v s y
  assume IH: "\<And>v s y. loop v s = Some y \<Longrightarrow> same_devices s (snd y)"
    and step: "uart_getchar s \<bind>
     (\<lambda>(ch, s1).
         if 0x30 \<le> ch \<and> ch \<le> 0x39 then loop (16 * v + (ucast ch - 0x30)) (uart_putchar ch s1)
         else if 0x61 \<le> ch \<and> ch \<le> 0x66 then loop (16 * v + (ucast ch - 0x61 + 10)) (uart_putchar ch s1)
         else if 0x41 \<le> ch \<and> ch \<le> 0x46 then loop (16 * v + (ucast ch - 0x41 + 10)) (uart_putchar ch s1)
         else if ch = 0x0d then Some (v, uart_putchar 0x0a s1)
         else loop v s1) = Some y"
  then obtain ch s1 where g: "uart_getchar s = Some (ch, s1)"
    by (cases "uart_getchar s") auto
  then have d: "same_devices s s1" by (rule same_devices_getchar)
  show "same_devices s (snd y)"
    using step g d by (auto split: if_splits dest!: IH intro: same_devices_trans)
qed

lemma same_devices_get_hex: "uart_get_hex s = Some (v, s') \<Longrightarrow> same_devices s s'"
  using same_devices_get_hex_loop [of 0 s "(v, s')"] by (simp add: uart_get_hex_def)

lemma same_devices_cdt_poll:
  assumes "cdt_poll s = Some s'"
  shows "same_devices s s'"
proof (rule cdt_poll.raw_induct [where P = "\<lambda>s s'. same_devices s s'", OF _ assms])
  fix poll s s'
  assume IH: "\<And>x y. poll x = Some y \<Longrightarrow> same_devices x y"
    and step: "(let (v, s1) = load32 CDT_ADDR s in if v \<noteq> 0 then poll s1 else Some s1) = Some s'"
  show "same_devices s s'"
    using step IH [of "tick s" s'] by (auto simp: load32_cdt split: if_splits)
qed

lemma same_devices_cdt_delay: "cdt_delay v s = Some s' \<Longrightarrow> same_devices s s'"
  using same_devices_cdt_poll [of "cdt_write v s" s'] same_devices_store_io(5) [of s v]
  by (auto simp: cdt_delay_def cdt_write_def intro: same_devices_trans)

lemma same_devices_set_div_delay:
  assumes "set_div_delay d s = Some s'" "is_ram d"
  shows "same_devices s s'"
proof -
  have "is_ram d \<longrightarrow> same_devices s s'"
  proof (rule set_div_delay.raw_induct [where P = "\<lambda>d s s'. is_ram d \<longrightarrow> same_devices s s'", OF _ assms(1)])
    fix loop d s s'
    assume IH: "\<And>d s s'. loop d s = Some s' \<Longrightarrow> is_ram d \<longrightarrow> same_devices s s'"
      and step: "(let (delay, s1) = load32 d s
                  in if sint delay < 200 then let (delay', s2) = load32 d s1 in loop d (store32 d (delay' + 1) s2)
                     else Some s1) = Some s'"
    show "is_ram d \<longrightarrow> same_devices s s'"
    proof
      assume r: "is_ram d"
      show "same_devices s s'"
      proof (cases "sint (fst (load32 d s)) < 200")
        case True
        let ?s2 = "store32 d (fst (load32 d (tick s)) + 1) (tick (tick s))"
        have "loop d ?s2 = Some s'"
          using step True by (simp add: load32_ram [OF r] Let_def)
        then have "same_devices ?s2 s'"
          using IH r by blast
        moreover have "same_devices s ?s2"
          using same_devices_store_ram(3) [OF r, of "tick (tick s)"] by simp
        ultimately show ?thesis
          by (rule same_devices_trans [rotated])
      next
        case False
        then show ?thesis
          using step by (auto simp: load32_ram [OF r] Let_def)
      qed
    qed
  qed
  with assms(2) show ?thesis by simp
qed

lemma same_devices_cdt_test: "cdt_test s = Some s' \<Longrightarrow> same_devices s s'"
  unfolding cdt_test_def cdt_wbyte3_def cdt_read_def cdt_whalf2_def
  by (auto simp: store8_cdt store16_cdt load32_cdt Let_def split: if_splits Option.bind_splits
           dest!: same_devices_puts) (auto simp: same_devices_def tick_fields)

lemma same_devices_endian_test:
  assumes "is_ram a" "is_ram (a + 3)" "endian_test a s = Some s'"
  shows "same_devices s s'"
  using assms(3) same_devices_store_ram [OF assms(1)] same_devices_store_ram [OF assms(2)]
  unfolding endian_test_def
  by (auto simp: Let_def split: prod.splits if_splits Option.bind_splits
           dest!: same_devices_puts same_devices_load_eq) (auto simp: same_devices_def)

lemma ram_word_addrs:
  assumes "a \<le> (0x7ffffffc :: u32)"
  shows "is_ram a" "is_ram (a + 1)" "is_ram (a + 2)" "is_ram (a + 3)"
proof -
  have u: "unat a \<le> 2147483644"
    using assms by (simp add: word_le_nat_alt)
  have k: "unat (a + of_nat k) = unat a + k" if "k \<le> 3" for k
  proof -
    have "unat a + unat (of_nat k :: u32) < 2 ^ LENGTH(32)"
      using that u by (simp add: unat_of_nat)
    then show ?thesis
      using that by (simp add: unat_add_lem [THEN iffD1] unat_of_nat)
  qed
  have r: "is_ram (a + of_nat k)" if "k \<le> 3" for k
    using k [OF that] that u by (simp add: is_ram_def word_less_nat_alt)
  show "is_ram a" using r [of 0] by simp
  show "is_ram (a + 1)" using r [of 1] by simp
  show "is_ram (a + 2)" using r [of 2] by simp
  show "is_ram (a + 3)" using r [of 3] by simp
qed

lemma same_devices_la_wtest:
  assumes "v \<le> 0x7ffffffc"
  shows "same_devices s (la_wtest v s)"
  using ram_word_addrs [OF assms]
  by (simp add: la_wtest_def same_devices_store_ram [unfolded same_devices_def] same_devices_def)

lemma same_devices_la_rtest:
  assumes "v \<le> 0x7ffffffc"
  shows "same_devices s (la_rtest v s)"
  using ram_word_addrs [OF assms]
  by (simp add: la_rtest_def same_devices_store_ram [unfolded same_devices_def]
                same_devices_load [unfolded same_devices_def] same_devices_def)

lemma same_devices_mem_test: "region_in_ram mem \<Longrightarrow> same_devices s (snd (mem_test mem s))"
  by (simp add: mem_test_run del: funpow.simps)

subsection \<open>The receive queue\<close>

lemma rx_store [simp]:
  "uart_rx (store8 a v s) = uart_rx s" "uart_rx (store16 a w s) = uart_rx s" "uart_rx (store32 a x s) = uart_rx s"
  by (simp_all add: store8_def store16_def store32_def Let_def tick_fields)

lemma rx_load [simp]:
  "uart_rx (snd (load16 a s)) = uart_rx s" "uart_rx (snd (load32 a s)) = uart_rx s"
  "a \<noteq> UART_DATA_ADDR \<Longrightarrow> uart_rx (snd (load8 a s)) = uart_rx s"
  by (simp_all add: load8_def load16_def load32_def Let_def tick_fields)

lemma rx_load_eq:
  "load16 a t = (w, t') \<Longrightarrow> uart_rx t' = uart_rx t" "load32 a t = (x, t') \<Longrightarrow> uart_rx t' = uart_rx t"
  "load8 a t = (v, t') \<Longrightarrow> a \<noteq> UART_DATA_ADDR \<Longrightarrow> uart_rx t' = uart_rx t"
  using rx_load [of a t] by auto

lemma rx_puts: "uart_puts bs s = Some s' \<Longrightarrow> uart_rx s' = uart_rx s"
  by (induction bs arbitrary: s) (auto split: if_splits)

lemma rx_print_hex [simp]: "uart_rx (uart_print_hex v s) = uart_rx s"
  by (simp add: uart_print_hex_run)

lemma rx_cdt_test: "cdt_test s = Some s' \<Longrightarrow> uart_rx s' = uart_rx s"
  unfolding cdt_test_def cdt_wbyte3_def cdt_read_def cdt_whalf2_def
  by (auto simp: store8_cdt store16_cdt load32_cdt Let_def tick_fields split: if_splits Option.bind_splits
           dest!: rx_puts)

lemma rx_endian_test:
  assumes "is_ram a" "is_ram (a + 3)" "endian_test a s = Some s'"
  shows "uart_rx s' = uart_rx s"
proof -
  have "a \<noteq> UART_DATA_ADDR" "a + 3 \<noteq> UART_DATA_ADDR"
    using assms(1,2) ram_not_io by auto
  with assms(3) show ?thesis
    unfolding endian_test_def
    by (auto simp: Let_def split: prod.splits if_splits Option.bind_splits dest!: rx_puts rx_load_eq)
qed

lemma rx_la_tests: "uart_rx (la_wtest v s) = uart_rx s" "v \<le> 0x7ffffffc \<Longrightarrow> uart_rx (la_rtest v s) = uart_rx s"
proof -
  show "uart_rx (la_wtest v s) = uart_rx s"
    by (simp add: la_wtest_def)
  assume "v \<le> 0x7ffffffc"
  then have "v \<noteq> UART_DATA_ADDR" "v + 1 \<noteq> UART_DATA_ADDR" "v + 2 \<noteq> UART_DATA_ADDR" "v + 3 \<noteq> UART_DATA_ADDR"
    using ram_word_addrs ram_not_io by blast+
  then show "uart_rx (la_rtest v s) = uart_rx s"
    by (simp add: la_rtest_def)
qed

lemma rx_mem_test: "region_in_ram mem \<Longrightarrow> uart_rx (snd (mem_test mem s)) = uart_rx s"
  by (simp add: mem_test_run del: funpow.simps)

lemma tx_bus [simp]:
  "uart_tx (store16 a w s) = uart_tx s" "uart_tx (store32 a x s) = uart_tx s"
  "uart_tx (snd (load8 a s)) = uart_tx s" "uart_tx (snd (load16 a s)) = uart_tx s" "uart_tx (snd (load32 a s)) = uart_tx s"
  "a \<noteq> UART_DATA_ADDR \<Longrightarrow> uart_tx (store8 a v s) = uart_tx s"
  by (simp_all add: store8_def store16_def store32_def load8_def load16_def load32_def uart_data_rd_def Let_def
                    tick_fields split: list.split)

lemma tx_la_tests:
  assumes "v \<le> 0x7ffffffc"
  shows "uart_tx (la_wtest v s) = uart_tx s" "uart_tx (la_rtest v s) = uart_tx s"
proof -
  have "v \<noteq> UART_DATA_ADDR" "v + 1 \<noteq> UART_DATA_ADDR" "v + 2 \<noteq> UART_DATA_ADDR" "v + 3 \<noteq> UART_DATA_ADDR"
    using ram_word_addrs [OF assms] ram_not_io by blast+
  then show "uart_tx (la_wtest v s) = uart_tx s" "uart_tx (la_rtest v s) = uart_tx s"
    by (simp_all add: la_wtest_def la_rtest_def)
qed

lemma cdt_poll_ticks:
  assumes "cdt_poll s = Some s'"
  shows "\<exists>n. s' = (tick ^^ n) s"
proof (rule cdt_poll.raw_induct [where P = "\<lambda>s s'. \<exists>n. s' = (tick ^^ n) s", OF _ assms])
  fix poll s s'
  assume IH: "\<And>x y. poll x = Some y \<Longrightarrow> \<exists>n. y = (tick ^^ n) x"
    and step: "(let (v, s1) = load32 CDT_ADDR s in if v \<noteq> 0 then poll s1 else Some s1) = Some s'"
  show "\<exists>n. s' = (tick ^^ n) s"
  proof (cases "countdown (cdt_dt s) (cdt_reg s) = 0")
    case True
    then have "s' = (tick ^^ 1) s" using step by (simp add: load32_cdt)
    then show ?thesis ..
  next
    case False
    then obtain n where "s' = (tick ^^ n) (tick s)"
      using step IH [of "tick s" s'] by (auto simp: load32_cdt)
    then have "s' = (tick ^^ Suc n) s"
      by (simp add: funpow_swap1)
    then show ?thesis ..
  qed
qed

lemma cdt_delay_frame: "cdt_delay v s = Some s' \<Longrightarrow> same_devices s s' \<and> uart_rx s' = uart_rx s"
  using cdt_poll_ticks [of "cdt_write v s" s']
  by (auto simp: cdt_delay_def cdt_write_def store32_cdt same_devices_def tick_fields del: funpow.simps)

end
