(* ===== verification/Firmware.thy ===== *)
theory Firmware
  imports Frames
begin

text \<open>
  The program of \<open>src/c_code/main.c\<close>: the start-up sequence of \<open>main\<close>
  (\<open>main_init\<close>), one turn of its command loop (\<open>main_iter\<close>: print the menu,
  read a character, dispatch on it in \<open>fw_command\<close>), and the runs of the loop
  as an inductive step relation \<open>fw_exec\<close> indexed by the characters read.
  The addresses the linker and the stack give to \<open>mem\<close> and to the local
  variables of \<open>endian_test\<close>, \<open>la_wtest\<close>, \<open>la_rtest\<close> and \<open>uart_set_div\<close> are
  the fields of a \<open>fw_layout\<close>; \<open>layout_ok\<close> says they lie in SRAM.
  \<open>CLK_FREQ\<close>, a macro of the build, is the parameter \<open>clk\<close>.
\<close>

section \<open>The program\<close>

text \<open>Where the C toolchain places the program's memory.\<close>

record fw_layout =
  mem_base :: u32
  endian_loc :: u32
  la_w_loc :: u32
  la_r_loc :: u32
  delay_loc :: u32

text \<open>\<open>CLK_FREQ/115200.0 + 0.5\<close> converted to \<open>unsigned int\<close>, the rounded
  quotient, computed exactly (the double arithmetic is exact at these sizes).\<close>

definition baud_div :: "int \<Rightarrow> u32" where
  "baud_div clk = word_of_int ((2 * clk + 115200) div 230400)"

text \<open>\<open>rdtime\<close> reads the low word of the cycle counter.\<close>

definition readtime :: "soc \<Rightarrow> u32" where
  "readtime s = word_of_nat (cycles s)"

definition main_init :: "fw_layout \<Rightarrow> int \<Rightarrow> soc \<Rightarrow> soc option" where
  "main_init L clk s0 =
     do {
       s1 \<leftarrow> uart_set_div (delay_loc L) (baud_div clk) (la_rtest (la_r_loc L) (la_wtest (la_w_loc L) (set_leds 6 s0)));
       s2 \<leftarrow> uart_puts (cstr (crlf @ ''Starting, CLK_FREQ: 0x'')) s1;
       uart_puts (cstr (crlf @ crlf)) (uart_print_hex (word_of_int clk) s2)
     }"

text \<open>\<open>3*CLK_FREQ\<close> (line 215). \<open>CLK_FREQ\<close> is a decimal constant of the build:
  its type is \<open>int\<close> when it fits, otherwise \<open>long long\<close> (\<open>long\<close> has 32 bits on
  RV32). The product is computed in that type; signed overflow is undefined
  behaviour, \<open>None\<close>.\<close>

definition clk_times3 :: "int \<Rightarrow> int option" where
  "clk_times3 clk = (if clk \<le> INT_MAX then c_int (3 * clk) else if 3 * clk \<le> 2 ^ 63 - 1 then Some (3 * clk) else None)"

definition menu :: "string list" where
  "menu = [''Enter command:'' @ crlf, ''   c: countdown timer test'' @ crlf, ''   d: delay 3 seconds'' @ crlf,
           ''   e: endian test'' @ crlf, ''   g: read LED value'' @ crlf, ''   i: increment LED value'' @ crlf,
           ''   l: set RGB LED'' @ crlf, ''   m: memory test'' @ crlf, ''   r: read clock'' @ crlf]"

fun puts_all :: "string list \<Rightarrow> soc \<Rightarrow> soc option" where
  "puts_all [] s = Some s"
| "puts_all (m # ms) s = do { s1 \<leftarrow> uart_puts (cstr m) s; puts_all ms s1 }"

definition fw_command :: "fw_layout \<Rightarrow> int \<Rightarrow> byte \<Rightarrow> soc \<Rightarrow> soc option" where
  "fw_command L clk ch s =
     (if ch = of_char CHR ''c'' then cdt_test s
      else if ch = of_char CHR ''e'' then endian_test (endian_loc L) s
      else if ch = of_char CHR ''d'' then
        (case clk_times3 clk of
           None \<Rightarrow> None
         | Some n \<Rightarrow> do { s1 \<leftarrow> cdt_delay (word_of_int n) s; uart_puts (cstr (''delay done'' @ crlf)) s1 })
      else if ch = of_char CHR ''g'' then
        (let (v, s1) = get_leds s
         in do { s2 \<leftarrow> uart_puts (cstr ''LED = '') s1; uart_puts (cstr crlf) (uart_print_hex (ucast v) s2) })
      else if ch = of_char CHR ''i'' then (let (v, s1) = get_leds s in Some (set_leds (v + 1) s1))
      else if ch = of_char CHR ''l'' then
        do {
          s1 \<leftarrow> uart_puts (cstr '' enter 6 hex digits: '') s;
          (v, s2) \<leftarrow> uart_get_hex s1;
          uart_puts (cstr crlf) (set_ws2812b v s2)
        }
      else if ch = of_char CHR ''m'' then
        (let (r, s1) = mem_test (mem_base L) s
         in if r \<noteq> 0 then uart_puts (cstr (''memory test FAILED.'' @ crlf)) s1
            else uart_puts (cstr (''memory test PASSED.'' @ crlf)) s1)
      else if ch = of_char CHR ''r'' then
        do { s1 \<leftarrow> uart_puts (cstr ''time is '') s; uart_puts (cstr crlf) (uart_print_hex (readtime s1) s1) }
      else uart_puts (cstr (''  Try again...'' @ crlf)) s)"

definition main_iter :: "fw_layout \<Rightarrow> int \<Rightarrow> soc \<Rightarrow> (byte \<times> soc) option" where
  "main_iter L clk s =
     do {
       s1 \<leftarrow> puts_all menu s;
       (ch, s2) \<leftarrow> uart_getchar s1;
       s3 \<leftarrow> fw_command L clk ch s2;
       Some (ch, s3)
     }"

text \<open>The runs of \<open>main\<close>: after the start-up, each turn of the \<open>while (1)\<close>
  loop reads one character and executes its command.\<close>

inductive fw_exec :: "fw_layout \<Rightarrow> int \<Rightarrow> soc \<Rightarrow> byte list \<Rightarrow> soc \<Rightarrow> bool" for L clk s0 where
  boot: "main_init L clk s0 = Some s \<Longrightarrow> fw_exec L clk s0 [] s"
| step: "fw_exec L clk s0 cs s \<Longrightarrow> main_iter L clk s = Some (ch, s') \<Longrightarrow> fw_exec L clk s0 (cs @ [ch]) s'"

section \<open>Reference definitions\<close>

definition layout_ok :: "fw_layout \<Rightarrow> bool" where
  "layout_ok L \<longleftrightarrow> region_in_ram (mem_base L) \<and> endian_loc L \<le> 0x7ffffffc \<and> la_w_loc L \<le> 0x7ffffffc \<and>
                  la_r_loc L \<le> 0x7ffffffc \<and> delay_loc L \<le> 0x7ffffffc"

definition menu_text :: "byte list" where
  "menu_text = concat (map (map of_char) menu)"

definition startup_text :: "int \<Rightarrow> byte list" where
  "startup_text clk = map of_char (crlf @ ''Starting, CLK_FREQ: 0x'') @ hex_text (word_of_int clk) @ map of_char (crlf @ crlf)"

text \<open>A layout used in the examples: the memory-test array at 0x1000 and the
  stack words of the other routines at 0x2000 and above.\<close>

definition demo_layout :: fw_layout where
  "demo_layout = \<lparr>mem_base = 0x1000, endian_loc = 0x2000, la_w_loc = 0x2010, la_r_loc = 0x2020, delay_loc = 0x2030\<rparr>"

section \<open>Transmitted text, frames and termination of the commands\<close>

lemma funpow_tick_tx: "(tick ^^ n) (s\<lparr>uart_tx := t\<rparr>) = ((tick ^^ n) s)\<lparr>uart_tx := t\<rparr>"
  by (simp add: funpow_tick)

lemma funpow_tick_cycles: "cycles ((tick ^^ n) s) = cycles s + n * cdt_dt s"
  by (simp add: funpow_tick)

lemma puts_all_run:
  "\<forall>m \<in> set ms. CHR 0x00 \<notin> set m \<Longrightarrow>
   puts_all ms s = Some (((tick ^^ sum_list (map length ms)) s)\<lparr>uart_tx := uart_tx s @ concat (map (map of_char) ms)\<rparr>)"
proof (induction ms arbitrary: s)
  case Nil
  then show ?case by simp
next
  case (Cons m ms)
  then show ?case
    by (simp add: uart_puts_cstr funpow_tick_tx funpow_tick_tick add.commute del: funpow.simps)
qed

lemma puts_all_menu:
  "puts_all menu s = Some (((tick ^^ length menu_text) s)\<lparr>uart_tx := uart_tx s @ menu_text\<rparr>)"
proof -
  have "\<forall>m \<in> set menu. CHR 0x00 \<notin> set m"
    by (simp add: menu_def crlf_def)
  moreover have "sum_list (map length menu) = length menu_text"
    by (simp add: menu_text_def length_concat comp_def)
  ultimately show ?thesis
    by (simp add: puts_all_run menu_text_def)
qed

lemma layout_addrs:
  assumes "layout_ok L"
  shows "is_ram (endian_loc L)" "is_ram (endian_loc L + 3)" "is_ram (delay_loc L)" "region_in_ram (mem_base L)"
    "la_w_loc L \<le> 0x7ffffffc" "la_r_loc L \<le> 0x7ffffffc"
  using assms ram_word_addrs [of "endian_loc L"] ram_word_addrs [of "delay_loc L"] by (simp_all add: layout_ok_def)

lemma quiet_tests:
  "uart_puts bs s = Some s' \<Longrightarrow> same_devices s s' \<and> uart_rx s' = uart_rx s"
  "cdt_test s = Some s' \<Longrightarrow> same_devices s s' \<and> uart_rx s' = uart_rx s"
  "is_ram a \<Longrightarrow> is_ram (a + 3) \<Longrightarrow> endian_test a s = Some s' \<Longrightarrow> same_devices s s' \<and> uart_rx s' = uart_rx s"
  by (simp_all add: same_devices_puts rx_puts same_devices_cdt_test rx_cdt_test same_devices_endian_test rx_endian_test)

lemma fw_command_frame:
  assumes "layout_ok L" "fw_command L clk ch s = Some s'"
  shows "uart_div_reg s' = uart_div_reg s \<and> cdt_dt s' = cdt_dt s \<and> ram_fault s' = ram_fault s \<and>
         leds_reg s' = (if ch = of_char CHR ''i'' then leds_reg s + 1 else leds_reg s) \<and>
         (ch \<noteq> of_char CHR ''l'' \<longrightarrow> rgb_reg s' = rgb_reg s \<and> uart_rx s' = uart_rx s)"
proof -
  note a = layout_addrs [OF assms(1)]
  have "same_devices s s' \<and> uart_rx s' = uart_rx s"
    if "ch \<noteq> of_char CHR ''i''" "ch \<noteq> of_char CHR ''l''"
    using that assms(2) same_devices_mem_test [OF a(4), of s] rx_mem_test [OF a(4), of s]
    unfolding fw_command_def
    by (auto simp: Let_def get_leds_state split: if_splits option.splits prod.splits Option.bind_splits
             dest!: quiet_tests(1,2) cdt_delay_frame quiet_tests(3) [OF a(1,2)])
       (auto simp: same_devices_def tick_fields)
  moreover have "uart_div_reg s' = uart_div_reg s \<and> cdt_dt s' = cdt_dt s \<and> ram_fault s' = ram_fault s \<and>
                 leds_reg s' = leds_reg s"
    if "ch = of_char CHR ''l''"
    using that assms(2) unfolding fw_command_def
    by (auto simp: set_ws2812b_state tick_fields split: prod.splits Option.bind_splits
             dest!: same_devices_puts same_devices_get_hex) (auto simp: same_devices_def tick_fields)
  moreover have "s' = set_leds (leds_reg s + 1) (tick s)" if "ch = of_char CHR ''i''"
    using that assms(2) by (simp add: fw_command_def get_leds_state)
  ultimately show ?thesis
    by (cases "ch = of_char CHR ''i''") (auto simp: same_devices_def set_leds_state tick_fields)
qed

lemma main_iter_frame:
  assumes "layout_ok L" "main_iter L clk s = Some (ch, s')"
  shows "uart_div_reg s' = uart_div_reg s \<and> cdt_dt s' = cdt_dt s \<and> ram_fault s' = ram_fault s \<and>
         leds_reg s' = (if ch = of_char CHR ''i'' then leds_reg s + 1 else leds_reg s)"
proof -
  obtain s2 where g: "uart_getchar (((tick ^^ length menu_text) s)\<lparr>uart_tx := uart_tx s @ menu_text\<rparr>) = Some (ch, s2)"
    and c: "fw_command L clk ch s2 = Some s'"
    using assms(2) by (auto simp: main_iter_def puts_all_menu split: Option.bind_splits)
  have "same_devices s s2"
    using same_devices_getchar [OF g] by (simp add: same_devices_def)
  then show ?thesis
    using fw_command_frame [OF assms(1) c] by (simp add: same_devices_def)
qed

lemma main_init_frame:
  assumes "layout_ok L" "main_init L clk s0 = Some s"
  shows "leds_reg s = 6 \<and> uart_div_reg s = baud_div clk \<and> cdt_dt s = cdt_dt s0 \<and> ram_fault s = ram_fault s0"
proof -
  note a = layout_addrs [OF assms(1)]
  let ?s1 = "la_rtest (la_r_loc L) (la_wtest (la_w_loc L) (set_leds 6 s0))"
  let ?s2 = "store32 (delay_loc L) 0 (store32 UART_DIV_ADDR (baud_div clk) ?s1)"
  have s1: "same_devices ((tick s0)\<lparr>leds_reg := 6\<rparr>) ?s1"
    using same_devices_la_wtest [OF a(5)] same_devices_la_rtest [OF a(6)]
    by (auto simp: set_leds_state intro: same_devices_trans)
  have s2: "same_devices (?s1\<lparr>uart_div_reg := baud_div clk\<rparr>) ?s2"
    using same_devices_store_ram(3) [OF a(3)] by (simp add: store32_uart_div same_devices_def tick_fields)
  obtain s3 s4 where d: "set_div_delay (delay_loc L) ?s2 = Some s3"
    and p: "uart_puts (cstr (crlf @ ''Starting, CLK_FREQ: 0x'')) s3 = Some s4"
    and q: "uart_puts (cstr (crlf @ crlf)) (uart_print_hex (word_of_int clk) s4) = Some s"
    using assms(2) by (auto simp: main_init_def uart_set_div_def split: Option.bind_splits)
  have "same_devices ?s2 s"
    using same_devices_set_div_delay [OF d a(3)] same_devices_puts [OF p] same_devices_puts [OF q]
    by (auto intro: same_devices_trans)
  with s1 s2 show ?thesis
    by (simp add: same_devices_def tick_fields)
qed

lemma main_init_run:
  assumes "layout_ok L" "word_ok s0 (delay_loc L)"
  shows "\<exists>s. main_init L clk s0 = Some s \<and> uart_tx s = uart_tx s0 @ startup_text clk \<and> uart_rx s = uart_rx s0"
proof -
  note a = layout_addrs [OF assms(1)]
  let ?s1 = "la_rtest (la_r_loc L) (la_wtest (la_w_loc L) (set_leds 6 s0))"
  let ?s2 = "store32 (delay_loc L) 0 (store32 UART_DIV_ADDR (baud_div clk) ?s1)"
  have "same_devices ((tick s0)\<lparr>leds_reg := 6\<rparr>) ?s1"
    using same_devices_la_wtest [OF a(5)] same_devices_la_rtest [OF a(6)]
    by (auto simp: set_leds_state intro: same_devices_trans)
  then have "word_ok (store32 UART_DIV_ADDR (baud_div clk) ?s1) (delay_loc L)"
    using assms(2) by (simp add: word_ok_def same_devices_def store32_uart_div tick_fields)
  then have ok: "word_ok ?s2 (delay_loc L)" "ram_word ?s2 (delay_loc L) = of_nat 0"
    using word_ok_store32 by simp_all
  have io: "uart_tx ?s2 = uart_tx s0" "uart_rx ?s2 = uart_rx s0"
    using tx_la_tests [OF a(5)] tx_la_tests [OF a(6)] rx_la_tests(2) [OF a(6)]
    by (simp_all add: set_leds_state tick_fields rx_la_tests(1))
  obtain s3 where d: "set_div_delay (delay_loc L) ?s2 = Some s3" "uart_tx s3 = uart_tx ?s2" "uart_rx s3 = uart_rx ?s2"
    using set_div_delay_run [OF ok] by auto
  have nul: "CHR 0x00 \<notin> set (crlf @ ''Starting, CLK_FREQ: 0x'')" "CHR 0x00 \<notin> set (crlf @ crlf)"
    by (simp_all add: crlf_def)
  show ?thesis
    using d io by (simp add: main_init_def uart_set_div_def uart_puts_cstr [OF nul(1)] uart_puts_cstr [OF nul(2)]
                             uart_print_hex_run startup_text_def del: funpow.simps)
qed

lemma unat_word_of_int_small:
  assumes "0 \<le> k" "k < 2 ^ 32"
  shows "unat (word_of_int k :: u32) = nat k"
proof -
  obtain m where m: "k = int m" using assms(1) nonneg_eq_int by blast
  then have "(word_of_int k :: u32) = word_of_nat m" by simp
  moreover have "m < 2 ^ 32" using assms(2) m by simp
  ultimately show ?thesis using m by (simp add: unat_of_nat)
qed

lemma endian_test_some: "\<exists>s'. endian_test a s = Some s'"
  by (simp add: endian_test_def Let_def uart_puts_cstr crlf_def split: prod.split)

lemma cdt_delay_some: "0 < cdt_dt s \<Longrightarrow> \<exists>s'. cdt_delay v s = Some s'"
  using cdt_poll_run [of "cdt_write v s"] by (simp add: cdt_delay_def cdt_write_def store32_cdt tick_fields)

lemma clk_times3_int: "c_int (3 * clk) \<noteq> None \<Longrightarrow> clk_times3 clk = c_int (3 * clk)"
  by (auto simp: clk_times3_def c_int_def INT_MAX_def split: if_splits)

lemma fw_command_some:
  assumes "ch \<noteq> of_char CHR ''l''" "ch = of_char CHR ''d'' \<Longrightarrow> 0 < cdt_dt s \<and> c_int (3 * clk) \<noteq> None"
  shows "\<exists>s'. fw_command L clk ch s = Some s'"
proof -
  obtain c where c: "cdt_test s = Some c"
    using cdt_test_run [of s] by blast
  obtain e where e: "endian_test (endian_loc L) s = Some e"
    using endian_test_some by blast
  have d: "\<exists>s'. cdt_delay v s \<bind> uart_puts (cstr (''delay done'' @ crlf)) = Some s'"
    if dch: "ch = of_char CHR ''d''" for v
  proof -
    obtain s1 where "cdt_delay v s = Some s1"
      using assms(2) [OF dch] cdt_delay_some by blast
    then show ?thesis
      by (simp add: uart_puts_cstr crlf_def)
  qed
  show ?thesis
    using assms c e d clk_times3_int [of clk] unfolding fw_command_def
    by (auto simp: Let_def uart_puts_cstr crlf_def get_leds_state uart_print_hex_run
             split: option.split prod.split)
qed

lemma main_iter_some:
  assumes "layout_ok L" "uart_rx s = replicate n 0xff @ ch # rest" "ch \<noteq> 0xff" "ch \<noteq> of_char CHR ''l''"
    "ch = of_char CHR ''d'' \<Longrightarrow> 0 < cdt_dt s \<and> c_int (3 * clk) \<noteq> None"
  shows "\<exists>s'. main_iter L clk s = Some (ch, s') \<and> uart_rx s' = rest"
proof -
  let ?s1 = "((tick ^^ length menu_text) s)\<lparr>uart_tx := uart_tx s @ menu_text\<rparr>"
  let ?s2 = "((tick ^^ Suc n) ?s1)\<lparr>uart_rx := rest\<rparr>"
  have g: "uart_getchar ?s1 = Some (ch, ?s2)"
    using assms(2,3) by (intro uart_getchar_some) simp_all
  obtain s' where c: "fw_command L clk ch ?s2 = Some s'"
    using fw_command_some [OF assms(4), of ?s2 clk L] assms(5) by (auto simp del: funpow.simps)
  then have "uart_rx s' = rest"
    using fw_command_frame [OF assms(1) c] assms(4) by simp
  with g c show ?thesis
    by (simp add: main_iter_def puts_all_menu del: funpow.simps)
qed

lemma fw_exec_cdt_dt:
  assumes "layout_ok L" "fw_exec L clk s0 cs s"
  shows "cdt_dt s = cdt_dt s0"
  using assms(2) by (induction rule: fw_exec.induct) (auto dest: main_init_frame [OF assms(1)] main_iter_frame [OF assms(1)])

lemma demo_layout_ok: "layout_ok demo_layout" "word_ok (boot_soc rx) (delay_loc demo_layout)"
  by (simp_all add: layout_ok_def demo_layout_def region_in_ram_def MEMSIZE_def word_ok_def boot_soc_def)

lemma demo_exec_i: "\<exists>s. fw_exec demo_layout 27000000 (boot_soc [0x69]) [0x69] s"
proof -
  obtain s1 where i: "main_init demo_layout 27000000 (boot_soc [0x69]) = Some s1" and r: "uart_rx s1 = [0x69]"
    using main_init_run [OF demo_layout_ok] by (auto simp: boot_soc_def)
  obtain s2 where "main_iter demo_layout 27000000 s1 = Some (0x69, s2)"
    using main_iter_some [OF demo_layout_ok(1), where s = s1 and n = 0 and ch = "0x69" and rest = "[]" and clk = 27000000] r
    by auto
  then show ?thesis
    using fw_exec.step [OF fw_exec.boot [OF i]] by fastforce
qed

section \<open>Properties of the command loop\<close>

text \<open>C27: along every run of the firmware, the LED register holds 6 plus the
  number of 'i' commands typed so far (modulo 256), the UART divisor is the
  one computed from the clock frequency at start-up, and the timer rate and the
  SRAM cells are those of the start.\<close>

theorem fw_exec_invariant:
  assumes "layout_ok L" "fw_exec L clk s0 cs s"
  shows "leds_reg s = 6 + of_nat (count_list cs (of_char CHR ''i'')) \<and> uart_div_reg s = baud_div clk \<and>
         cdt_dt s = cdt_dt s0 \<and> ram_fault s = ram_fault s0"
  using assms(2)
proof (induction rule: fw_exec.induct)
  case (boot s)
  then show ?case using main_init_frame [OF assms(1)] by simp
next
  case (step cs s ch s')
  then show ?case using main_iter_frame [OF assms(1) step.hyps(2)] by auto
qed

theorem fw_exec_invariant_witness:
  "\<exists>s. fw_exec demo_layout 27000000 (boot_soc [0x69]) [0x69] s \<and> leds_reg s = 7 \<and> uart_div_reg s = 234"
proof -
  obtain s where e: "fw_exec demo_layout 27000000 (boot_soc [0x69]) [0x69] s"
    using demo_exec_i by blast
  moreover have "leds_reg s = 7 \<and> uart_div_reg s = 234"
    using fw_exec_invariant [OF demo_layout_ok(1) e] by (simp add: baud_div_def)
  ultimately show ?thesis by blast
qed

text \<open>C28: start-up. On a layout in SRAM with a working word for the divisor
  delay loop, main's start-up sequence returns, leaves 6 on the LEDs, programs
  the UART divisor computed from the clock frequency, prints the start-up
  banner with the clock frequency in hex, and consumes no received byte.\<close>

theorem main_init_starts:
  assumes "layout_ok L" "word_ok s0 (delay_loc L)"
  shows "\<exists>s. main_init L clk s0 = Some s \<and> leds_reg s = 6 \<and> uart_div_reg s = baud_div clk \<and>
             uart_tx s = uart_tx s0 @ startup_text clk \<and> uart_rx s = uart_rx s0"
  using main_init_run [OF assms] main_init_frame [OF assms(1)] by blast

theorem main_init_starts_witness:
  "\<exists>s. main_init demo_layout 27000000 (boot_soc []) = Some s \<and> leds_reg s = 6 \<and> uart_div_reg s = 234 \<and>
       uart_tx s = map of_char (crlf @ ''Starting, CLK_FREQ: 0x'') @ hex_text 0x019bfcc0 @ map of_char (crlf @ crlf)"
  using main_init_starts [OF demo_layout_ok, of 27000000 "[]"]
  by (auto simp: baud_div_def startup_text_def boot_soc_def)

text \<open>C29: the command loop serves its input. From a layout in SRAM, every
  sequence of typed command characters other than 'l' (which waits for hex
  digits) and the idle byte 0xff is read and executed in turn, the loop coming
  back for the next character each time; the delay command 'd' also needs a
  running timer and \<open>3 * CLK_FREQ\<close> within \<open>int\<close>.\<close>

theorem fw_exec_serves:
  assumes "layout_ok L" "word_ok s0 (delay_loc L)" "uart_rx s0 = cs @ rest"
    "\<forall>c \<in> set cs. c \<noteq> 0xff \<and> c \<noteq> of_char CHR ''l'' \<and> (c = of_char CHR ''d'' \<longrightarrow> 0 < cdt_dt s0 \<and> c_int (3 * clk) \<noteq> None)"
  shows "\<exists>s. fw_exec L clk s0 cs s \<and> uart_rx s = rest"
  using assms(3,4)
proof (induction cs arbitrary: rest rule: rev_induct)
  case Nil
  then show ?case
    using main_init_run [OF assms(1,2), of clk] fw_exec.boot by fastforce
next
  case (snoc c cs)
  then obtain s where e: "fw_exec L clk s0 cs s" and r: "uart_rx s = c # rest"
    by fastforce
  have r0: "uart_rx s = replicate 0 0xff @ c # rest"
    using r by simp
  have d: "c = of_char CHR ''d'' \<Longrightarrow> 0 < cdt_dt s \<and> c_int (3 * clk) \<noteq> None"
    using snoc.prems(2) fw_exec_cdt_dt [OF assms(1) e] by simp
  obtain s' where "main_iter L clk s = Some (c, s')" "uart_rx s' = rest"
    using main_iter_some [OF assms(1) r0 _ _ d] snoc.prems(2) by auto
  then show ?case
    using fw_exec.step [OF e] by blast
qed

theorem fw_exec_serves_witness:
  "\<exists>s. fw_exec demo_layout 27000000 (boot_soc [0x69, 0x67, 0x69]) [0x69, 0x67, 0x69] s \<and> uart_rx s = []"
  using fw_exec_serves [OF demo_layout_ok, where cs = "[0x69, 0x67, 0x69]" and rest = "[]" and clk = 27000000]
  by (simp add: boot_soc_def)

text \<open>C30: for a clock frequency that is an \<open>int\<close> above 715827882 Hz, the
  delay command's \<open>3*CLK_FREQ\<close> overflows \<open>int\<close>, which is undefined
  behaviour in C, and the model of the command has no result.\<close>

theorem fw_command_d_overflow:
  assumes "715827882 < clk" "clk \<le> INT_MAX"
  shows "fw_command L clk (of_char CHR ''d'') s = None"
  using assms by (simp add: fw_command_def clk_times3_def c_int_def INT_MAX_def)

theorem fw_command_d_overflow_witness: "fw_command demo_layout 800000000 (of_char CHR ''d'') (boot_soc []) = None"
  using fw_command_d_overflow [of 800000000] by (simp add: INT_MAX_def)

text \<open>C31: the delay command. With the timer running and \<open>3 * CLK_FREQ\<close>
  within \<open>int\<close>, command 'd' returns after at least \<open>3 * CLK_FREQ\<close> timer
  cycles (three seconds) and prints "delay done", with the LEDs, the UART
  divisor and the receive queue unchanged.\<close>

theorem fw_command_d_waits:
  assumes "0 < cdt_dt s" "0 \<le> clk" "3 * clk \<le> INT_MAX"
  shows "\<exists>s'. fw_command L clk (of_char CHR ''d'') s = Some s' \<and> nat (3 * clk) \<le> cycles s' - cycles s \<and>
              uart_tx s' = uart_tx s @ map of_char (''delay done'' @ crlf) \<and>
              leds_reg s' = leds_reg s \<and> uart_div_reg s' = uart_div_reg s \<and> uart_rx s' = uart_rx s"
proof -
  let ?v = "3 * word_of_int clk :: u32" and ?d = "cdt_dt s"
  let ?n = "max 1 ((unat ?v + ?d - 1) div ?d)"
  let ?s1 = "(tick ^^ ?n) (s\<lparr>cycles := cycles s + ?d, cdt_reg := ?v\<rparr>)"
  have c: "clk_times3 clk = Some (3 * clk)"
    using assms(2,3) by (simp add: clk_times3_def c_int_def INT_MIN_def INT_MAX_def)
  have "cdt_delay ?v s = Some ?s1"
    using cdt_poll_run [of "cdt_write ?v s"] assms(1) by (simp add: cdt_delay_def cdt_write_def store32_cdt tick_def)
  moreover have "unat ?v = nat (3 * clk)"
  proof -
    have "?v = word_of_int (3 * clk)"
      by (simp only: of_int_mult of_int_numeral)
    then show ?thesis
      using unat_word_of_int_small [of "3 * clk"] assms(2,3) by (simp add: INT_MAX_def)
  qed
  moreover have "unat ?v \<le> ?n * ?d"
    using poll_count_bounds(1) [OF assms(1)] by simp
  moreover have "cycles ?s1 = cycles s + ?d + ?n * ?d"
    by (simp add: funpow_tick)
  ultimately show ?thesis
    using c by (simp add: fw_command_def uart_puts_cstr crlf_def funpow_tick del: funpow.simps)
qed

theorem fw_command_d_waits_witness:
  "\<exists>s'. fw_command demo_layout 1000 (of_char CHR ''d'') (boot_soc []) = Some s' \<and> 3000 \<le> cycles s'"
  using fw_command_d_waits [of "boot_soc []" 1000 demo_layout] by (auto simp: boot_soc_def INT_MAX_def)

text \<open>C32: an unknown command character prints "  Try again..." and changes
  nothing else: the state is the one before, sixteen bus accesses later, with
  the message appended to the transmitted bytes.\<close>

theorem fw_command_unknown:
  assumes "ch \<notin> set (map of_char ''cdegilmr'')"
  shows "fw_command L clk ch s =
           Some (((tick ^^ 16) s)\<lparr>uart_tx := uart_tx s @ map of_char (''  Try again...'' @ crlf)\<rparr>)"
  using assms by (simp add: fw_command_def uart_puts_cstr crlf_def numeral_eq_Suc del: funpow.simps)

theorem fw_command_unknown_witness:
  "fw_command demo_layout 27000000 0x78 (boot_soc []) =
     Some (((tick ^^ 16) (boot_soc []))\<lparr>uart_tx := map of_char (''  Try again...'' @ crlf)\<rparr>)"
  using fw_command_unknown [of "0x78"] by (simp add: boot_soc_def del: funpow.simps)

text \<open>C33: command 'l' prompts for hex digits, reads them up to the carriage
  return, echoing the hex digits, and writes their value to the RGB LED
  register.\<close>

theorem fw_command_l_sets_rgb:
  assumes "0x0d \<notin> set ds" "uart_rx s = ds @ 0x0d # rest"
  shows "\<exists>s'. fw_command L clk (of_char CHR ''l'') s = Some s' \<and> rgb_reg s' = of_nat (hex_number (filter is_hex ds)) \<and>
              uart_rx s' = rest \<and>
              uart_tx s' = uart_tx s @ map of_char '' enter 6 hex digits: '' @ filter is_hex ds @ [0x0a] @ map of_char crlf"
proof -
  let ?s1 = "((tick ^^ 21) s)\<lparr>uart_tx := uart_tx s @ map of_char '' enter 6 hex digits: ''\<rparr>"
  have p: "uart_puts (cstr '' enter 6 hex digits: '') s = Some ?s1"
    by (simp add: uart_puts_cstr numeral_eq_Suc del: funpow.simps)
  have "uart_get_hex ?s1 =
          Some (of_nat (hex_number (filter is_hex ds)),
                ((tick ^^ (length ds + length (filter is_hex ds) + 2)) ?s1)
                  \<lparr>uart_rx := rest, uart_tx := uart_tx ?s1 @ filter is_hex ds @ [0x0a]\<rparr>)"
    using get_hex_loop_run [OF assms(1), of ?s1 rest 0] assms(2) foldl_hex_word [of 0 "filter is_hex ds"]
    by (simp add: uart_get_hex_def hex_number_def del: funpow.simps)
  with p show ?thesis
    by (simp add: fw_command_def uart_puts_cstr crlf_def set_ws2812b_state tick_fields del: funpow.simps)
qed

theorem fw_command_l_sets_rgb_witness:
  "\<exists>s'. fw_command demo_layout 27000000 (of_char CHR ''l'') (boot_soc [0x66, 0x30, 0x30, 0x0d]) = Some s' \<and>
        rgb_reg s' = 0xf00 \<and> uart_rx s' = []"
proof -
  have "hex_number [0x66, 0x30, 0x30] = 0xf00"
    by (simp add: hex_number_def hex_value_def)
  then show ?thesis
    using fw_command_l_sets_rgb [of "[0x66, 0x30, 0x30]" "boot_soc [0x66, 0x30, 0x30, 0x0d]" "[]"]
    by (auto simp: boot_soc_def is_hex_def)
qed

text \<open>Command 'g' reads the LED register and prints its value in hex,
  leaving the LEDs as they were.\<close>

theorem fw_command_g_reports:
  "\<exists>s'. fw_command L clk (of_char CHR ''g'') s = Some s' \<and> leds_reg s' = leds_reg s \<and>
        uart_tx s' = uart_tx s @ map of_char ''LED = '' @ hex_text (ucast (leds_reg s)) @ map of_char crlf"
  by (simp add: fw_command_def get_leds_state uart_puts_cstr uart_print_hex_run crlf_def tick_fields del: funpow.simps)

text \<open>Command 'r' prints the time read with \<open>rdtime\<close> after its prompt,
  that is, the cycle count eight bus accesses later, truncated to 32 bits.\<close>

theorem fw_command_r_reads_clock:
  "\<exists>s'. fw_command L clk (of_char CHR ''r'') s = Some s' \<and>
        uart_tx s' = uart_tx s @ map of_char ''time is '' @ hex_text (word_of_nat (cycles s + 8 * cdt_dt s)) @ map of_char crlf"
proof -
  have "fw_command L clk (of_char CHR ''r'') s =
          do { s1 \<leftarrow> uart_puts (cstr ''time is '') s; uart_puts (cstr crlf) (uart_print_hex (readtime s1) s1) }"
    by (simp add: fw_command_def)
  then show ?thesis
    by (simp add: readtime_def uart_puts_cstr uart_print_hex_run crlf_def funpow_tick_cycles numeral_eq_Suc
             del: funpow.simps)
qed

end
