(* ===== verification/Drivers.thy ===== *)
theory Drivers
  imports Frames
begin

text \<open>
  The driver interfaces of the firmware, as the headers declare them:
  \<open>src/c_code/countdown_timer.h\<close>, \<open>src/c_code/uart.h\<close> and
  \<open>src/c_code/leds.h\<close>, with \<open>set_ws2812b\<close> of \<open>src/c_code/ws2812b.c\<close>.
  Each header becomes a datatype of calls whose constructors carry the
  arguments at their C types, and a function giving the declared return
  type; \<open>drv_exec\<close> runs a call on the bus state by the driver the header
  declares, returning the C value. The properties say every call changes
  only the registers of its own peripheral, and which headers are protected
  by their include guards: the guards are modelled as the preprocessor runs
  them (\<open>pp_include\<close>), with the declarations as name and return type.
\<close>

section \<open>C types at the interface\<close>

datatype ctype = C_void | C_char | C_uchar | C_uint

datatype cval = V_void | V_char byte | V_uchar byte | V_uint u32

fun cval_type :: "cval \<Rightarrow> ctype" where
  "cval_type V_void = C_void"
| "cval_type (V_char _) = C_char"
| "cval_type (V_uchar _) = C_uchar"
| "cval_type (V_uint _) = C_uint"

section \<open>The headers\<close>

datatype cdt_call =
    Cdt_wbyte0 byte | Cdt_wbyte1 byte | Cdt_wbyte2 byte | Cdt_wbyte3 byte
  | Cdt_whalf0 u16 | Cdt_whalf2 u16
  | Cdt_write u32 | Cdt_read | Cdt_delay u32

fun cdt_ret :: "cdt_call \<Rightarrow> ctype" where
  "cdt_ret Cdt_read = C_uint"
| "cdt_ret _ = C_void"

fun cdt_exec :: "cdt_call \<Rightarrow> soc \<Rightarrow> (cval \<times> soc) option" where
  "cdt_exec (Cdt_wbyte0 v) s = Some (V_void, cdt_wbyte0 v s)"
| "cdt_exec (Cdt_wbyte1 v) s = Some (V_void, cdt_wbyte1 v s)"
| "cdt_exec (Cdt_wbyte2 v) s = Some (V_void, cdt_wbyte2 v s)"
| "cdt_exec (Cdt_wbyte3 v) s = Some (V_void, cdt_wbyte3 v s)"
| "cdt_exec (Cdt_whalf0 v) s = Some (V_void, cdt_whalf0 v s)"
| "cdt_exec (Cdt_whalf2 v) s = Some (V_void, cdt_whalf2 v s)"
| "cdt_exec (Cdt_write v) s = Some (V_void, cdt_write v s)"
| "cdt_exec Cdt_read s = (let (v, s1) = cdt_read s in Some (V_uint v, s1))"
| "cdt_exec (Cdt_delay v) s = map_option (\<lambda>s1. (V_void, s1)) (cdt_delay v s)"

text \<open>\<open>uart_getchar\<close> is declared to return plain \<open>char\<close>, which is unsigned
  on RISC-V; \<open>uart_puts\<close> takes the bytes of the string its pointer names.
  The local variable of \<open>uart_set_div\<close>'s delay loop lives at the stack
  address \<open>d\<close>.\<close>

datatype uart_call =
    Uart_set_div u32 | Uart_print_hex u32 | Uart_getchar | Uart_putchar byte
  | Uart_puts "byte list" | Uart_get_hex

fun uart_ret :: "uart_call \<Rightarrow> ctype" where
  "uart_ret Uart_getchar = C_char"
| "uart_ret Uart_get_hex = C_uint"
| "uart_ret _ = C_void"

fun uart_exec :: "u32 \<Rightarrow> uart_call \<Rightarrow> soc \<Rightarrow> (cval \<times> soc) option" where
  "uart_exec d (Uart_set_div dv) s = map_option (\<lambda>s1. (V_void, s1)) (uart_set_div d dv s)"
| "uart_exec d (Uart_print_hex v) s = Some (V_void, uart_print_hex v s)"
| "uart_exec d Uart_getchar s = map_option (\<lambda>(c, s1). (V_char c, s1)) (uart_getchar s)"
| "uart_exec d (Uart_putchar c) s = Some (V_void, uart_putchar c s)"
| "uart_exec d (Uart_puts bs) s = map_option (\<lambda>s1. (V_void, s1)) (uart_puts bs s)"
| "uart_exec d Uart_get_hex s = map_option (\<lambda>(v, s1). (V_uint v, s1)) (uart_get_hex s)"

datatype leds_call = Set_leds byte | Get_leds

fun leds_ret :: "leds_call \<Rightarrow> ctype" where
  "leds_ret (Set_leds _) = C_void"
| "leds_ret Get_leds = C_uchar"

fun leds_exec :: "leds_call \<Rightarrow> soc \<Rightarrow> (cval \<times> soc) option" where
  "leds_exec (Set_leds v) s = Some (V_void, set_leds v s)"
| "leds_exec Get_leds s = (let (v, s1) = get_leds s in Some (V_uchar v, s1))"

text \<open>The calls \<open>main.c\<close> can make through the headers it includes.\<close>

datatype drv_call = Cdt cdt_call | Uart uart_call | Leds leds_call | Ws2812b u32

fun drv_ret :: "drv_call \<Rightarrow> ctype" where
  "drv_ret (Cdt c) = cdt_ret c"
| "drv_ret (Uart c) = uart_ret c"
| "drv_ret (Leds c) = leds_ret c"
| "drv_ret (Ws2812b _) = C_void"

fun drv_exec :: "u32 \<Rightarrow> drv_call \<Rightarrow> soc \<Rightarrow> (cval \<times> soc) option" where
  "drv_exec d (Cdt c) s = cdt_exec c s"
| "drv_exec d (Uart c) s = uart_exec d c s"
| "drv_exec d (Leds c) s = leds_exec c s"
| "drv_exec d (Ws2812b v) s = Some (V_void, set_ws2812b v s)"

section \<open>Include guards\<close>

text \<open>A header as the preprocessor sees it: \<open>#ifndef G\<close>, \<open>#define D\<close>, the
  declarations (name and return type), \<open>#endif\<close>. The state of a
  translation unit is the list of defined macros and the declarations
  included so far; \<open>#include\<close> skips the body when \<open>G\<close> is defined.\<close>

record header =
  hdr_ifndef :: string
  hdr_define :: string
  hdr_decls :: "(string \<times> ctype) list"

record pp_state =
  macros :: "string list"
  tu_decls :: "(string \<times> ctype) list"

definition pp_include :: "header \<Rightarrow> pp_state \<Rightarrow> pp_state" where
  "pp_include h st =
     (if hdr_ifndef h \<in> set (macros st) then st
      else st\<lparr>macros := hdr_define h # macros st, tu_decls := tu_decls st @ hdr_decls h\<rparr>)"

definition countdown_timer_h :: header where
  "countdown_timer_h =
     \<lparr>hdr_ifndef = ''COUNTDOWN_TIMER_H'', hdr_define = ''COUNTDOWN_TIMER_H'',
      hdr_decls = [(''cdt_wbyte0'', C_void), (''cdt_wbyte1'', C_void), (''cdt_wbyte2'', C_void),
                   (''cdt_wbyte3'', C_void), (''cdt_whalf0'', C_void), (''cdt_whalf2'', C_void),
                   (''cdt_write'', C_void), (''cdt_read'', C_uint), (''cdt_delay'', C_void)]\<rparr>"

definition uart_h :: header where
  "uart_h =
     \<lparr>hdr_ifndef = ''_UART_H'', hdr_define = ''UART_H'',
      hdr_decls = [(''uart_set_div'', C_void), (''uart_print_hex'', C_void), (''uart_getchar'', C_char),
                   (''uart_putchar'', C_void), (''uart_puts'', C_void), (''uart_get_hex'', C_uint)]\<rparr>"

definition leds_h :: header where
  "leds_h = \<lparr>hdr_ifndef = ''LEDS_H'', hdr_define = ''LEDS_H'', hdr_decls = [(''set_leds'', C_void), (''get_leds'', C_uchar)]\<rparr>"

definition pp_empty :: pp_state where
  "pp_empty = \<lparr>macros = [], tu_decls = []\<rparr>"

section \<open>Peripherals and their registers\<close>

text \<open>The registers the interface exposes, and the ones each call may
  change: a driver touches only its own peripheral.\<close>

datatype periph_reg = R_leds | R_uart_div | R_uart_rx | R_uart_tx | R_rgb

fun reg_same :: "periph_reg \<Rightarrow> soc \<Rightarrow> soc \<Rightarrow> bool" where
  "reg_same R_leds s s' \<longleftrightarrow> leds_reg s' = leds_reg s"
| "reg_same R_uart_div s s' \<longleftrightarrow> uart_div_reg s' = uart_div_reg s"
| "reg_same R_uart_rx s s' \<longleftrightarrow> uart_rx s' = uart_rx s"
| "reg_same R_uart_tx s s' \<longleftrightarrow> uart_tx s' = uart_tx s"
| "reg_same R_rgb s s' \<longleftrightarrow> rgb_reg s' = rgb_reg s"

fun footprint :: "drv_call \<Rightarrow> periph_reg list" where
  "footprint (Cdt _) = []"
| "footprint (Uart (Uart_set_div _)) = [R_uart_div]"
| "footprint (Uart Uart_getchar) = [R_uart_rx]"
| "footprint (Uart Uart_get_hex) = [R_uart_rx, R_uart_tx]"
| "footprint (Uart _) = [R_uart_tx]"
| "footprint (Leds (Set_leds _)) = [R_leds]"
| "footprint (Leds Get_leds) = []"
| "footprint (Ws2812b _) = [R_rgb]"

section \<open>Frames of the drivers\<close>

text \<open>The return types the headers declare are those of the call datatypes.\<close>

lemma header_ret_types:
  "map snd (hdr_decls countdown_timer_h) =
     map cdt_ret [Cdt_wbyte0 0, Cdt_wbyte1 0, Cdt_wbyte2 0, Cdt_wbyte3 0, Cdt_whalf0 0, Cdt_whalf2 0, Cdt_write 0, Cdt_read, Cdt_delay 0]"
  "map snd (hdr_decls uart_h) =
     map uart_ret [Uart_set_div 0, Uart_print_hex 0, Uart_getchar, Uart_putchar 0, Uart_puts [], Uart_get_hex]"
  "map snd (hdr_decls leds_h) = map leds_ret [Set_leds 0, Get_leds]"
  by (simp_all add: countdown_timer_h_def uart_h_def leds_h_def)

lemma getchar_shape:
  assumes "uart_getchar s = Some (c, s')"
  shows "\<exists>n cs. s' = ((tick ^^ n) s)\<lparr>uart_rx := cs\<rparr>"
proof -
  obtain n d cs where "uart_rx s = replicate n 0xff @ d # cs" "d \<noteq> 0xff"
    using uart_getchar_returns_data [OF assms] by (rule uart_rx_first_data)
  then have "uart_getchar s = Some (d, ((tick ^^ Suc n) s)\<lparr>uart_rx := cs\<rparr>)"
    by (rule uart_getchar_some)
  with assms show ?thesis
    by (auto simp del: funpow.simps)
qed

lemma set_div_delay_io:
  assumes "set_div_delay d s = Some s'"
  shows "uart_rx s' = uart_rx s \<and> uart_tx s' = uart_tx s"
proof (rule set_div_delay.raw_induct [where P = "\<lambda>d s s'. uart_rx s' = uart_rx s \<and> uart_tx s' = uart_tx s", OF _ assms])
  fix loop d s s'
  assume IH: "\<And>d s s'. loop d s = Some s' \<Longrightarrow> uart_rx s' = uart_rx s \<and> uart_tx s' = uart_tx s"
    and step: "(let (delay, s1) = load32 d s
                in if sint delay < 200 then let (delay', s2) = load32 d s1 in loop d (store32 d (delay' + 1) s2)
                   else Some s1) = Some s'"
  show "uart_rx s' = uart_rx s \<and> uart_tx s' = uart_tx s"
    using step by (auto simp: Let_def split_def split: if_splits dest!: IH)
qed

lemma cdt_exec_frame:
  assumes "cdt_exec c s = Some (v, s')"
  shows "same_devices s s' \<and> uart_rx s' = uart_rx s \<and> uart_tx s' = uart_tx s"
proof (cases c)
  case (Cdt_delay x)
  then obtain n where "s' = (tick ^^ n) (cdt_write x s)"
    using assms cdt_poll_ticks by (auto simp: cdt_delay_def)
  then show ?thesis
    using Cdt_delay by (simp add: cdt_write_def store32_cdt same_devices_def tick_fields del: funpow.simps)
qed (use assms in \<open>auto simp: cdt_wbyte0_def cdt_wbyte1_def cdt_wbyte2_def cdt_wbyte3_def cdt_whalf0_def
       cdt_whalf2_def cdt_write_def cdt_read_def store8_cdt store16_cdt store32_cdt load32_cdt same_devices_def tick_fields\<close>)

section \<open>Properties of the interface\<close>

text \<open>C34: every call through the driver interface changes only the registers
  of its own peripheral: the LED register only by \<open>set_leds\<close>, the RGB
  register only by \<open>set_ws2812b\<close>, the UART divisor only by \<open>uart_set_div\<close>,
  the received bytes only by \<open>uart_getchar\<close> and \<open>uart_get_hex\<close>, and the
  transmitted bytes only by the UART output calls and \<open>uart_get_hex\<close>'s echo.\<close>

theorem drv_exec_footprint:
  assumes "is_ram d" "drv_exec d c s = Some (v, s')" "r \<notin> set (footprint c)"
  shows "reg_same r s s'"
proof (cases c)
  case (Cdt x)
  then show ?thesis
    using assms(2,3) cdt_exec_frame [of x s v s'] by (cases r) (auto simp: same_devices_def)
next
  case (Leds x)
  then show ?thesis
    using assms(2,3) by (cases x; cases r) (auto simp: set_leds_state get_leds_state tick_fields)
next
  case (Ws2812b x)
  then show ?thesis
    using assms(2,3) by (cases r) (auto simp: set_ws2812b_state tick_fields)
next
  case (Uart x)
  show ?thesis
  proof (cases x)
    case (Uart_set_div dv)
    let ?s1 = "store32 d 0 (store32 UART_DIV_ADDR dv s)"
    have "set_div_delay d ?s1 = Some s'"
      using assms(2) Uart Uart_set_div by (auto simp: uart_set_div_def)
    then have "same_devices ?s1 s'" "uart_rx s' = uart_rx ?s1" "uart_tx s' = uart_tx ?s1"
      using same_devices_set_div_delay [OF _ assms(1)] set_div_delay_io by blast+
    moreover have "same_devices ((tick s)\<lparr>uart_div_reg := dv\<rparr>) ?s1"
      using same_devices_store_ram(3) [OF assms(1)] by (simp add: store32_uart_div)
    ultimately show ?thesis
      using assms(3) Uart Uart_set_div by (cases r) (auto simp: same_devices_def store32_uart_div tick_fields)
  next
    case Uart_getchar
    then obtain c where "uart_getchar s = Some (c, s')"
      using assms(2) Uart by auto
    then obtain n cs where "s' = ((tick ^^ n) s)\<lparr>uart_rx := cs\<rparr>"
      using getchar_shape by blast
    then show ?thesis
      using assms(3) Uart Uart_getchar by (cases r) (simp_all del: funpow.simps)
  next
    case Uart_get_hex
    then show ?thesis
      using assms(2,3) Uart same_devices_get_hex [of s _ s'] by (cases r) (auto simp: same_devices_def uart_get_hex_def)
  next
    case (Uart_puts bs)
    then have "uart_puts bs s = Some s'"
      using assms(2) Uart by auto
    then show ?thesis
      using assms(3) Uart Uart_puts same_devices_puts rx_puts by (cases r) (auto simp: same_devices_def)
  next
    case (Uart_print_hex w)
    then show ?thesis
      using assms(2,3) Uart by (cases r) (auto simp: uart_print_hex_run)
  next
    case (Uart_putchar b)
    then show ?thesis
      using assms(2,3) Uart by (cases r) (auto simp: uart_putchar_tx tick_fields)
  qed
qed

theorem drv_exec_footprint_witness:
  "drv_exec 0x2000 (Uart Uart_getchar) (boot_soc [0x41]) = Some (V_char 0x41, ((tick ^^ 1) (boot_soc [0x41]))\<lparr>uart_rx := []\<rparr>) \<and>
   reg_same R_leds (boot_soc [0x41]) (((tick ^^ 1) (boot_soc [0x41]))\<lparr>uart_rx := []\<rparr>)"
proof -
  have e: "drv_exec 0x2000 (Uart Uart_getchar) (boot_soc [0x41]) = Some (V_char 0x41, ((tick ^^ 1) (boot_soc [0x41]))\<lparr>uart_rx := []\<rparr>)"
    using uart_getchar_some [of "boot_soc [0x41]" 0 "0x41" "[]"] by (simp add: boot_soc_def)
  have "is_ram 0x2000" by (simp add: is_ram_def)
  then show ?thesis
    using drv_exec_footprint [OF _ e, of R_leds] e by simp
qed

text \<open>C26: the include guards of the driver headers. Including
  \<open>countdown_timer.h\<close> or \<open>leds.h\<close> a second time adds no declaration; but
  \<open>uart.h\<close> tests \<open>_UART_H\<close> and defines \<open>UART_H\<close>, so every inclusion of it
  repeats its six declarations, whatever was included before.\<close>

theorem driver_header_guards:
  "tu_decls (pp_include countdown_timer_h (pp_include countdown_timer_h st)) = tu_decls (pp_include countdown_timer_h st) \<and>
   tu_decls (pp_include leds_h (pp_include leds_h st)) = tu_decls (pp_include leds_h st) \<and>
   (''_UART_H'' \<notin> set (macros st) \<longrightarrow>
      tu_decls (pp_include uart_h (pp_include uart_h st)) = tu_decls st @ hdr_decls uart_h @ hdr_decls uart_h)"
  by (simp add: pp_include_def countdown_timer_h_def leds_h_def uart_h_def)

theorem driver_header_guards_witness:
  "''_UART_H'' \<notin> set (macros pp_empty) \<and>
   length (tu_decls (pp_include uart_h (pp_include uart_h pp_empty))) = 12"
  using driver_header_guards [of pp_empty] by (simp add: pp_empty_def uart_h_def)

end
