(* ===== verification/Spec2Isabelle.thy ===== *)
theory Spec2Isabelle
  imports Conv_To_Init Firmware Drivers
begin

text \<open>
  \<^bold>\<open>Verification development of picorv32_tang_nano_20k.\<close>
  The repository has two programs under \<open>src/c_code/\<close>: the host tool
  \<open>conv_to_init.c\<close>, which splits a binary image into four byte-lane SRAM
  initialisation files and writes \<open>sys_parameters.v\<close>, and the firmware run
  by the picorv32 core: the drivers \<open>uart.c\<close>, \<open>countdown_timer.c\<close>,
  \<open>leds.c\<close> and \<open>ws2812b.c\<close> with their headers, and \<open>main.c\<close>, whose
  \<open>main\<close> starts the board and then loops reading one-character commands from
  the UART, each running a driver call or a self test. The firmware talks to
  the peripherals only by loads and stores at fixed addresses.

  \<^bold>\<open>Theories.\<close>
  \<^item> \<open>Prelude\<close>: machine types (\<open>byte\<close>, \<open>u16\<close>, \<open>u32\<close>), C \<open>int\<close> with
    overflow as \<open>None\<close> (\<open>c_int\<close>, \<open>c_shl\<close>, \<open>INT_MAX\<close>), \<open>smod\<close> as C's \<open>%\<close>,
    list helpers, and the collections \<open>c_sem\<close> and \<open>soc_simps\<close>.
  \<^item> \<open>C_Lib\<close>: \<open>atoi\<close>, \<open>%d\<close> and \<open>%02X\<close> (\<open>fmt_d\<close>, \<open>fmt_02X\<close>), library functions the
    tool calls, modelled so its text can be stated exactly.
  \<^item> \<open>Conv_To_Init\<close>: the tool's \<open>main\<close> (\<open>conv_to_init\<close>) over a \<open>world\<close> record
    (file system as a map from names to contents, \<open>stdout\<close>, \<open>stderr\<close>), with
    one definition per step: argument checks, \<open>open_lanes\<close>, \<open>write_params\<close>,
    the byte loop \<open>read_loop\<close>, the padding loop \<open>pad_loop\<close> (a \<open>function\<close>
    with a measure), \<open>capacity_check\<close>. Every \<open>exit(EXIT_FAILURE)\<close> is a
    branch of the result; C \<open>int\<close> overflow is \<open>None\<close>. C1--C13: contents of
    the lane and parameter files, exit status, equivalence of the loops with
    the reference de-interleaving, each error path, the two overflows,
    termination of the padding loop, and the aliasing of input and outputs.
  \<^item> \<open>Soc\<close>: the bus state \<open>soc\<close> (LED, UART divisor, RGB and timer
    registers, the UART receive queue and transmitted bytes, SRAM bytes with a
    per-cell read-back fault, and a cycle count), \<open>tick\<close> (one bus access:
    the timer counts down \<open>cdt_dt\<close> cycles), and \<open>load8/16/32\<close>,
    \<open>store8/16/32\<close>. This is the contract of the Verilog peripherals, which
    are not under \<open>src/\<close>: it is modelled from the spec and the addresses in
    the drivers.
  \<^item> \<open>Uart\<close> (\<open>uart.c\<close>), \<open>Countdown_Timer\<close> (\<open>countdown_timer.c\<close>),
    \<open>Leds\<close> (\<open>leds.c\<close>, \<open>ws2812b.c\<close>): one definition per driver function.
    Busy-wait loops (\<open>uart_getchar\<close>, the loop of \<open>uart_get_hex\<close>, the delay
    loop of \<open>uart_set_div\<close>, the poll of \<open>cdt_delay\<close>) are
    \<open>partial_function (option)\<close>: \<open>None\<close> is a loop that never ends, and the
    theorems that they return are proved as such. C14--C21: \<open>uart_getchar\<close>
    returns iff a byte other than 0xff is pending, \<open>uart_print_hex\<close>
    refines "print 8 hex digits", \<open>uart_get_hex\<close> reads (modulo 2^32) and
    reads back what \<open>uart_print_hex\<close> transmits, \<open>uart_puts\<close>'s terminator,
    termination of \<open>uart_set_div\<close> and \<open>cdt_delay\<close> with time bounds, and
    the timer writers refining \<open>reg_write\<close>.
  \<^item> \<open>Firmware_Tests\<close>: the self tests of \<open>main.c\<close>; C22--C25. The array
    \<open>mem\<close> is not \<open>volatile\<close>, so a compiler may skip \<open>mem_test\<close>'s read-back;
    only its behaviour on working SRAM is a property.
  \<^item> \<open>Frames\<close>: which registers each routine leaves alone.
  \<^item> \<open>Firmware\<close>: \<open>main\<close> as \<open>main_init\<close> (start-up), \<open>main_iter\<close> (menu,
    \<open>uart_getchar\<close>, the switch \<open>fw_command\<close>) and the inductive relation
    \<open>fw_exec\<close> of the runs of the \<open>while (1)\<close> loop. \<open>3*CLK_FREQ\<close> is
    computed in the type of the constant \<open>CLK_FREQ\<close> (\<open>clk_times3\<close>: \<open>int\<close>
    when it fits, else \<open>long long\<close>). C27--C33: the loop invariant (LEDs = 6 +
    number of 'i' commands, divisor fixed), start-up, liveness of the loop,
    and the commands 'd', 'l' and unknown characters.
  \<^item> \<open>Drivers\<close>: the headers \<open>countdown_timer.h\<close>, \<open>uart.h\<close>, \<open>leds.h\<close> as
    datatypes of calls with their C argument and return types and a dispatch
    \<open>drv_exec\<close>; C34 says every call changes only its own peripheral's
    registers. The include guards are records run by \<open>pp_include\<close>; C26 shows
    \<open>countdown_timer.h\<close> and \<open>leds.h\<close> are protected and \<open>uart.h\<close>, whose
    guard tests one macro and defines another, is not.

  \<^bold>\<open>Bounds and fuel.\<close> No fuel is used: bounded loops are \<open>function\<close>s with
  measures (\<open>MEMSIZE\<close> = 512 words for \<open>mem_test\<close>, 5 test values, 8 hex
  digits, 200 rounds of the divisor delay, the padding to 16 bytes), and
  unbounded waits are partial functions. The poll of \<open>cdt_delay\<close> runs
  \<open>max 1 ((value + dt - 1) div dt)\<close> rounds when the timer counts \<open>dt > 0\<close>
  cycles per bus access; C20 and C31 bound the time it takes.

  \<^bold>\<open>Not modelled.\<close> The picorv32 core, the Verilog peripherals and the
  Makefile are not under \<open>src/\<close>; the bus contract of \<open>Soc\<close> stands in for
  them. Instruction timing is abstracted to a fixed number of timer cycles per
  bus access, and \<open>rdtime\<close> reads that cycle count. The baud divisor is
  computed exactly instead of in \<open>double\<close> (the two agree at these sizes).
  String literals are taken as their byte values; the addresses the linker
  and the stack give to \<open>mem\<close> and to local variables are parameters
  (\<open>fw_layout\<close>). \<open>ws2812b.h\<close> is included by the sources but not part of
  them; \<open>set_ws2812b\<close> is modelled from its definition.
\<close>

end
